(* ===== verification/Prelude.thy ===== *)
theory Prelude
  imports Complex_Main "HOL-Library.List_Lexorder" "HOL-Library.Char_ord"
begin

text \<open>
  Shared vocabulary of the development: the representation of Python strings and bytes, the
  dictionary operations on ordered association lists, the character classes that the
  program's regular expressions use, and the lemma collections the component theories extend.

  A Python \<^verbatim>\<open>str\<close> is represented by its UTF-8 encoding and a \<^verbatim>\<open>bytes\<close> value by its bytes, both
  as Isabelle \<open>string\<close>s (a \<open>char\<close> is one byte).  UTF-8 encoding is injective and maps
  concatenation to concatenation, prefixes to prefixes and the code-point order to the
  lexicographic byte order, so \<^verbatim>\<open>s.encode("utf-8")\<close> is the identity and \<^verbatim>\<open>sorted\<close> is the sort
  of \<open>HOL-Library.List_Lexorder\<close>.
\<close>

named_theorems char_class \<open>membership in the character classes\<close>

named_theorems dict_simps \<open>lookup after a dictionary operation\<close>

type_synonym bytes = string

text \<open>A Python dictionary with string keys: insertion-ordered, one entry for each key.\<close>

type_synonym 'v dict = "(string \<times> 'v) list"

section \<open>Dictionaries\<close>

text \<open>\<^verbatim>\<open>d[k] = v\<close>: an existing key keeps its position, a new key goes last.\<close>

fun dict_set :: "'k \<Rightarrow> 'v \<Rightarrow> ('k \<times> 'v) list \<Rightarrow> ('k \<times> 'v) list" where
  "dict_set k v [] = [(k, v)]"
| "dict_set k v ((k', v') # d) = (if k' = k then (k, v) # d else (k', v') # dict_set k v d)"

text \<open>\<^verbatim>\<open>d.setdefault(k, v)\<close> for its effect on the dictionary.\<close>

definition dict_setdefault :: "'k \<Rightarrow> 'v \<Rightarrow> ('k \<times> 'v) list \<Rightarrow> ('k \<times> 'v) list" where
  "dict_setdefault k v d = (case map_of d k of None \<Rightarrow> d @ [(k, v)] | Some _ \<Rightarrow> d)"

abbreviation dict_keys :: "('k \<times> 'v) list \<Rightarrow> 'k list" where
  "dict_keys d \<equiv> map fst d"

abbreviation dict_wf :: "('k \<times> 'v) list \<Rightarrow> bool" where
  "dict_wf d \<equiv> distinct (map fst d)"

lemma map_of_dict_set [simp, dict_simps]: "map_of (dict_set k v d) = (map_of d)(k \<mapsto> v)"
  by (induction d) (auto simp: fun_eq_iff)

lemma fst_set_dict_set [simp]: "fst ` set (dict_set k v d) = insert k (fst ` set d)"
proof (induction d)
  case (Cons e d)
  then show ?case by (cases e) (simp add: insert_commute)
qed simp

lemma set_dict_set: "set (dict_set k v d) \<subseteq> insert (k, v) (set d)"
  by (induction d) (auto split: if_splits)

lemma in_dict_set: "e \<in> set (dict_set k v d) \<Longrightarrow> e = (k, v) \<or> e \<in> set d"
  using set_dict_set [of k v d] by blast

lemma dict_wf_dict_set [simp, intro]: "dict_wf d \<Longrightarrow> dict_wf (dict_set k v d)"
  by (induction d) auto

lemma length_dict_set:
  "length (dict_set k v d) = (if k \<in> fst ` set d then length d else Suc (length d))"
proof (induction d)
  case (Cons e d)
  then show ?case by (cases e) (auto split: if_splits)
qed simp

lemma dict_set_fresh: "k \<notin> fst ` set d \<Longrightarrow> dict_set k v d = d @ [(k, v)]"
  by (induction d) auto

lemma map_of_dict_setdefault [simp, dict_simps]:
  "map_of (dict_setdefault k v d) =
     (case map_of d k of None \<Rightarrow> (map_of d)(k \<mapsto> v) | Some _ \<Rightarrow> map_of d)"
  by (auto simp: dict_setdefault_def map_add_def fun_eq_iff split: option.splits)

lemma dict_wf_dict_setdefault [simp, intro]: "dict_wf d \<Longrightarrow> dict_wf (dict_setdefault k v d)"
  by (auto simp: dict_setdefault_def map_of_eq_None_iff split: option.splits)

section \<open>Sets as duplicate-free sorted lists\<close>

text \<open>\<^verbatim>\<open>sorted(set(xs))\<close>, the form in which the program turns a set into a list.\<close>

definition sorted_set :: "'a::linorder list \<Rightarrow> 'a list" where
  "sorted_set xs = sort (remdups xs)"

lemma set_sorted_set [simp]: "set (sorted_set xs) = set xs"
  by (simp add: sorted_set_def)

lemma distinct_sorted_set [simp]: "distinct (sorted_set xs)"
  by (simp add: sorted_set_def)

lemma sorted_sorted_set [simp]: "sorted (sorted_set xs)"
  by (simp add: sorted_set_def)

lemma sorted_set_cong: "set xs = set ys \<Longrightarrow> sorted_set xs = sorted_set ys"
  by (rule sorted_distinct_set_unique) simp_all

section \<open>Characters\<close>

definition is_digit :: "char \<Rightarrow> bool" where
  "is_digit c \<longleftrightarrow> CHR ''0'' \<le> c \<and> c \<le> CHR ''9''"

definition is_lower_hex :: "char \<Rightarrow> bool" where
  "is_lower_hex c \<longleftrightarrow> is_digit c \<or> (CHR ''a'' \<le> c \<and> c \<le> CHR ''f'')"

definition is_lower :: "char \<Rightarrow> bool" where
  "is_lower c \<longleftrightarrow> CHR ''a'' \<le> c \<and> c \<le> CHR ''z''"

definition is_upper :: "char \<Rightarrow> bool" where
  "is_upper c \<longleftrightarrow> CHR ''A'' \<le> c \<and> c \<le> CHR ''Z''"

definition is_ascii :: "char \<Rightarrow> bool" where
  "is_ascii c \<longleftrightarrow> of_char c < (128 :: nat)"

lemma is_ascii_Char [simp]: "is_ascii (Char b0 b1 b2 b3 b4 b5 b6 b7) \<longleftrightarrow> \<not> b7"
  by (cases b0; cases b1; cases b2; cases b3; cases b4; cases b5; cases b6; cases b7)
    (simp_all add: is_ascii_def)

text \<open>ASCII characters for which \<^verbatim>\<open>str.isspace\<close> holds, the ones \<^verbatim>\<open>str.strip\<close> removes.\<close>

definition is_space :: "char \<Rightarrow> bool" where
  "is_space c \<longleftrightarrow> (let n = of_char c :: nat in (9 \<le> n \<and> n \<le> 13) \<or> (28 \<le> n \<and> n \<le> 32))"

definition strip :: "string \<Rightarrow> string" where
  "strip s = rev (dropWhile is_space (rev (dropWhile is_space s)))"

lemma char_le_iff: "c \<le> d \<longleftrightarrow> of_char c \<le> (of_char d :: nat)"
  by (simp add: less_eq_char_def)

lemma lower_hex_bounds: "is_lower_hex c \<Longrightarrow> 48 \<le> (of_char c :: nat) \<and> of_char c \<le> (102 :: nat)"
  by (auto simp: is_lower_hex_def is_digit_def char_le_iff)

lemma lower_hex_ascii [char_class]: "is_lower_hex c \<Longrightarrow> is_ascii c"
  using lower_hex_bounds by (fastforce simp: is_ascii_def)

lemma lower_hex_not_space [char_class]: "is_lower_hex c \<Longrightarrow> \<not> is_space c"
  using lower_hex_bounds by (fastforce simp: is_space_def Let_def)

lemma dropWhile_none: "\<forall>x \<in> set xs. \<not> P x \<Longrightarrow> dropWhile P xs = xs"
  by (cases xs) simp_all

lemma strip_append_space:
  assumes "\<forall>c \<in> set s. \<not> is_space c" and "\<forall>c \<in> set t. is_space c"
  shows "strip (s @ t) = s"
proof (cases s)
  case Nil
  with assms(2) show ?thesis by (auto simp: strip_def dest: set_dropWhileD)
next
  case (Cons c s')
  with assms(1) have front: "dropWhile is_space (s @ t) = s @ t" by simp
  have "dropWhile is_space (rev t @ rev s) = dropWhile is_space (rev s)"
    by (rule dropWhile_append2) (use assms(2) in auto)
  also have "\<dots> = rev s"
    using assms(1) by (simp add: dropWhile_none)
  finally show ?thesis using front by (simp add: strip_def)
qed

lemma strip_no_space: "\<forall>c \<in> set s. \<not> is_space c \<Longrightarrow> strip s = s"
  using strip_append_space [of s "[]"] by simp

end
