(* ===== verification/PyFloat.thy ===== *)
theory PyFloat
  imports Prelude "HOL-Library.Log_Nat"
begin

text \<open>
  Python's \<^verbatim>\<open>float\<close>: IEEE binary64 values as the rationals they denote, with the correctly
  rounded operations the program uses (construction from an exact value, division of integers,
  \<^verbatim>\<open>round(x, n)\<close>) and the shortest decimal text of \<^verbatim>\<open>repr\<close>.  The sign of zero is not represented.
\<close>

datatype pyfloat = Fin rat | PInf | NInf | NaN

section \<open>Rounding to the nearest integer, ties to even\<close>

definition round_even :: "rat \<Rightarrow> int" where
  "round_even x =
     (let f = \<lfloor>x\<rfloor>; r = x - of_int f
      in if r < 1 / 2 then f else if 1 / 2 < r then f + 1 else if even f then f else f + 1)"

lemma round_even_int [simp]: "round_even (of_int n) = n"
  by (simp add: round_even_def)

lemma round_even_bounds: "\<lfloor>x\<rfloor> \<le> round_even x \<and> round_even x \<le> \<lfloor>x\<rfloor> + 1"
  by (simp add: round_even_def Let_def)

lemma round_even_mono:
  assumes "x \<le> y"
  shows "round_even x \<le> round_even y"
proof (cases "\<lfloor>x\<rfloor> = \<lfloor>y\<rfloor>")
  case True
  with assms show ?thesis by (auto simp: round_even_def Let_def)
next
  case False
  with assms have "\<lfloor>x\<rfloor> + 1 \<le> \<lfloor>y\<rfloor>" using floor_mono [OF assms] by linarith
  then show ?thesis using round_even_bounds [of x] round_even_bounds [of y] by linarith
qed

section \<open>Powers with integer exponents\<close>

definition pow2 :: "int \<Rightarrow> rat" where
  "pow2 e = (if 0 \<le> e then 2 ^ nat e else 1 / 2 ^ nat (- e))"

definition pow10 :: "int \<Rightarrow> rat" where
  "pow10 e = (if 0 \<le> e then 10 ^ nat e else 1 / 10 ^ nat (- e))"

text \<open>\<open>\<lfloor>log\<^sub>2 q\<rfloor>\<close> of a positive rational, from the bit lengths of its two parts.\<close>

definition ilog2 :: "rat \<Rightarrow> int" where
  "ilog2 q = (case quotient_of q of (n, d) \<Rightarrow>
     (let e = bitlen n - bitlen d in if pow2 e \<le> q then e else e - 1))"

section \<open>Rounding to binary64\<close>

definition round_pos :: "rat \<Rightarrow> rat" where
  "round_pos q = (let u = pow2 (max (ilog2 q - 52) (- 1074)) in u * of_int (round_even (q / u)))"

definition float_of :: "rat \<Rightarrow> pyfloat" where
  "float_of q =
     (if q = 0 then Fin 0
      else if 0 < q then (let r = round_pos q in if pow2 1024 \<le> r then PInf else Fin r)
      else (let r = round_pos (- q) in if pow2 1024 \<le> r then NInf else Fin (- r)))"

section \<open>Decimal text\<close>

fun nat_digits :: "nat \<Rightarrow> string" where
  "nat_digits n =
     (if n < 10 then [char_of (48 + n)] else nat_digits (n div 10) @ [char_of (48 + n mod 10)])"

declare nat_digits.simps [simp del]

definition int_text :: "int \<Rightarrow> string" where
  "int_text n = (if n < 0 then CHR ''-'' # nat_digits (nat (- n)) else nat_digits (nat n))"

text \<open>\<open>\<lfloor>log\<^sub>1\<^sub>0 q\<rfloor>\<close> of a positive rational by search, from the estimate its bit length gives.\<close>

definition ilog10 :: "rat \<Rightarrow> int" where
  "ilog10 q = (let e = (ilog2 q * 30103) div 100000
     in if q < pow10 e then e - 1 else if pow10 (e + 1) \<le> q then e + 1 else e)"

text \<open>
  The shortest decimal with \<open>n\<close> significant digits, \<open>17 - fuel < n\<close>, that reads back as \<open>q\<close>:
  its digits as an integer, and the exponent of its last digit.
\<close>

fun shortest :: "nat \<Rightarrow> int \<Rightarrow> rat \<Rightarrow> int \<times> int" where
  "shortest 0 k q = (round_even (q / pow10 (k - 16)), k - 16)"
| "shortest (Suc fuel) k q =
     (let e = k - int (16 - fuel); x = q / pow10 e;
          lo = \<lfloor>x\<rfloor>; hi = \<lceil>x\<rceil>; c = round_even x;
          ok = (\<lambda>m. float_of (of_int m * pow10 e) = Fin q);
          c' = (if c = lo then hi else lo)
      in if ok c then (c, e) else if ok c' then (c', e) else shortest fuel k q)"

definition drop_zeros :: "string \<Rightarrow> string" where
  "drop_zeros s = rev (dropWhile (\<lambda>c. c = CHR ''0'') (rev s))"

text \<open>The layout of \<^verbatim>\<open>repr\<close>: fixed notation for \<open>-4 \<le> exponent < 16\<close>, scientific otherwise.\<close>

definition layout :: "string \<Rightarrow> int \<Rightarrow> string" where
  "layout ds p =
     (if - 4 \<le> p \<and> p < 16 then
        (if p < 0 then ''0.'' @ replicate (nat (- p - 1)) CHR ''0'' @ ds
         else if int (length ds) \<le> p + 1
           then ds @ replicate (nat (p + 1) - length ds) CHR ''0'' @ ''.0''
         else take (nat (p + 1)) ds @ ''.'' @ drop (nat (p + 1)) ds)
      else
        take 1 ds @ (if length ds = 1 then '''' else ''.'' @ drop 1 ds) @ ''e''
          @ (if p < 0 then ''-'' else ''+'')
          @ (if \<bar>p\<bar> < 10 then ''0'' else '''') @ nat_digits (nat \<bar>p\<bar>))"

definition repr_pos :: "rat \<Rightarrow> string" where
  "repr_pos q = (case shortest 17 (ilog10 q) q of (m, e) \<Rightarrow>
     (let ds = nat_digits (nat m) in layout (drop_zeros ds) (e + int (length ds) - 1)))"

definition float_repr :: "pyfloat \<Rightarrow> string" where
  "float_repr f = (case f of
     Fin q \<Rightarrow> (if q = 0 then ''0.0'' else if 0 < q then repr_pos q else CHR ''-'' # repr_pos (- q))
   | PInf \<Rightarrow> ''inf'' | NInf \<Rightarrow> ''-inf'' | NaN \<Rightarrow> ''nan'')"

section \<open>Operations on floats\<close>

text \<open>\<^verbatim>\<open>a / b\<close> for integers, correctly rounded; the callers exclude \<open>b = 0\<close>.\<close>

definition int_div :: "int \<Rightarrow> int \<Rightarrow> pyfloat" where
  "int_div a b = float_of (of_int a / of_int b)"

text \<open>\<^verbatim>\<open>round(x, n)\<close>: the correctly rounded decimal with \<open>n\<close> places, as a float.\<close>

definition float_round :: "pyfloat \<Rightarrow> nat \<Rightarrow> pyfloat" where
  "float_round f n = (case f of
     Fin q \<Rightarrow> float_of (of_int (round_even (q * 10 ^ n)) / 10 ^ n) | _ \<Rightarrow> f)"

end
