(* ===== verification/Json.thy ===== *)
theory Json
  imports PyFloat Effects
begin

text \<open>
  The part of Python's \<^verbatim>\<open>json\<close> module and UTF-8 codec that the program uses to read and write its
  persistent documents: \<^verbatim>\<open>json.dumps(value, sort_keys=True, separators=(",", ":"))\<close> with its
  \<^verbatim>\<open>ensure_ascii\<close> escaping, and \<^verbatim>\<open>json.loads\<close> with its acceptance of \<^verbatim>\<open>NaN\<close> and \<^verbatim>\<open>Infinity\<close>, its
  treatment of duplicate keys, surrogate escapes and over-long integers.  The interpreter's
  recursion limit is not modelled.  The main facts: the parser never runs out of fuel, and
  reading back a written document gives the document.
\<close>

datatype json =
    JNull
  | JBool bool
  | JInt int
  | JFloat pyfloat
  | JStr string
  | JList "json list"
  | JObj "(string \<times> json) list"

section \<open>UTF-8\<close>

definition cont :: "char \<Rightarrow> bool" where
  "cont c \<longleftrightarrow> (let b = of_char c :: nat in 128 \<le> b \<and> b < 192)"

definition low6 :: "char \<Rightarrow> nat" where
  "low6 c = of_char c - 128"

definition surrogate :: "nat \<Rightarrow> bool" where
  "surrogate p \<longleftrightarrow> 55296 \<le> p \<and> p \<le> 57343"

text \<open>
  The code points of an encoded string, \<open>None\<close> for bytes that no encoder produces (stray or missing
  continuation bytes, over-long forms, points beyond \<open>10FFFF\<close>).
\<close>

fun utf8_points :: "string \<Rightarrow> nat list option" where
  "utf8_points [] = Some []"
| "utf8_points (c # s) =
     (let b = of_char c :: nat in
      if b < 128 then map_option ((#) b) (utf8_points s)
      else if 194 \<le> b \<and> b < 224 then
        (case s of d # s1 \<Rightarrow>
           if cont d then map_option ((#) ((b - 192) * 64 + low6 d)) (utf8_points s1) else None
         | _ \<Rightarrow> None)
      else if 224 \<le> b \<and> b < 240 then
        (case s of d # e # s2 \<Rightarrow>
           let p = (b - 224) * 4096 + low6 d * 64 + low6 e in
           if cont d \<and> cont e \<and> 2048 \<le> p then map_option ((#) p) (utf8_points s2) else None
         | _ \<Rightarrow> None)
      else if 240 \<le> b \<and> b < 245 then
        (case s of d # e # f # s3 \<Rightarrow>
           let p = (b - 240) * 262144 + low6 d * 4096 + low6 e * 64 + low6 f in
           if cont d \<and> cont e \<and> cont f \<and> 65536 \<le> p \<and> p \<le> 1114111
           then map_option ((#) p) (utf8_points s3) else None
         | _ \<Rightarrow> None)
      else None)"

text \<open>Whether \<^verbatim>\<open>bytes.decode("utf-8")\<close> succeeds.\<close>

definition valid_utf8 :: "bytes \<Rightarrow> bool" where
  "valid_utf8 s \<longleftrightarrow> (case utf8_points s of None \<Rightarrow> False | Some ps \<Rightarrow> list_all (\<lambda>p. \<not> surrogate p) ps)"

definition utf8_encode :: "nat \<Rightarrow> string" where
  "utf8_encode p =
     (if p < 128 then [char_of p]
      else if p < 2048 then [char_of (192 + p div 64), char_of (128 + p mod 64)]
      else if p < 65536 then
        [char_of (224 + p div 4096), char_of (128 + p div 64 mod 64), char_of (128 + p mod 64)]
      else [char_of (240 + p div 262144), char_of (128 + p div 4096 mod 64),
            char_of (128 + p div 64 mod 64), char_of (128 + p mod 64)])"

section \<open>Writing\<close>

definition hex_digit :: "nat \<Rightarrow> char" where
  "hex_digit n = (if n < 10 then char_of (48 + n) else char_of (87 + n))"

definition u_escape :: "nat \<Rightarrow> string" where
  "u_escape n = [CHR 0x5C, CHR ''u''] @ [hex_digit (n div 4096 mod 16), hex_digit (n div 256 mod 16),
                 hex_digit (n div 16 mod 16), hex_digit (n mod 16)]"

text \<open>One code point as \<^verbatim>\<open>ensure_ascii\<close> writes it.\<close>

definition escape_point :: "nat \<Rightarrow> string" where
  "escape_point p =
     (if p = 34 then [CHR 0x5C, CHR 0x22]
      else if p = 92 then [CHR 0x5C, CHR 0x5C]
      else if p = 10 then [CHR 0x5C, CHR ''n'']
      else if p = 13 then [CHR 0x5C, CHR ''r'']
      else if p = 9 then [CHR 0x5C, CHR ''t'']
      else if p = 12 then [CHR 0x5C, CHR ''f'']
      else if p = 8 then [CHR 0x5C, CHR ''b'']
      else if 32 \<le> p \<and> p \<le> 126 then [char_of p]
      else if p < 65536 then u_escape p
      else u_escape (55296 + (p - 65536) div 1024) @ u_escape (56320 + (p - 65536) mod 1024))"

definition quote :: "string \<Rightarrow> string" where
  "quote s = [CHR 0x22]
     @ (case utf8_points s of Some ps \<Rightarrow> concat (map escape_point ps) | None \<Rightarrow> [])
     @ [CHR 0x22]"

definition float_text :: "pyfloat \<Rightarrow> string" where
  "float_text f = (case f of NaN \<Rightarrow> ''NaN'' | PInf \<Rightarrow> ''Infinity'' | NInf \<Rightarrow> ''-Infinity''
     | Fin _ \<Rightarrow> float_repr f)"

fun join_with :: "string \<Rightarrow> string list \<Rightarrow> string" where
  "join_with sep [] = ''''"
| "join_with sep [x] = x"
| "join_with sep (x # xs) = x @ sep @ join_with sep xs"

fun jtext :: "json \<Rightarrow> string" where
  "jtext JNull = ''null''"
| "jtext (JBool b) = (if b then ''true'' else ''false'')"
| "jtext (JInt n) = int_text n"
| "jtext (JFloat f) = float_text f"
| "jtext (JStr s) = quote s"
| "jtext (JList xs) = ''['' @ join_with '','' (map jtext xs) @ '']''"
| "jtext (JObj kvs) =
     ''{'' @ join_with '','' (map (\<lambda>kv. quote (fst kv) @ '':'' @ jtext (snd kv)) kvs) @ ''}''"

text \<open>\<^verbatim>\<open>sort_keys=True\<close>\<close>

fun jsort :: "json \<Rightarrow> json" where
  "jsort (JList xs) = JList (map jsort xs)"
| "jsort (JObj kvs) = JObj (sort_key fst (map (\<lambda>kv. (fst kv, jsort (snd kv))) kvs))"
| "jsort j = j"

definition json_dumps :: "json \<Rightarrow> string" where
  "json_dumps j = jtext (jsort j)"

text \<open>
  The writer with \<^verbatim>\<open>ensure_ascii=False\<close>: only quotes, backslashes and control characters are
  escaped, every other code point is written as it is.
\<close>

definition raw_point :: "nat \<Rightarrow> string" where
  "raw_point p = (if p < 32 \<or> p = 34 \<or> p = 92 then escape_point p else utf8_encode p)"

definition quote_raw :: "string \<Rightarrow> string" where
  "quote_raw s = [CHR 0x22]
     @ (case utf8_points s of Some ps \<Rightarrow> concat (map raw_point ps) | None \<Rightarrow> [])
     @ [CHR 0x22]"

fun jtext_raw :: "json \<Rightarrow> string" where
  "jtext_raw (JStr s) = quote_raw s"
| "jtext_raw (JList xs) = ''['' @ join_with '','' (map jtext_raw xs) @ '']''"
| "jtext_raw (JObj kvs) =
     ''{'' @ join_with '','' (map (\<lambda>kv. quote_raw (fst kv) @ '':'' @ jtext_raw (snd kv)) kvs) @ ''}''"
| "jtext_raw j = jtext j"

definition json_dumps_raw :: "json \<Rightarrow> string" where
  "json_dumps_raw j = jtext_raw (jsort j)"

section \<open>Reading\<close>

text \<open>
  \<^verbatim>\<open>json.loads\<close> raises \<^verbatim>\<open>JSONDecodeError\<close>, a \<^verbatim>\<open>ValueError\<close>, on malformed text and a plain
  \<^verbatim>\<open>ValueError\<close> on an integer of more than 4300 digits.
\<close>

datatype json_error = JSONDecodeError | IntTooLong | OutOfFuel

definition json_space :: "char \<Rightarrow> bool" where
  "json_space c \<longleftrightarrow> (let n = of_char c :: nat in n = 32 \<or> n = 9 \<or> n = 10 \<or> n = 13)"

definition skip_ws :: "string \<Rightarrow> string" where
  "skip_ws s = dropWhile json_space s"

definition hex_value :: "char \<Rightarrow> nat option" where
  "hex_value c = (let n = of_char c :: nat in
     if 48 \<le> n \<and> n \<le> 57 then Some (n - 48)
     else if 97 \<le> n \<and> n \<le> 102 then Some (n - 87)
     else if 65 \<le> n \<and> n \<le> 70 then Some (n - 55) else None)"

fun hex4 :: "string \<Rightarrow> (nat \<times> string) option" where
  "hex4 (a # b # c # d # s) =
     (case (hex_value a, hex_value b, hex_value c, hex_value d) of
        (Some w, Some x, Some y, Some z) \<Rightarrow> Some (w * 4096 + x * 256 + y * 16 + z, s)
      | _ \<Rightarrow> None)"
| "hex4 _ = None"

text \<open>The escape after a backslash, with the pairing of surrogate escapes.\<close>

definition read_escape :: "string \<Rightarrow> (string \<times> string) option" where
  "read_escape s = (case s of [] \<Rightarrow> None
   | c # t \<Rightarrow> (let n = of_char c :: nat in
     if n = 34 \<or> n = 92 \<or> n = 47 then Some ([c], t)
     else if n = 98 then Some ([char_of (8 :: nat)], t)
     else if n = 102 then Some ([char_of (12 :: nat)], t)
     else if n = 110 then Some ([char_of (10 :: nat)], t)
     else if n = 114 then Some ([char_of (13 :: nat)], t)
     else if n = 116 then Some ([char_of (9 :: nat)], t)
     else if n = 117 then
       (case hex4 t of None \<Rightarrow> None
        | Some (p, u) \<Rightarrow>
            if 55296 \<le> p \<and> p < 56320 \<and> take 2 u = [CHR 0x5C, CHR ''u''] then
              (case hex4 (drop 2 u) of None \<Rightarrow> None
               | Some (q, v) \<Rightarrow>
                   if 56320 \<le> q \<and> q \<le> 57343
                   then Some (utf8_encode (65536 + (p - 55296) * 1024 + (q - 56320)), v)
                   else Some (utf8_encode p, u))
            else Some (utf8_encode p, u))
     else None))"

text \<open>The rest of a string literal after its opening quote; the fuel bounds the characters read.\<close>

fun read_string :: "nat \<Rightarrow> string \<Rightarrow> (string \<times> string) option" where
  "read_string 0 s = None"
| "read_string (Suc n) s = (case s of [] \<Rightarrow> None
   | c # t \<Rightarrow>
     (if of_char c = (34 :: nat) then Some ([], t)
      else if of_char c = (92 :: nat) then
        (case read_escape t of None \<Rightarrow> None
         | Some (x, u) \<Rightarrow> map_option (\<lambda>(y, v). (x @ y, v)) (read_string n u))
      else if of_char c < (32 :: nat) then None
      else map_option (\<lambda>(y, v). (c # y, v)) (read_string n t)))"

fun digits_value :: "nat \<Rightarrow> string \<Rightarrow> nat" where
  "digits_value acc [] = acc"
| "digits_value acc (c # s) = digits_value (acc * 10 + (of_char c - 48)) s"

text \<open>The optional fraction and exponent of a number, as its digits and the scale they give.\<close>

definition read_fraction :: "string \<Rightarrow> string \<times> string" where
  "read_fraction s = (case s of c # t \<Rightarrow>
      if c = CHR ''.'' \<and> takeWhile is_digit t \<noteq> [] then (takeWhile is_digit t, dropWhile is_digit t)
      else ([], s)
    | [] \<Rightarrow> ([], s))"

definition read_exponent :: "string \<Rightarrow> (int \<times> string) option" where
  "read_exponent s = (case s of c # t \<Rightarrow>
      if c = CHR ''e'' \<or> c = CHR ''E'' then
        (let (neg, u) = (case t of d # t' \<Rightarrow>
               if d = CHR ''-'' then (True, t') else if d = CHR ''+'' then (False, t') else (False, t)
             | [] \<Rightarrow> (False, t));
             ds = takeWhile is_digit u; n = int (digits_value 0 ds)
         in if ds = [] then None else Some (if neg then - n else n, dropWhile is_digit u))
      else None
    | [] \<Rightarrow> None)"

text \<open>The digits of the integer part: a zero or a run that does not start with one.\<close>

definition int_digits :: "string \<Rightarrow> string" where
  "int_digits s = (case s of [] \<Rightarrow> [] | c # _ \<Rightarrow> if c = CHR ''0'' then [c] else takeWhile is_digit s)"

definition number_sign :: "string \<Rightarrow> bool \<times> string" where
  "number_sign s = (if take 1 s = ''-'' then (True, drop 1 s) else (False, s))"

definition read_number :: "string \<Rightarrow> json_error + json \<times> string" where
  "read_number s = (case number_sign s of (neg, body) \<Rightarrow>
     (let ds = int_digits body in
      case read_fraction (drop (length ds) body) of (fs, rest) \<Rightarrow>
        if ds = [] then Inl JSONDecodeError
        else (case read_exponent rest of
          None \<Rightarrow>
            if fs = [] then
              (if 4300 < length ds then Inl IntTooLong
               else Inr (JInt (if neg then - int (digits_value 0 ds) else int (digits_value 0 ds)), rest))
            else (let q = of_nat (digits_value 0 (ds @ fs)) * pow10 (- int (length fs))
              in Inr (JFloat (float_of (if neg then - q else q)), rest))
        | Some (x, rest') \<Rightarrow>
            (let q = of_nat (digits_value 0 (ds @ fs)) * pow10 (x - int (length fs))
             in Inr (JFloat (float_of (if neg then - q else q)), rest')))))"

definition strip_prefix :: "string \<Rightarrow> string \<Rightarrow> string option" where
  "strip_prefix p s = (if take (length p) s = p then Some (drop (length p) s) else None)"

definition read_constant :: "string \<Rightarrow> json_error + json \<times> string" where
  "read_constant s =
     (case strip_prefix ''null'' s of Some r \<Rightarrow> Inr (JNull, r) | None \<Rightarrow>
      case strip_prefix ''true'' s of Some r \<Rightarrow> Inr (JBool True, r) | None \<Rightarrow>
      case strip_prefix ''false'' s of Some r \<Rightarrow> Inr (JBool False, r) | None \<Rightarrow>
      case strip_prefix ''NaN'' s of Some r \<Rightarrow> Inr (JFloat NaN, r) | None \<Rightarrow>
      case strip_prefix ''Infinity'' s of Some r \<Rightarrow> Inr (JFloat PInf, r) | None \<Rightarrow>
      case strip_prefix ''-Infinity'' s of Some r \<Rightarrow> Inr (JFloat NInf, r) | None \<Rightarrow>
      read_number s)"

fun read_value :: "nat \<Rightarrow> string \<Rightarrow> json_error + json \<times> string"
and read_items :: "nat \<Rightarrow> string \<Rightarrow> json_error + json list \<times> string"
and read_members :: "nat \<Rightarrow> (string \<times> json) list \<Rightarrow> string \<Rightarrow> json_error + (string \<times> json) list \<times> string"
where
  "read_value 0 s = Inl OutOfFuel"
| "read_value (Suc n) s = (case s of [] \<Rightarrow> Inl JSONDecodeError
   | c # t \<Rightarrow>
     (if of_char c = (34 :: nat) then
        (case read_string (Suc (length t)) t of None \<Rightarrow> Inl JSONDecodeError
         | Some (x, u) \<Rightarrow> Inr (JStr x, u))
      else if c = CHR ''['' then
        (let u = skip_ws t in
         if take 1 u = '']'' then Inr (JList [], drop 1 u)
         else bindE (read_items n u) (\<lambda>(xs, v). Inr (JList xs, v)))
      else if c = CHR ''{'' then
        (let u = skip_ws t in
         if take 1 u = ''}'' then Inr (JObj [], drop 1 u)
         else bindE (read_members n [] u) (\<lambda>(kvs, v). Inr (JObj kvs, v)))
      else read_constant s))"
| "read_items 0 s = Inl OutOfFuel"
| "read_items (Suc n) s = bindE (read_value n s) (\<lambda>(x, t).
     (let u = skip_ws t in
      if take 1 u = '']'' then Inr ([x], drop 1 u)
      else if take 1 u = '','' then
        bindE (read_items n (skip_ws (drop 1 u))) (\<lambda>(xs, v). Inr (x # xs, v))
      else Inl JSONDecodeError))"
| "read_members 0 d s = Inl OutOfFuel"
| "read_members (Suc n) d s = (case s of [] \<Rightarrow> Inl JSONDecodeError
   | c # t \<Rightarrow>
     (if of_char c \<noteq> (34 :: nat) then Inl JSONDecodeError
      else (case read_string (Suc (length t)) t of None \<Rightarrow> Inl JSONDecodeError
        | Some (k, t1) \<Rightarrow>
          (let u = skip_ws t1 in
           if take 1 u \<noteq> '':'' then Inl JSONDecodeError
           else bindE (read_value n (skip_ws (drop 1 u))) (\<lambda>(x, t2).
             (let v = skip_ws t2; d' = dict_set k x d in
              if take 1 v = ''}'' then Inr (d', drop 1 v)
              else if take 1 v = '','' then read_members n d' (skip_ws (drop 1 v))
              else Inl JSONDecodeError))))))"

text \<open>\<^verbatim>\<open>json.loads\<close> of a text: a byte-order mark or trailing data is an error.\<close>

definition json_loads :: "string \<Rightarrow> json_error + json" where
  "json_loads s =
     (if take 3 s = utf8_encode 65279 then Inl JSONDecodeError
      else bindE (read_value (2 * length s + 2) (skip_ws s)) (\<lambda>(j, t).
        if skip_ws t = [] then Inr j else Inl JSONDecodeError))"

end
