(* ===== verification/JsonFacts.thy ===== *)
theory JsonFacts
  imports Json
begin

text \<open>
  Facts about the JSON reader and writer that the components share: the reader consumes its
  input, so the fuel of \<open>json_loads\<close> is enough and an error is always one Python raises; a
  document written by \<open>json_dumps\<close> is read back as its key-sorted self.
\<close>

section \<open>The reader consumes its input and does not run out of fuel\<close>

lemma length_dropWhile_le: "length (dropWhile P xs) \<le> length xs"
  by (induction xs) simp_all

lemma length_skip_ws: "length (skip_ws s) \<le> length s"
  by (simp add: skip_ws_def length_dropWhile_le)

lemma hex4_length: "hex4 s = Some (p, t) \<Longrightarrow> length s = length t + 4"
  by (erule hex4.elims) (auto split: option.splits)

lemma read_escape_length: "read_escape s = Some (x, t) \<Longrightarrow> length t < length s"
  by (auto simp: read_escape_def Let_def split: list.splits if_splits option.splits dest!: hex4_length)

lemma read_string_length: "read_string n s = Some (x, t) \<Longrightarrow> length t < length s"
proof (induction n arbitrary: s x)
  case (Suc n)
  show ?case
  proof (cases s)
    case (Cons c u)
    then show ?thesis
      using Suc.prems
      by (auto split: if_splits option.splits dest!: read_escape_length Suc.IH)
  qed (use Suc.prems in simp)
qed simp

declare read_string.simps [simp del]

lemma read_fraction_length: "read_fraction s = (f, t) \<Longrightarrow> length t \<le> length s"
  by (auto simp: read_fraction_def split: list.splits if_splits
      intro: le_SucI [OF length_dropWhile_le])

lemma read_exponent_length: "read_exponent s = Some (x, t) \<Longrightarrow> length t < length s"
  by (auto simp: read_exponent_def Let_def split: list.splits if_splits prod.splits
      intro: le_imp_less_Suc le_SucI [OF length_dropWhile_le] length_dropWhile_le)

lemma length_int_digits: "length (int_digits s) \<le> length s"
  by (auto simp: int_digits_def length_takeWhile_le le_SucI split: list.splits)

lemma read_number_length:
  assumes "read_number s = Inr (j, t)"
  shows "length t < length s"
proof -
  obtain neg body where body: "number_sign s = (neg, body)" by fastforce
  define ds where "ds = int_digits body"
  obtain fs rest where f: "read_fraction (drop (length ds) body) = (fs, rest)" by fastforce
  have "ds \<noteq> []" and t: "length t \<le> length rest"
    using assms f body
    by (auto simp: read_number_def Let_def ds_def [symmetric]
        split: if_splits option.splits dest: read_exponent_length)
  moreover have "length ds \<le> length body" by (simp add: ds_def length_int_digits)
  ultimately have "length (drop (length ds) body) < length body" by (cases ds) auto
  moreover have "length body \<le> length s"
    using body by (auto simp: number_sign_def split: if_splits)
  ultimately show ?thesis using t read_fraction_length [OF f] by linarith
qed

lemma strip_prefix_length: "strip_prefix p s = Some t \<Longrightarrow> p \<noteq> [] \<Longrightarrow> length t < length s"
  by (cases s) (auto simp: strip_prefix_def split: if_splits)

lemma read_constant_length: "read_constant s = Inr (j, t) \<Longrightarrow> length t < length s"
  by (auto simp: read_constant_def split: option.splits
      dest: read_number_length strip_prefix_length)

lemma reader_length:
  "read_value n s = Inr (j, t) \<Longrightarrow> length t < length s"
  "read_items n s = Inr (js, t) \<Longrightarrow> length t < length s"
  "read_members n d s = Inr (kvs, t) \<Longrightarrow> length t < length s"
proof (induction n arbitrary: s t j js kvs d)
  case (Suc n)
  {
    case 1
    show ?case
    proof (cases s)
      case (Cons c u)
      have sk: "length (skip_ws u) \<le> length u" by (rule length_skip_ws)
      show ?thesis
        using 1 Cons sk
        by (auto simp: Let_def bindE_Inr_iff split: if_splits option.splits
            dest!: read_string_length read_constant_length Suc.IH(2,3))
    qed (use 1 in simp)
  next
    case 2
    then obtain x u where x: "read_value n s = Inr (x, u)" by (auto simp: bindE_Inr_iff)
    have "length u < length s" using Suc.IH(1) [OF x] .
    moreover have "length (skip_ws u) \<le> length u" by (rule length_skip_ws)
    moreover have "length (skip_ws (drop 1 (skip_ws u))) \<le> length (drop 1 (skip_ws u))"
      by (rule length_skip_ws)
    ultimately show ?case
      using 2 x
      by (auto simp: Let_def bindE_Inr_iff split: if_splits dest!: Suc.IH(2))
  next
    case 3
    then obtain k u where k: "read_string (length s) (tl s) = Some (k, u)" and s: "s \<noteq> []"
      by (auto split: list.splits if_splits option.splits)
    define a where "a = skip_ws (drop (Suc 0) (skip_ws u))"
    from 3 k obtain x v where x: "read_value n a = Inr (x, v)"
      by (auto simp: Let_def bindE_Inr_iff a_def split: list.splits if_splits)
    define b where "b = skip_ws (drop (Suc 0) (skip_ws v))"
    have "length (skip_ws u) \<le> length u" "length (skip_ws v) \<le> length v" by (rule length_skip_ws)+
    moreover have "length a \<le> length (drop (Suc 0) (skip_ws u))" "length b \<le> length (drop (Suc 0) (skip_ws v))"
      unfolding a_def b_def by (rule length_skip_ws)+
    moreover have "length v < length a" using Suc.IH(1) [OF x] .
    moreover have "length u < length s" using read_string_length [OF k] s by (cases s) auto
    ultimately show ?case
      using 3 k x s
      by (auto simp: Let_def bindE_Inr_iff a_def [symmetric] b_def [symmetric]
          split: list.splits if_splits dest!: Suc.IH(3))
  }
qed simp_all

lemma read_number_no_fuel: "read_number s \<noteq> Inl OutOfFuel"
  by (auto simp: read_number_def Let_def split: prod.splits option.splits if_splits)

lemma read_constant_no_fuel: "read_constant s \<noteq> Inl OutOfFuel"
  by (auto simp: read_constant_def read_number_no_fuel split: option.splits)

lemma reader_fuel:
  "2 * length s + 1 \<le> n \<Longrightarrow> read_value n s \<noteq> Inl OutOfFuel"
  "2 * length s + 2 \<le> n \<Longrightarrow> read_items n s \<noteq> Inl OutOfFuel"
  "2 * length s + 2 \<le> n \<Longrightarrow> read_members n d s \<noteq> Inl OutOfFuel"
proof (induction n arbitrary: s d)
  case (Suc n)
  {
    case 1
    show ?case
    proof (cases s)
      case (Cons c u)
      have "2 * length (skip_ws u) + 2 \<le> n" using length_skip_ws [of u] 1 Cons by simp
      from Suc.IH(2) [OF this] Suc.IH(3) [OF this] show ?thesis
        using Cons read_constant_no_fuel
        by (auto simp: Let_def bindE_Inl_iff split: option.splits)
    qed simp
  next
    case 2
    have step: "read_items n (skip_ws (drop 1 (skip_ws u))) \<noteq> Inl OutOfFuel"
      if "read_value n s = Inr (x, u)" for x u
    proof (rule Suc.IH(2))
      show "2 * length (skip_ws (drop 1 (skip_ws u))) + 2 \<le> n"
        using reader_length(1) [OF that] length_skip_ws [of u]
          length_skip_ws [of "drop 1 (skip_ws u)"] 2 by (simp add: le_diff_conv)
    qed
    show ?case
      using 2 Suc.IH(1) [of s] step by (auto simp: Let_def bindE_Inl_iff split: if_splits)
  next
    case 3
    have val: "read_value n (skip_ws (drop 1 (skip_ws u))) \<noteq> Inl OutOfFuel"
      and step: "read_value n (skip_ws (drop 1 (skip_ws u))) = Inr (x, v) \<Longrightarrow>
        read_members n d' (skip_ws (drop 1 (skip_ws v))) \<noteq> Inl OutOfFuel"
      if "read_string (Suc (length t)) t = Some (k, u)" "s = c # t" for k u x v d' c t
    proof -
      have l: "length (skip_ws (drop 1 (skip_ws u))) \<le> length t"
        using read_string_length [OF that(1)] length_skip_ws [of u]
          length_skip_ws [of "drop 1 (skip_ws u)"] by (simp add: le_diff_conv)
      show "read_value n (skip_ws (drop 1 (skip_ws u))) \<noteq> Inl OutOfFuel"
        by (rule Suc.IH(1)) (use l 3 that in simp)
      show "read_members n d' (skip_ws (drop 1 (skip_ws v))) \<noteq> Inl OutOfFuel"
        if r: "read_value n (skip_ws (drop 1 (skip_ws u))) = Inr (x, v)"
      proof (rule Suc.IH(3))
        show "2 * length (skip_ws (drop 1 (skip_ws v))) + 2 \<le> n"
          using reader_length(1) [OF r] l length_skip_ws [of v]
            length_skip_ws [of "drop 1 (skip_ws v)"] 3 \<open>s = c # t\<close> by (simp add: le_diff_conv)
      qed
    qed
    show ?case
    proof (cases s)
      case (Cons c t)
      then show ?thesis
        using val [OF _ Cons] step [OF _ Cons]
        by (auto simp: Let_def bindE_Inl_iff split: option.splits if_splits)
    qed simp
  }
qed simp_all

text \<open>The fuel of \<open>json_loads\<close> is enough: an error is one that Python raises.\<close>

lemma json_loads_fuel: "json_loads s \<noteq> Inl OutOfFuel"
proof -
  have "read_value (2 * length s + 2) (skip_ws s) \<noteq> Inl OutOfFuel"
    by (rule reader_fuel(1)) (use length_skip_ws [of s] in simp)
  then show ?thesis
    by (auto simp: json_loads_def bindE_Inl_iff split: if_splits)
qed

section \<open>Reading back what was written\<close>

abbreviation ascii_text :: "string \<Rightarrow> bool" where
  "ascii_text s \<equiv> list_all is_ascii s"

text \<open>
  The documents for which the round trip is stated: ASCII strings, distinct keys, integers within
  the interpreter's digit limit, no floats.  Every document of the release layer is one.
\<close>

fun plain :: "json \<Rightarrow> bool" where
  "plain JNull = True"
| "plain (JBool b) = True"
| "plain (JInt n) = (length (nat_digits (nat \<bar>n\<bar>)) \<le> 4300)"
| "plain (JFloat f) = False"
| "plain (JStr s) = ascii_text s"
| "plain (JList xs) = list_all plain xs"
| "plain (JObj kvs) =
     (distinct (map fst kvs) \<and> list_all (\<lambda>kv. ascii_text (fst kv) \<and> plain (snd kv)) kvs)"

definition stops :: "string \<Rightarrow> bool" where
  "stops s = (case s of [] \<Rightarrow> True
     | c # _ \<Rightarrow> \<not> is_digit c \<and> c \<noteq> CHR ''.'' \<and> c \<noteq> CHR ''e'' \<and> c \<noteq> CHR ''E'')"

lemma stops_simps [simp]:
  "stops []" "stops (CHR '','' # s)" "stops (CHR '']'' # s)" "stops (CHR ''}'' # s)"
  "stops (CHR 0x0A # s)"
  by (simp_all add: stops_def is_digit_def char_le_iff)

lemma utf8_points_ascii: "ascii_text s \<Longrightarrow> utf8_points s = Some (map of_char s)"
  by (induction s) (auto simp: is_ascii_def Let_def)

lemma valid_utf8_ascii: "ascii_text s \<Longrightarrow> valid_utf8 s"
proof -
  assume s: "ascii_text s"
  then have "list_all (\<lambda>p. \<not> surrogate p) (map of_char s)"
    by (induction s) (auto simp: is_ascii_def surrogate_def)
  with s show ?thesis by (simp add: valid_utf8_def utf8_points_ascii)
qed

lemma hex_value_digit: "n < 16 \<Longrightarrow> hex_value (hex_digit n) = Some n"
  by (auto simp: hex_value_def hex_digit_def Let_def)

lemma hex4_u_escape:
  "p < 65536 \<Longrightarrow> hex4 (drop 2 (u_escape p) @ t) = Some (p, t)"
proof -
  assume p: "p < 65536"
  have sum: "p div 4096 mod 16 * 4096 + p div 256 mod 16 * 256 + p div 16 mod 16 * 16 + p mod 16 = p"
  proof -
    have "p div 4096 mod 16 = p div 4096" using p by simp
    moreover have "p div 256 = 16 * (p div 4096) + p div 256 mod 16"
      using div_mult_mod_eq [of "p div 256" 16] by (simp add: div_mult2_eq [symmetric])
    moreover have "p div 16 = 16 * (p div 256) + p div 16 mod 16"
      using div_mult_mod_eq [of "p div 16" 16] by (simp add: div_mult2_eq [symmetric])
    moreover have "p = 16 * (p div 16) + p mod 16" by simp
    ultimately show ?thesis by linarith
  qed
  have "p div 4096 < 16" using p by simp
  then have "hex4 (drop 2 (u_escape p) @ t) =
      Some (p div 4096 mod 16 * 4096 + p div 256 mod 16 * 256 + p div 16 mod 16 * 16 + p mod 16, t)"
    by (simp add: u_escape_def hex_value_digit)
  then show ?thesis by (simp only: sum)
qed

lemma read_escape_u: "p < 55296 \<Longrightarrow> read_escape (tl (u_escape p) @ t) = Some (utf8_encode p, t)"
  using hex4_u_escape [of p t] by (simp add: read_escape_def u_escape_def)

lemma u_escape_split: "u_escape p = CHR 0x5C # tl (u_escape p)"
  by (simp add: u_escape_def)

lemma utf8_encode_char: "is_ascii c \<Longrightarrow> utf8_encode (of_char c) = [c]"
  by (simp add: is_ascii_def utf8_encode_def)

lemma char_eq_iff: "c = d \<longleftrightarrow> of_char c = (of_char d :: nat)"
  by simp

lemma char_of_quote: "char_of (34 :: nat) = CHR 0x22"
  by (simp add: char_eq_iff)

lemma char_of_backslash: "char_of (92 :: nat) = CHR 0x5C"
  by (simp add: char_eq_iff)

lemma read_string_escape:
  assumes c: "is_ascii c"
  shows "read_string (Suc n) (escape_point (of_char c) @ t) =
    map_option (\<lambda>(y, v). (c # y, v)) (read_string n t)"
proof -
  let ?p = "of_char c :: nat"
  consider (short) "?p \<in> {34, 92, 10, 13, 9, 12, 8}"
    | (plain_char) "32 \<le> ?p" "?p \<le> 126" "?p \<noteq> 34" "?p \<noteq> 92"
    | (u) "?p \<notin> {34, 92, 10, 13, 9, 12, 8}" "\<not> (32 \<le> ?p \<and> ?p \<le> 126)" by blast
  then show ?thesis
  proof cases
    case short
    then have "c = char_of (34 :: nat) \<or> c = char_of (92 :: nat) \<or> c = char_of (10 :: nat)
        \<or> c = char_of (13 :: nat) \<or> c = char_of (9 :: nat) \<or> c = char_of (12 :: nat)
        \<or> c = char_of (8 :: nat)" by (auto simp: char_eq_iff)
    then show ?thesis
      by (elim disjE) (simp_all add: read_string.simps escape_point_def read_escape_def Let_def
          char_of_quote char_of_backslash split: option.splits)
  next
    case plain_char
    then show ?thesis
      by (auto simp: read_string.simps escape_point_def split: option.splits)
  next
    case u
    have e: "escape_point ?p = u_escape ?p"
      using c u(1) unfolding escape_point_def if_not_P [OF u(2)] by (simp add: is_ascii_def)
    have "?p < 55296" using c by (simp add: is_ascii_def)
    then have "read_string (Suc n) (CHR 0x5C # (tl (u_escape ?p) @ t)) =
        map_option (\<lambda>(y, v). (c # y, v)) (read_string n t)"
      by (simp add: read_string.simps read_escape_u utf8_encode_char [OF c])
    then show ?thesis using e u_escape_split [of ?p] by (metis append_Cons)
  qed
qed

lemma read_string_escapes:
  "ascii_text s \<Longrightarrow> length s < n \<Longrightarrow>
   read_string n (concat (map escape_point (map of_char s)) @ CHR 0x22 # t) = Some (s, t)"
proof (induction s arbitrary: n)
  case Nil
  then show ?case by (cases n) (simp_all add: read_string.simps)
next
  case (Cons c s)
  then obtain m where "n = Suc m" by (cases n) auto
  with Cons show ?case by (simp add: read_string_escape)
qed

lemma escape_point_nonempty: "0 < length (escape_point p)"
  by (simp add: escape_point_def u_escape_def)

lemma length_escapes: "length s \<le> length (concat (map escape_point (map of_char s)))"
proof (induction s)
  case (Cons c s)
  moreover have "0 < length (escape_point (of_char c))" by (rule escape_point_nonempty)
  ultimately show ?case by (simp del: length_greater_0_conv)
qed simp

lemma quote_ascii:
  "ascii_text s \<Longrightarrow> quote s = CHR 0x22 # (concat (map escape_point (map of_char s)) @ [CHR 0x22])"
  by (simp add: quote_def utf8_points_ascii)

lemma read_string_quote:
  assumes "ascii_text s"
  shows "read_string (Suc (length (tl (quote s @ t)))) (tl (quote s @ t)) = Some (s, t)"
proof -
  have "length s < Suc (length (tl (quote s @ t)))"
    using assms length_escapes [of s] by (simp add: quote_ascii)
  from read_string_escapes [OF assms this] show ?thesis
    using assms by (simp add: quote_ascii)
qed

section \<open>Integers\<close>

lemma digits_value_append: "digits_value a (xs @ ys) = digits_value (digits_value a xs) ys"
  by (induction xs arbitrary: a) simp_all

lemma digits_value_nat_digits: "digits_value 0 (nat_digits n) = n"
proof (induction n rule: nat_digits.induct)
  case (1 n)
  then show ?case
    by (cases "n < 10") (simp_all add: nat_digits.simps [of n] digits_value_append)
qed

lemma is_digit_char_of: "k < (10 :: nat) \<Longrightarrow> is_digit (char_of (48 + k))"
  by (simp add: is_digit_def char_le_iff)

lemma nat_digits_digit: "list_all is_digit (nat_digits n)"
proof (induction n rule: nat_digits.induct)
  case (1 n)
  then show ?case
    by (cases "n < 10") (simp_all add: nat_digits.simps [of n] is_digit_char_of)
qed

lemma hd_nat_digits: "\<exists>c s. nat_digits n = c # s \<and> (c = CHR ''0'' \<longrightarrow> s = [] \<and> n = 0)"
proof (induction n rule: nat_digits.induct)
  case (1 n)
  show ?case
  proof (cases "n < 10")
    case True
    have "char_of (48 + n) = CHR ''0'' \<Longrightarrow> n = 0"
      using True by (simp add: char_eq_iff)
    then show ?thesis using True by (auto simp: nat_digits.simps [of n])
  next
    case False
    with 1 obtain c s where "nat_digits (n div 10) = c # s" "c = CHR ''0'' \<longrightarrow> s = [] \<and> n div 10 = 0"
      by blast
    then show ?thesis using False by (auto simp: nat_digits.simps [of n])
  qed
qed

lemma takeWhile_digits:
  "list_all is_digit ds \<Longrightarrow> stops rest \<Longrightarrow> takeWhile is_digit (ds @ rest) = ds"
  by (induction ds) (auto simp: stops_def split: list.splits)

lemma int_digits_nat:
  assumes "stops rest"
  shows "int_digits (nat_digits n @ rest) = nat_digits n"
proof -
  obtain c s where c: "nat_digits n = c # s" "c = CHR ''0'' \<longrightarrow> s = []"
    using hd_nat_digits by blast
  have "takeWhile is_digit (nat_digits n @ rest) = nat_digits n"
    by (rule takeWhile_digits [OF nat_digits_digit assms])
  with c show ?thesis by (auto simp: int_digits_def)
qed

lemma read_number_int:
  assumes "length (nat_digits (nat \<bar>n\<bar>)) \<le> 4300" and "stops rest"
  shows "read_number (int_text n @ rest) = Inr (JInt n, rest)"
proof -
  have sign: "number_sign (int_text n @ rest) = (n < 0, nat_digits (nat \<bar>n\<bar>) @ rest)"
  proof -
    obtain c s where c: "nat_digits (nat n) = c # s" using hd_nat_digits by blast
    moreover have "is_digit c" using nat_digits_digit [of "nat n"] c by simp
    ultimately show ?thesis
      by (auto simp: number_sign_def int_text_def is_digit_def char_le_iff)
  qed
  have nonempty: "nat_digits (nat \<bar>n\<bar>) \<noteq> []" using hd_nat_digits [of "nat \<bar>n\<bar>"] by auto
  have frac: "read_fraction rest = ([], rest)" and ex: "read_exponent rest = None"
    using assms(2) by (auto simp: read_fraction_def read_exponent_def stops_def split: list.splits)
  show ?thesis
    using assms(1) nonempty frac ex
    by (simp add: read_number_def sign int_digits_nat [OF assms(2)] Let_def digits_value_nat_digits)
qed

lemma int_text_first: "\<exists>c s. int_text n = c # s \<and> (c = CHR ''-'' \<or> is_digit c)"
proof -
  obtain c s where "nat_digits (nat n) = c # s" using hd_nat_digits by blast
  with nat_digits_digit [of "nat n"] show ?thesis by (auto simp: int_text_def)
qed

lemma int_text_ascii: "ascii_text (int_text n)"
proof -
  have "ascii_text (nat_digits k)" for k
    using nat_digits_digit [of k]
    by (auto simp: list_all_iff is_ascii_def is_digit_def char_le_iff dest!: bspec)
  then show ?thesis by (simp add: int_text_def is_ascii_def)
qed

lemma read_constant_int:
  assumes "length (nat_digits (nat \<bar>n\<bar>)) \<le> 4300" and "stops rest"
  shows "read_constant (int_text n @ rest) = Inr (JInt n, rest)"
proof -
  have "is_digit c \<Longrightarrow> c \<notin> {CHR ''n'', CHR ''t'', CHR ''f'', CHR ''N'', CHR ''I''}" for c
    by (auto simp: is_digit_def char_le_iff)
  moreover have "strip_prefix ''-Infinity'' (int_text n @ rest) = None"
  proof (cases "n < 0")
    case True
    obtain c s where c: "nat_digits (nat (- n)) = c # s" using hd_nat_digits by blast
    then have "is_digit c" using nat_digits_digit [of "nat (- n)"] by simp
    then have "c \<noteq> CHR ''I''" by (auto simp: is_digit_def char_le_iff)
    with c True show ?thesis by (simp add: strip_prefix_def int_text_def)
  next
    case False
    obtain c s where c: "nat_digits (nat n) = c # s" using hd_nat_digits by blast
    then have "is_digit c" using nat_digits_digit [of "nat n"] by simp
    then have "c \<noteq> CHR ''-''" by (auto simp: is_digit_def char_le_iff)
    with c False show ?thesis by (simp add: strip_prefix_def int_text_def)
  qed
  ultimately show ?thesis
    using int_text_first [of n] read_number_int [OF assms]
    by (auto simp: read_constant_def strip_prefix_def)
qed

declare read_value.simps [simp del] read_items.simps [simp del] read_members.simps [simp del]

section \<open>Documents\<close>

definition starts_value :: "string \<Rightarrow> bool" where
  "starts_value s = (case s of [] \<Rightarrow> False
     | c # _ \<Rightarrow> is_ascii c \<and> \<not> json_space c \<and> c \<noteq> CHR '']'')"

lemma starts_value_cases: "starts_value s \<Longrightarrow> \<exists>c t. s = c # t \<and> is_ascii c \<and> \<not> json_space c \<and> c \<noteq> CHR '']''"
  by (cases s) (simp_all add: starts_value_def)

lemma starts_value_append: "starts_value s \<Longrightarrow> starts_value (s @ t)"
  by (cases s) (simp_all add: starts_value_def)

lemma starts_value_jtext: "plain j \<Longrightarrow> starts_value (jtext j)"
proof (cases j)
  case (JInt n)
  obtain c s where "int_text n = c # s" "c = CHR ''-'' \<or> is_digit c" using int_text_first by blast
  with JInt show ?thesis
    by (auto simp: starts_value_def json_space_def is_ascii_def is_digit_def char_le_iff Let_def)
qed (auto simp: starts_value_def json_space_def is_ascii_def quote_def Let_def)

lemma skip_ws_value: "starts_value s \<Longrightarrow> skip_ws s = s"
  by (cases s) (simp_all add: starts_value_def skip_ws_def)

lemma skip_ws_simps [simp]:
  "skip_ws [] = []" "skip_ws (CHR '','' # s) = CHR '','' # s" "skip_ws (CHR '']'' # s) = CHR '']'' # s"
  "skip_ws (CHR ''}'' # s) = CHR ''}'' # s" "skip_ws (CHR '':'' # s) = CHR '':'' # s"
  "skip_ws (CHR 0x22 # s) = CHR 0x22 # s" "skip_ws [CHR 0x0A] = []"
  by (simp_all add: skip_ws_def json_space_def Let_def)

lemma join_with_cons: "xs \<noteq> [] \<Longrightarrow> join_with sep (x # xs) = x @ sep @ join_with sep xs"
  by (cases xs) simp_all

lemma starts_value_join:
  "xs \<noteq> [] \<Longrightarrow> starts_value (hd xs) \<Longrightarrow> starts_value (join_with sep xs)"
  by (cases xs; cases "tl xs") (simp_all add: starts_value_append)

lemma read_value_constant: "c \<noteq> CHR 0x22 \<Longrightarrow> c \<noteq> CHR ''['' \<Longrightarrow> c \<noteq> CHR ''{'' \<Longrightarrow>
    read_value (Suc n) (c # t) = read_constant (c # t)"
  by (simp add: char_eq_iff read_value.simps)

lemma read_value_string:
  assumes "ascii_text s"
  shows "read_value (Suc n) (quote s @ t) = Inr (JStr s, t)"
  using read_string_quote [OF assms, of t] assms by (simp add: quote_ascii read_value.simps)

text \<open>Reading is inverse to writing for one value, with \<open>n\<close> the fuel and \<open>rest\<close> what follows.\<close>

abbreviation reads_back :: "json \<Rightarrow> bool" where
  "reads_back j \<equiv> \<forall>n rest. 2 * length (jtext j) + 1 \<le> n \<longrightarrow> stops rest \<longrightarrow>
     read_value n (jtext j @ rest) = Inr (j, rest)"

lemma read_items_join:
  "xs \<noteq> [] \<Longrightarrow> list_all plain xs \<Longrightarrow> \<forall>x\<in>set xs. reads_back x \<Longrightarrow>
   2 * length (join_with '','' (map jtext xs)) + 2 \<le> n \<Longrightarrow>
   read_items n (join_with '','' (map jtext xs) @ '']'' @ rest) = Inr (xs, rest)"
proof (induction xs arbitrary: n)
  case (Cons x xs)
  then obtain m where n: "n = Suc m" by (cases n) auto
  show ?case
  proof (cases "xs = []")
    case True
    with Cons n show ?thesis by (simp add: read_items.simps)
  next
    case False
    then have "starts_value (join_with '','' (map jtext xs))"
      using Cons.prems by (intro starts_value_join) (auto simp: starts_value_jtext list_all_iff hd_map)
    then have skip: "skip_ws (join_with '','' (map jtext xs) @ '']'' @ rest) =
        join_with '','' (map jtext xs) @ '']'' @ rest"
      by (intro skip_ws_value starts_value_append)
    have "read_items m (join_with '','' (map jtext xs) @ '']'' @ rest) = Inr (xs, rest)"
      using Cons n False by (simp add: join_with_cons)
    then show ?thesis using Cons.prems n False skip
      by (simp add: join_with_cons read_items.simps)
  qed
qed simp

abbreviation member_text :: "string \<times> json \<Rightarrow> string" where
  "member_text kv \<equiv> quote (fst kv) @ '':'' @ jtext (snd kv)"

lemma read_members_join:
  "kvs \<noteq> [] \<Longrightarrow> list_all (\<lambda>kv. ascii_text (fst kv) \<and> plain (snd kv)) kvs \<Longrightarrow>
   \<forall>kv\<in>set kvs. reads_back (snd kv) \<Longrightarrow> distinct (map fst (d @ kvs)) \<Longrightarrow>
   2 * length (join_with '','' (map member_text kvs)) + 2 \<le> n \<Longrightarrow>
   read_members n d (join_with '','' (map member_text kvs) @ ''}'' @ rest) = Inr (d @ kvs, rest)"
proof (induction kvs arbitrary: n d)
  case (Cons kv kvs)
  obtain k x where kv: "kv = (k, x)" by (cases kv)
  obtain m where n: "n = Suc m" using Cons.prems by (cases n) auto
  have k: "ascii_text k" and x: "plain x" "reads_back x" and fresh: "k \<notin> fst ` set d"
    using Cons.prems kv by auto
  have set: "dict_set k x d = d @ [kv]" using dict_set_fresh [OF fresh] kv by simp
  have skip: "skip_ws (jtext x @ t) = jtext x @ t" for t
    by (intro skip_ws_value starts_value_append starts_value_jtext x)
  define more where "more = join_with '','' (map member_text kvs) @ ''}'' @ rest"
  define tail where "tail = (if kvs = [] then ''}'' @ rest else '','' @ more)"
  have whole: "join_with '','' (map member_text (kv # kvs)) @ ''}'' @ rest = quote k @ '':'' @ jtext x @ tail"
    by (simp add: kv tail_def more_def join_with_cons)
  have val: "read_value m (jtext x @ tail) = Inr (x, tail)"
    using x(2) Cons.prems(5) n kv by (cases "kvs = []") (simp_all add: tail_def join_with_cons)
  have step: "kvs \<noteq> [] \<Longrightarrow> skip_ws more = more \<and> read_members m (d @ [kv]) more = Inr (d @ kv # kvs, rest)"
  proof
    assume ne: "kvs \<noteq> []"
    then have "starts_value (join_with '','' (map member_text kvs))"
      using Cons.prems by (intro starts_value_join)
        (auto simp: hd_map quote_def starts_value_def json_space_def is_ascii_def Let_def)
    then show "skip_ws more = more" unfolding more_def by (intro skip_ws_value starts_value_append)
    show "read_members m (d @ [kv]) more = Inr (d @ kv # kvs, rest)"
      unfolding more_def using Cons.IH [of "d @ [kv]" m] Cons.prems n ne by (simp add: join_with_cons)
  qed
  have str: "read_string (Suc (length (tl (quote k @ '':'' @ jtext x @ tail))))
      (tl (quote k @ '':'' @ jtext x @ tail)) = Some (k, '':'' @ jtext x @ tail)"
    by (rule read_string_quote [OF k])
  have q: "quote k @ t = CHR 0x22 # tl (quote k @ t)" for t using k by (simp add: quote_ascii)
  show ?case
    unfolding whole n
    by (subst q, cases "kvs = []") (use str skip val set step in \<open>simp_all add: Let_def tail_def read_members.simps\<close>)
qed simp

lemma reads_back: "plain j \<Longrightarrow> reads_back j"
proof (induction j)
  case (JInt i)
  show ?case
  proof (intro allI impI)
    fix n rest assume n: "2 * length (jtext (JInt i)) + 1 \<le> n" and r: "stops rest"
    obtain c s where c: "int_text i = c # s" "c = CHR ''-'' \<or> is_digit c" using int_text_first by blast
    then have "c \<noteq> CHR 0x22 \<and> c \<noteq> CHR ''['' \<and> c \<noteq> CHR ''{''"
      by (auto simp: is_digit_def char_le_iff)
    moreover have "read_constant (int_text i @ rest) = Inr (JInt i, rest)"
      using JInt r by (intro read_constant_int) simp_all
    moreover obtain m where "n = Suc m" using n by (cases n) auto
    ultimately show "read_value n (jtext (JInt i) @ rest) = Inr (JInt i, rest)"
      using c(1) by (simp add: read_value_constant)
  qed
next
  case (JStr s)
  show ?case
  proof (intro allI impI)
    fix n rest assume "2 * length (jtext (JStr s)) + 1 \<le> n"
    then obtain m where "n = Suc m" by (cases n) auto
    then show "read_value n (jtext (JStr s) @ rest) = Inr (JStr s, rest)"
      using read_value_string [of s m rest] JStr by simp
  qed
next
  case (JList xs)
  show ?case
  proof (intro allI impI)
    fix n rest assume n: "2 * length (jtext (JList xs)) + 1 \<le> n" "stops rest"
    then obtain m where m: "n = Suc m" by (cases n) auto
    show "read_value n (jtext (JList xs) @ rest) = Inr (JList xs, rest)"
    proof (cases "xs = []")
      case False
      have sv: "starts_value (join_with '','' (map jtext xs))"
        using False JList.prems by (intro starts_value_join) (auto simp: starts_value_jtext list_all_iff hd_map)
      then have skip: "skip_ws (join_with '','' (map jtext xs) @ '']'' @ rest) =
          join_with '','' (map jtext xs) @ '']'' @ rest"
        by (intro skip_ws_value starts_value_append)
      have "read_items m (join_with '','' (map jtext xs) @ '']'' @ rest) = Inr (xs, rest)"
        using False JList n m by (intro read_items_join) (auto simp: list_all_iff)
      then show ?thesis
        using m skip starts_value_cases [OF sv] by (auto simp: Let_def read_value.simps)
    qed (use m in \<open>simp add: Let_def read_value.simps\<close>)
  qed
next
  case (JObj kvs)
  show ?case
  proof (intro allI impI)
    fix n rest assume n: "2 * length (jtext (JObj kvs)) + 1 \<le> n" "stops rest"
    then obtain m where m: "n = Suc m" by (cases n) auto
    show "read_value n (jtext (JObj kvs) @ rest) = Inr (JObj kvs, rest)"
    proof (cases "kvs = []")
      case False
      let ?t = "join_with '','' (map member_text kvs) @ ''}'' @ rest"
      obtain u where u: "?t = CHR 0x22 # u"
        using False by (cases kvs; cases "tl kvs") (auto simp: quote_def)
      have "read_members m [] ?t = Inr ([] @ kvs, rest)"
        using False JObj n m by (intro read_members_join) (auto simp: list_all_iff)
      then show ?thesis using m u by (simp add: Let_def read_value.simps)
    qed (use m in \<open>simp add: Let_def read_value.simps\<close>)
  qed
next
  case JNull
  show ?case
  proof (intro allI impI)
    fix n rest assume "2 * length (jtext JNull) + 1 \<le> n"
    then obtain m where "n = Suc m" by (cases n) auto
    then show "read_value n (jtext JNull @ rest) = Inr (JNull, rest)"
      by (simp add: read_value.simps read_constant_def strip_prefix_def)
  qed
next
  case (JBool b)
  show ?case
  proof (intro allI impI)
    fix n rest assume "2 * length (jtext (JBool b)) + 1 \<le> n"
    then obtain m where "n = Suc m" by (cases n) auto
    then show "read_value n (jtext (JBool b) @ rest) = Inr (JBool b, rest)"
      by (cases b) (simp_all add: read_value.simps read_constant_def strip_prefix_def)
  qed
qed simp

lemma json_loads_jtext:
  assumes "plain j" and "stops ws" and "skip_ws ws = []"
  shows "json_loads (jtext j @ ws) = Inr j"
proof -
  have sv: "starts_value (jtext j @ ws)"
    by (intro starts_value_append starts_value_jtext assms)
  then obtain c t where c: "jtext j @ ws = c # t" "is_ascii c" using starts_value_cases by blast
  then have "take 3 (jtext j @ ws) \<noteq> utf8_encode 65279"
    by (auto simp: utf8_encode_def is_ascii_def)
  moreover have "read_value (2 * length (jtext j @ ws) + 2) (jtext j @ ws) = Inr (j, ws)"
    using reads_back [OF assms(1)] assms(2) by simp
  ultimately show ?thesis
    using assms(3) by (simp add: json_loads_def skip_ws_value [OF sv])
qed

lemma plain_jsort: "plain j \<Longrightarrow> plain (jsort j)"
proof (induction j)
  case (JObj kvs)
  have "distinct (map fst (sort_key fst (map (\<lambda>kv. (fst kv, jsort (snd kv))) kvs)))"
    using JObj.prems by (simp add: distinct_map comp_def inj_on_def image_iff)
      (metis fst_conv)
  with JObj show ?case by (auto simp: list_all_iff)
qed (auto simp: list_all_iff)

text \<open>\<^verbatim>\<open>json.loads(json.dumps(value, sort_keys=True))\<close>, with or without a final newline.\<close>

lemma json_loads_dumps:
  assumes "plain j"
  shows "json_loads (json_dumps j) = Inr (jsort j)"
    and "json_loads (json_dumps j @ [CHR 0x0A]) = Inr (jsort j)"
  using json_loads_jtext [OF plain_jsort [OF assms], of "[]"]
    json_loads_jtext [OF plain_jsort [OF assms], of "[CHR 0x0A]"]
  by (simp_all add: json_dumps_def)

section \<open>The text of a document is ASCII\<close>

lemma hex_digit_ascii: "n < 16 \<Longrightarrow> is_ascii (hex_digit n)"
  by (simp add: hex_digit_def is_ascii_def)

lemma ascii_escape_point: "ascii_text (escape_point p)"
proof -
  have u: "ascii_text (u_escape q)" for q by (simp add: u_escape_def hex_digit_ascii)
  show ?thesis by (simp add: escape_point_def u) (simp add: is_ascii_def)
qed

lemma ascii_quote: "ascii_text (quote s)"
proof -
  have "ascii_text (concat (map escape_point ps))" for ps
    by (induction ps) (simp_all add: ascii_escape_point)
  then show ?thesis by (simp add: quote_def split: option.splits)
qed

lemma ascii_join: "list_all ascii_text xs \<Longrightarrow> ascii_text (join_with '','' xs)"
  by (induction "'','' :: string" xs rule: join_with.induct) simp_all

lemma ascii_jtext: "plain j \<Longrightarrow> ascii_text (jtext j)"
proof (induction j)
  case (JList xs)
  then have "list_all ascii_text (map jtext xs)" by (auto simp: list_all_iff)
  then show ?case by (simp add: ascii_join)
next
  case (JObj kvs)
  then have "list_all ascii_text (map member_text kvs)"
    using ascii_quote by (fastforce simp: list_all_iff)
  then show ?case by (simp add: ascii_join)
qed (simp_all add: ascii_quote int_text_ascii)

lemma ascii_json_dumps: "plain j \<Longrightarrow> ascii_text (json_dumps j)"
  by (simp add: json_dumps_def ascii_jtext plain_jsort)

lemma length_nat_digits: "n < 10 ^ Suc k \<Longrightarrow> length (nat_digits n) \<le> Suc k"
proof (induction k arbitrary: n)
  case 0
  then show ?case by (simp add: nat_digits.simps)
next
  case (Suc k)
  then have "n div 10 < 10 ^ Suc k" by (simp add: less_mult_imp_div_less)
  from Suc.IH [OF this] show ?case by (simp add: nat_digits.simps [of n])
qed

end
