(* ===== verification/KvKeys.thy ===== *)
theory KvKeys
  imports JsonFacts
begin

text \<open>
  \<^verbatim>\<open>src/clash_relay/errors.py\<close> and \<^verbatim>\<open>src/clash_relay/kv_keys.py\<close>: the exceptions of the publication
  layer, and the Workers KV names derived from the production key with the check that all of
  them fit Cloudflare's 512-byte limit.
\<close>

section \<open>Exceptions\<close>

text \<open>
  The value of \<^verbatim>\<open>production_changed\<close> (\<^verbatim>\<open>True\<close>, \<^verbatim>\<open>False\<close> or \<^verbatim>\<open>"unknown"\<close>), and the exceptions
  that cross the publication layer.  \<^verbatim>\<open>CommitUnknownError\<close> is a subclass of \<^verbatim>\<open>PublicationError\<close>, so a
  clause \<^verbatim>\<open>except PublicationError\<close> catches both: handlers are functions on this type, and
  \<open>EscapedError\<close> is any exception outside the class, which no handler of this layer catches.
\<close>

datatype changed = Changed | NotChanged | ChangeUnknown

datatype kv_error =
    PublicationError string
  | CommitUnknownError string changed
  | EscapedError string

definition commit_unknown :: "string \<Rightarrow> kv_error" where
  "commit_unknown message = CommitUnknownError message ChangeUnknown"

section \<open>Names\<close>

definition KV_KEY_MAX_BYTES :: nat where "KV_KEY_MAX_BYTES = 512"
definition RELEASE_ID_LENGTH :: nat where "RELEASE_ID_LENGTH = 64"

definition CURRENT_POINTER_SUFFIX :: string where
  "CURRENT_POINTER_SUFFIX = ''.current-release-v1''"
definition PREVIOUS_POINTER_SUFFIX :: string where
  "PREVIOUS_POINTER_SUFFIX = ''.previous-release-v1''"
definition JOURNAL_SUFFIX :: string where
  "JOURNAL_SUFFIX = ''.release-journal-v1''"
definition TRANSACTION_SUFFIX :: string where
  "TRANSACTION_SUFFIX = ''.release-transaction-v1''"

definition SCHEDULER_STATE_SUFFIXES :: "string list" where
  "SCHEDULER_STATE_SUFFIXES =
     [''.scheduler-state-v3'', ''.scheduler-state-v2'', ''.scheduler-state-v1'']"

definition AUXILIARY_KEY_SUFFIXES :: "string list" where
  "AUXILIARY_KEY_SUFFIXES =
     [''.production-metrics-v1'', ''.scheduler-evidence-v1'', ''.operational-slo-v1'',
      ''.ai-qualification-cache-v1''] @ SCHEDULER_STATE_SUFFIXES"

definition release_object_prefix :: "string \<Rightarrow> string" where
  "release_object_prefix production_key = production_key @ ''.release-v1.''"

definition release_config_key :: "string \<Rightarrow> string \<Rightarrow> string" where
  "release_config_key production_key release_id =
     release_object_prefix production_key @ release_id @ ''.config''"

definition release_manifest_key :: "string \<Rightarrow> string \<Rightarrow> string" where
  "release_manifest_key production_key release_id =
     release_object_prefix production_key @ release_id @ ''.manifest''"

definition auxiliary_state_key :: "string \<Rightarrow> string \<Rightarrow> string" where
  "auxiliary_state_key production_key suffix = production_key @ suffix"

definition derived_kv_key_names :: "string \<Rightarrow> (string \<times> string) list" where
  "derived_kv_key_names production_key =
     (let release_id = replicate RELEASE_ID_LENGTH CHR ''0'' in
      [(''release-config'', release_config_key production_key release_id),
       (''release-manifest'', release_manifest_key production_key release_id),
       (''current-pointer'', auxiliary_state_key production_key CURRENT_POINTER_SUFFIX),
       (''previous-pointer'', auxiliary_state_key production_key PREVIOUS_POINTER_SUFFIX),
       (''journal'', auxiliary_state_key production_key JOURNAL_SUFFIX),
       (''transaction'', auxiliary_state_key production_key TRANSACTION_SUFFIX)]
      @ map (\<lambda>suffix. (''auxiliary'' @ suffix, auxiliary_state_key production_key suffix))
          AUXILIARY_KEY_SUFFIXES)"

definition oversized_derived_kv_keys :: "string \<Rightarrow> (string \<times> nat) list" where
  "oversized_derived_kv_keys production_key =
     filter (\<lambda>(label, size). KV_KEY_MAX_BYTES < size)
       (map (\<lambda>(label, name). (label, length name)) (derived_kv_key_names production_key))"

definition require_derived_kv_keys :: "string \<Rightarrow> kv_error + unit" where
  "require_derived_kv_keys production_key =
     (let oversized = oversized_derived_kv_keys production_key in
      if oversized = [] then Inr ()
      else Inl (PublicationError
        (''production key derives Cloudflare KV names beyond the '' @ nat_digits KV_KEY_MAX_BYTES
         @ ''-byte limit: ''
         @ join_with '', '' (map (\<lambda>(label, size). label @ '' ('' @ nat_digits size @ '' bytes)'')
             (sort_key fst oversized)))))"

section \<open>The limit\<close>

lemmas key_defs =
  release_config_key_def release_manifest_key_def release_object_prefix_def auxiliary_state_key_def
  CURRENT_POINTER_SUFFIX_def PREVIOUS_POINTER_SUFFIX_def JOURNAL_SUFFIX_def TRANSACTION_SUFFIX_def
  AUXILIARY_KEY_SUFFIXES_def SCHEDULER_STATE_SUFFIXES_def RELEASE_ID_LENGTH_def KV_KEY_MAX_BYTES_def

text \<open>
  The manifest name is the longest derived one, so the complete check is a bound of 427 bytes on
  the production key.
\<close>

lemma oversized_empty_iff: "oversized_derived_kv_keys k = [] \<longleftrightarrow> length k \<le> 427"
  by (auto simp: oversized_derived_kv_keys_def derived_kv_key_names_def key_defs Let_def)

lemma require_derived_kv_keys_iff: "require_derived_kv_keys k = Inr () \<longleftrightarrow> length k \<le> 427"
  by (simp add: require_derived_kv_keys_def Let_def oversized_empty_iff)

lemma require_derived_kv_keys_Inl:
  "427 < length k \<Longrightarrow> \<exists>m. require_derived_kv_keys k = Inl (PublicationError m)"
  using oversized_empty_iff [of k] by (simp add: require_derived_kv_keys_def Let_def)

lemma config_key_inject [simp]:
  "release_config_key k i = release_config_key k j \<longleftrightarrow> i = j"
  by (simp add: key_defs)

lemma manifest_key_inject [simp]:
  "release_manifest_key k i = release_manifest_key k j \<longleftrightarrow> i = j"
  by (simp add: key_defs)

lemma auxiliary_key_inject [simp]: "auxiliary_state_key k s = auxiliary_state_key k t \<longleftrightarrow> s = t"
  by (simp add: key_defs)

lemma config_key_neq_manifest_key [simp]:
  "release_config_key k i \<noteq> release_manifest_key k j" "release_manifest_key k j \<noteq> release_config_key k i"
proof -
  have "last (release_config_key k i) \<noteq> last (release_manifest_key k j)"
    by (simp add: key_defs)
  then show "release_config_key k i \<noteq> release_manifest_key k j"
    "release_manifest_key k j \<noteq> release_config_key k i" by auto
qed

lemma object_key_neq_auxiliary_key:
  assumes "take 12 s \<noteq> ''.release-v1.''"
  shows "release_config_key k i \<noteq> auxiliary_state_key k s"
    and "release_manifest_key k i \<noteq> auxiliary_state_key k s"
  using assms by (auto simp: key_defs)

section \<open>Properties\<close>

text \<open>Every name stored for a production key: its release objects, its pointers and its state.\<close>

definition stored_names :: "string \<Rightarrow> string \<Rightarrow> string list" where
  "stored_names k i = [k, release_config_key k i, release_manifest_key k i,
     auxiliary_state_key k CURRENT_POINTER_SUFFIX, auxiliary_state_key k PREVIOUS_POINTER_SUFFIX,
     auxiliary_state_key k JOURNAL_SUFFIX, auxiliary_state_key k TRANSACTION_SUFFIX]
     @ map (auxiliary_state_key k) AUXILIARY_KEY_SUFFIXES"


text \<open>
  The names stored for one production key are pairwise different, also across two release
  identifiers, so no write of one kind can overwrite a value of another.
\<close>

theorem stored_names_distinct:
  assumes "i \<noteq> j"
  shows "distinct (release_config_key k j # release_manifest_key k j # stored_names k i)"
proof -
  have "distinct (stored_names k i)" by (auto simp: stored_names_def key_defs)
  moreover have "release_config_key k j \<notin> set (stored_names k i)"
    "release_manifest_key k j \<notin> set (stored_names k i)"
    using assms config_key_neq_manifest_key [of k j i] config_key_neq_manifest_key [of k i j]
    by (auto simp: stored_names_def) (auto simp: key_defs)
  ultimately show ?thesis by simp
qed

theorem stored_names_distinct_witness:
  "distinct (release_config_key ''prod'' ''b'' # release_manifest_key ''prod'' ''b'' # stored_names ''prod'' ''a'')"
  by (rule stored_names_distinct) simp

end
