(* ===== verification/ReleaseIdentity.thy ===== *)
theory ReleaseIdentity
  imports KvKeys
begin

text \<open>
  The first part of \<^verbatim>\<open>src/clash_relay/release_bundle.py\<close>: the names of a release, its identifier,
  the pointer values and the manifest object.  The digest \<open>sha\<close> stands for
  \<^verbatim>\<open>hashlib.sha256(content).hexdigest()\<close>; every fact holds for any function, and the locale
  \<open>digest\<close> states the one property of SHA-256 the code relies on, the shape of its hex text.
\<close>

section \<open>Release identifiers and names\<close>

definition is_release_id :: "string \<Rightarrow> bool" where
  "is_release_id value \<longleftrightarrow> length value = 64 \<and> list_all is_lower_hex value"

definition validate_release_id :: "string \<Rightarrow> kv_error + unit" where
  "validate_release_id value =
     (if is_release_id value then Inr ()
      else Inl (PublicationError ''production release pointer contains an invalid release id''))"

record release_keys =
  production :: string
  current_pointer :: string
  previous_pointer :: string
  journal :: string
  transaction :: string

definition keys_config :: "release_keys \<Rightarrow> string \<Rightarrow> kv_error + string" where
  "keys_config keys release_id =
     bindE (validate_release_id release_id) (\<lambda>_. Inr (release_config_key (production keys) release_id))"

definition keys_manifest :: "release_keys \<Rightarrow> string \<Rightarrow> kv_error + string" where
  "keys_manifest keys release_id =
     bindE (validate_release_id release_id) (\<lambda>_. Inr (release_manifest_key (production keys) release_id))"

definition release_keys_for :: "string \<Rightarrow> release_keys" where
  "release_keys_for production_key = \<lparr>
     production = production_key,
     current_pointer = auxiliary_state_key production_key CURRENT_POINTER_SUFFIX,
     previous_pointer = auxiliary_state_key production_key PREVIOUS_POINTER_SUFFIX,
     journal = auxiliary_state_key production_key JOURNAL_SUFFIX,
     transaction = auxiliary_state_key production_key TRANSACTION_SUFFIX\<rparr>"

definition release_keys :: "string \<Rightarrow> kv_error + release_keys" where
  "release_keys production_key =
     (if production_key = '''' then Inl (PublicationError ''production release key must not be empty'')
      else bindE (require_derived_kv_keys production_key) (\<lambda>_. Inr (release_keys_for production_key)))"

definition release_id_for :: "(bytes \<Rightarrow> string) \<Rightarrow> bytes \<Rightarrow> kv_error + string" where
  "release_id_for sha content =
     (if content = [] then Inl (PublicationError ''refusing to create an empty production release'')
      else Inr (sha content))"

section \<open>Pointers\<close>

definition EMPTY_POINTER :: bytes where "EMPTY_POINTER = [CHR 0x0A]"

definition pointer_bytes :: "string \<Rightarrow> kv_error + bytes" where
  "pointer_bytes release_id = bindE (validate_release_id release_id) (\<lambda>_. Inr (release_id @ [CHR 0x0A]))"

definition parse_release_pointer :: "bytes option \<Rightarrow> kv_error + string option" where
  "parse_release_pointer content = (case content of
     None \<Rightarrow> Inr None
   | Some raw \<Rightarrow>
       if \<not> list_all is_ascii raw then Inl (PublicationError ''production release pointer is not ASCII'')
       else if strip raw = [] then Inr None
       else bindE (validate_release_id (strip raw)) (\<lambda>_. Inr (Some (strip raw))))"

section \<open>The manifest object\<close>

definition manifest_document :: "(bytes \<Rightarrow> string) \<Rightarrow> bytes \<Rightarrow> json" where
  "manifest_document sha content = JObj
     [(''schema_version'', JInt 1), (''release_id'', JStr (sha content)), (''sha256'', JStr (sha content)),
      (''bytes'', JInt (int (length content)))]"

definition manifest_bytes :: "(bytes \<Rightarrow> string) \<Rightarrow> bytes \<Rightarrow> kv_error + bytes" where
  "manifest_bytes sha content = bindE (release_id_for sha content) (\<lambda>_.
     Inr (json_dumps (manifest_document sha content) @ [CHR 0x0A]))"

section \<open>Facts\<close>

lemma validate_release_id_Inr [simp]: "validate_release_id i = Inr u \<longleftrightarrow> is_release_id i"
  by (simp add: validate_release_id_def)

lemma release_id_nonempty: "is_release_id i \<Longrightarrow> i \<noteq> []"
  by (auto simp: is_release_id_def)

lemma keys_config_simps [simp]:
  "is_release_id i \<Longrightarrow> keys_config keys i = Inr (release_config_key (production keys) i)"
  "is_release_id i \<Longrightarrow> keys_manifest keys i = Inr (release_manifest_key (production keys) i)"
  by (simp_all add: keys_config_def keys_manifest_def validate_release_id_def)

lemma pointer_bytes_simp [simp]: "is_release_id i \<Longrightarrow> pointer_bytes i = Inr (i @ [CHR 0x0A])"
  by (simp add: pointer_bytes_def validate_release_id_def)

lemma release_id_for_simps [simp]:
  "content \<noteq> [] \<Longrightarrow> release_id_for sha content = Inr (sha content)"
  "release_id_for sha content = Inr i \<longleftrightarrow> content \<noteq> [] \<and> i = sha content"
  by (auto simp: release_id_for_def)

lemma release_keys_Inr:
  "release_keys k = Inr keys \<longleftrightarrow> k \<noteq> [] \<and> length k \<le> 427 \<and> keys = release_keys_for k"
  using require_derived_kv_keys_iff [of k] require_derived_kv_keys_Inl [of k]
  by (cases "length k \<le> 427") (auto simp: release_keys_def)

lemma release_keys_Inl: "release_keys k = Inl e \<Longrightarrow> \<exists>m. e = PublicationError m"
  using require_derived_kv_keys_iff [of k] require_derived_kv_keys_Inl [of k]
  by (cases "length k \<le> 427") (auto simp: release_keys_def split: if_splits)

lemma release_keys_for_simps [simp]:
  "production (release_keys_for k) = k"
  "current_pointer (release_keys_for k) = auxiliary_state_key k CURRENT_POINTER_SUFFIX"
  "previous_pointer (release_keys_for k) = auxiliary_state_key k PREVIOUS_POINTER_SUFFIX"
  "journal (release_keys_for k) = auxiliary_state_key k JOURNAL_SUFFIX"
  "transaction (release_keys_for k) = auxiliary_state_key k TRANSACTION_SUFFIX"
  by (simp_all add: release_keys_for_def)

text \<open>The names of one release set are pairwise different.\<close>

lemma release_keys_distinct:
  "distinct [production (release_keys_for k), current_pointer (release_keys_for k),
     previous_pointer (release_keys_for k), journal (release_keys_for k), transaction (release_keys_for k)]"
  by (simp add: key_defs)

lemma object_keys_apart:
  "release_config_key k i \<notin> {k, current_pointer (release_keys_for k), previous_pointer (release_keys_for k),
     journal (release_keys_for k), transaction (release_keys_for k)}"
  "release_manifest_key k i \<notin> {k, current_pointer (release_keys_for k), previous_pointer (release_keys_for k),
     journal (release_keys_for k), transaction (release_keys_for k)}"
  by (auto simp: key_defs)

lemma release_id_strip: "is_release_id i \<Longrightarrow> strip (i @ [CHR 0x0A]) = i"
  by (rule strip_append_space)
    (auto simp: is_release_id_def list_all_iff is_space_def dest!: bspec intro: lower_hex_not_space [THEN notE])

lemma parse_pointer_bytes:
  assumes "is_release_id i"
  shows "parse_release_pointer (Some (i @ [CHR 0x0A])) = Inr (Some i)"
proof -
  have "list_all is_ascii (i @ [CHR 0x0A])"
    using assms by (auto simp: is_release_id_def list_all_iff is_ascii_def [of "CHR 0x0A"] lower_hex_ascii)
  then show ?thesis
    using assms release_id_nonempty [OF assms]
    by (simp add: parse_release_pointer_def release_id_strip validate_release_id_def)
qed

lemma parse_empty_pointer [simp]:
  "parse_release_pointer None = Inr None" "parse_release_pointer (Some EMPTY_POINTER) = Inr None"
  by (simp_all add: parse_release_pointer_def EMPTY_POINTER_def is_ascii_def strip_def is_space_def)

lemma parse_release_pointer_id: "parse_release_pointer c = Inr (Some i) \<Longrightarrow> is_release_id i"
  by (auto simp: parse_release_pointer_def bindE_Inr_iff split: option.splits if_splits)

lemma parse_release_pointer_Inl:
  "parse_release_pointer c = Inl e \<Longrightarrow> \<exists>m. e = PublicationError m"
  by (auto simp: parse_release_pointer_def validate_release_id_def split: option.splits if_splits)

section \<open>The digest\<close>

locale digest =
  fixes sha :: "bytes \<Rightarrow> string"
  assumes sha_id [simp]: "is_release_id (sha content)"
begin

lemma parse_digest_pointer: "parse_release_pointer (Some (sha c @ [CHR 0x0A])) = Inr (Some (sha c))"
  by (rule parse_pointer_bytes) simp

end

section \<open>Properties\<close>

text \<open>
  A pointer value read back gives the identifier it was written for, and whatever the bytes,
  a pointer that parses to an identifier parses to a well-formed one.
\<close>

theorem pointer_roundtrip:
  assumes "pointer_bytes i = Inr b"
  shows "parse_release_pointer (Some b) = Inr (Some i)
    \<and> (parse_release_pointer raw = Inr (Some j) \<longrightarrow> is_release_id j \<and> (\<exists>b'. pointer_bytes j = Inr b'))"
proof -
  have i: "is_release_id i" "b = i @ [CHR 0x0A]"
    using assms by (auto simp: pointer_bytes_def bindE_Inr_iff)
  show ?thesis using parse_pointer_bytes [OF i(1)] i(2) by (auto dest: parse_release_pointer_id)
qed

theorem pointer_roundtrip_witness:
  "parse_release_pointer (Some (replicate 64 CHR ''a'' @ [CHR 0x0A])) = Inr (Some (replicate 64 CHR ''a''))"
proof -
  have "pointer_bytes (replicate 64 CHR ''a'') = Inr (replicate 64 CHR ''a'' @ [CHR 0x0A])"
    by (simp add: is_release_id_def list_all_iff is_lower_hex_def char_le_iff)
  from pointer_roundtrip [OF this] show ?thesis by blast
qed

end
