(* ===== verification/ReleaseTransaction.thy ===== *)
theory ReleaseTransaction
  imports ReleaseIdentity
begin

text \<open>
  \<^verbatim>\<open>src/clash_relay/release_transaction.py\<close>: the release intent kept across interrupted pointer
  updates, its monotone phases, its JSON form and the classification of an observed release state.
\<close>

record release_transaction =
  from_release_id :: "string option"
  to_release_id :: string
  previous_release_id :: "string option"
  phase :: string

definition new_transaction :: "string option \<Rightarrow> string \<Rightarrow> string option \<Rightarrow> release_transaction" where
  "new_transaction from to prev =
     \<lparr>from_release_id = from, to_release_id = to, previous_release_id = prev, phase = ''prepare''\<rparr>"

definition PHASES :: "string list" where
  "PHASES = [''prepare'', ''commit'', ''verify'', ''finalize'']"

definition phase_index :: "string \<Rightarrow> nat option" where
  "phase_index p = map_of (zip PHASES [0..<length PHASES]) p"

definition referenced_release_ids :: "release_transaction \<Rightarrow> string set" where
  "referenced_release_ids t =
     set_option (from_release_id t) \<union> {to_release_id t} \<union> set_option (previous_release_id t)"

definition validate_phase :: "string \<Rightarrow> kv_error + nat" where
  "validate_phase p = (case phase_index p of
     None \<Rightarrow> Inl (PublicationError ''release transaction phase is invalid'') | Some i \<Rightarrow> Inr i)"

definition advance_release_transaction ::
  "release_transaction \<Rightarrow> string \<Rightarrow> kv_error + release_transaction" where
  "advance_release_transaction t p =
     bindE (validate_phase (phase t)) (\<lambda>i. bindE (validate_phase p) (\<lambda>j.
       if j < i then Inl (PublicationError ''release transaction phase regression is invalid'')
       else if p = phase t then Inr t
       else Inr (t\<lparr>phase := p\<rparr>)))"

definition phase_reached :: "release_transaction \<Rightarrow> string \<Rightarrow> kv_error + bool" where
  "phase_reached t p =
     bindE (validate_phase (phase t)) (\<lambda>i. bindE (validate_phase p) (\<lambda>j. Inr (j \<le> i)))"

section \<open>The JSON form\<close>

definition transaction_error :: kv_error where
  "transaction_error = PublicationError ''release transaction is invalid''"

text \<open>One identity field: \<^verbatim>\<open>None\<close> is allowed except for the target.\<close>

definition parse_id_field :: "bool \<Rightarrow> json \<Rightarrow> kv_error + string option" where
  "parse_id_field optional item = (case item of
     JNull \<Rightarrow> if optional then Inr None else Inl transaction_error
   | JStr value \<Rightarrow> bindE (validate_release_id value) (\<lambda>_. Inr (Some value))
   | _ \<Rightarrow> Inl transaction_error)"

definition TRANSACTION_FIELDS :: "string list" where
  "TRANSACTION_FIELDS =
     [''version'', ''phase'', ''from_release_id'', ''to_release_id'', ''previous_release_id'']"

definition parse_phase :: "json \<Rightarrow> json \<Rightarrow> kv_error + string" where
  "parse_phase version raw = (case (version, raw) of
     (JInt n, JStr p) \<Rightarrow>
       if n = 1 \<and> p = ''prepared'' then Inr ''prepare''
       else if n = 2 \<and> phase_index p \<noteq> None then Inr p
       else Inl transaction_error
   | _ \<Rightarrow> Inl transaction_error)"

definition parse_fields :: "json dict \<Rightarrow> kv_error + release_transaction" where
  "parse_fields value =
     (let field = (\<lambda>k. the (map_of value k)) in
      bindE (parse_phase (field ''version'') (field ''phase'')) (\<lambda>p.
      bindE (parse_id_field True (field ''from_release_id'')) (\<lambda>from.
      bindE (parse_id_field False (field ''to_release_id'')) (\<lambda>to.
      bindE (parse_id_field True (field ''previous_release_id'')) (\<lambda>prev.
        if from = to then Inl (PublicationError ''release transaction has identical endpoints'')
        else if from = None \<and> prev \<noteq> None
          then Inl (PublicationError ''first release transaction has a previous release'')
        else Inr \<lparr>from_release_id = from, to_release_id = the to, previous_release_id = prev, phase = p\<rparr>)))))"

definition parse_release_transaction :: "bytes option \<Rightarrow> kv_error + release_transaction option" where
  "parse_release_transaction content = (case content of
     None \<Rightarrow> Inr None
   | Some raw \<Rightarrow>
       if raw = EMPTY_POINTER then Inr None
       else if \<not> valid_utf8 raw then Inl transaction_error
       else (case json_loads raw of
           Inl _ \<Rightarrow> Inl transaction_error
         | Inr (JObj value) \<Rightarrow>
             if set (dict_keys value) = set TRANSACTION_FIELDS
             then bindE (parse_fields value) (\<lambda>t. Inr (Some t))
             else Inl transaction_error
         | Inr _ \<Rightarrow> Inl transaction_error))"

definition id_json :: "string option \<Rightarrow> json" where
  "id_json i = (case i of None \<Rightarrow> JNull | Some s \<Rightarrow> JStr s)"

definition transaction_document :: "release_transaction \<Rightarrow> json" where
  "transaction_document t = JObj
     [(''version'', JInt 2), (''phase'', JStr (phase t)), (''from_release_id'', id_json (from_release_id t)),
      (''to_release_id'', JStr (to_release_id t)), (''previous_release_id'', id_json (previous_release_id t))]"

definition transaction_text :: "release_transaction \<Rightarrow> bytes" where
  "transaction_text t = json_dumps (transaction_document t) @ [CHR 0x0A]"

definition serialize_release_transaction :: "release_transaction \<Rightarrow> kv_error + bytes" where
  "serialize_release_transaction t =
     bindE (validate_phase (phase t)) (\<lambda>_.
     bindE (parse_release_transaction (Some (transaction_text t))) (\<lambda>_. Inr (transaction_text t)))"

section \<open>The classification of an observed state\<close>

definition inspect_release_state ::
  "string option \<Rightarrow> string option \<Rightarrow> string option \<Rightarrow> release_transaction option \<Rightarrow> string" where
  "inspect_release_state prod_id current_id previous_id txn = (case txn of
     None \<Rightarrow>
       if prod_id = None \<and> current_id = None \<and> previous_id = None then ''first_release''
       else if prod_id = current_id \<and> prod_id \<noteq> None
         then (if previous_id = current_id then ''inconsistent'' else ''healthy'')
       else ''inconsistent''
   | Some t \<Rightarrow>
       if prod_id = Some (to_release_id t) then
         (if current_id \<in> {None, from_release_id t, Some (to_release_id t)}
             \<and> previous_id \<in> {previous_release_id t, from_release_id t}
          then ''recoverable_interrupted_commit'' else ''inconsistent'')
       else if prod_id = from_release_id t then ''ambiguous''
       else ''inconsistent'')"

section \<open>Facts\<close>

definition wf_transaction :: "release_transaction \<Rightarrow> bool" where
  "wf_transaction t \<longleftrightarrow>
     is_release_id (to_release_id t) \<and> pred_option is_release_id (from_release_id t)
     \<and> pred_option is_release_id (previous_release_id t) \<and> phase_index (phase t) \<noteq> None
     \<and> from_release_id t \<noteq> Some (to_release_id t)
     \<and> (from_release_id t = None \<longrightarrow> previous_release_id t = None)"

lemma phase_index_simps [simp]:
  "phase_index ''prepare'' = Some 0" "phase_index ''commit'' = Some 1"
  "phase_index ''verify'' = Some 2" "phase_index ''finalize'' = Some 3"
  by (simp_all add: phase_index_def PHASES_def)

lemma phase_index_cases:
  "phase_index p = Some i \<Longrightarrow> p \<in> set PHASES"
  by (auto simp: phase_index_def dest!: map_of_SomeD set_zip_leftD)

lemma phase_index_eq:
  "phase_index p = (if p = ''prepare'' then Some 0 else if p = ''commit'' then Some 1
     else if p = ''verify'' then Some 2 else if p = ''finalize'' then Some 3 else None)"
  by (simp add: phase_index_def PHASES_def)

lemma phase_index_inject: "phase_index p = Some i \<Longrightarrow> phase_index q = Some i \<Longrightarrow> p = q"
  by (simp add: phase_index_eq split: if_splits)

lemma parse_id_field_Inr:
  "parse_id_field b item = Inr r \<longleftrightarrow>
     (b \<and> item = JNull \<and> r = None) \<or> (\<exists>i. item = JStr i \<and> is_release_id i \<and> r = Some i)"
  by (auto simp: parse_id_field_def bindE_Inr_iff split: json.splits)

lemma parse_phase_Inr: "parse_phase v raw = Inr p \<Longrightarrow> phase_index p \<noteq> None"
  by (auto simp: parse_phase_def split: json.splits if_splits)

lemma parse_fields_wf: "parse_fields value = Inr t \<Longrightarrow> wf_transaction t"
  by (auto simp: parse_fields_def wf_transaction_def Let_def bindE_Inr_iff parse_id_field_Inr
      dest!: parse_phase_Inr split: if_splits)

lemma parse_release_transaction_wf: "parse_release_transaction c = Inr (Some t) \<Longrightarrow> wf_transaction t"
  by (auto simp: parse_release_transaction_def bindE_Inr_iff split: option.splits if_splits sum.splits json.splits
      dest: parse_fields_wf)

lemma parse_release_transaction_Inl:
  "parse_release_transaction c = Inl e \<Longrightarrow> \<exists>m. e = PublicationError m"
proof -
  have idf: "parse_id_field b item = Inl e \<Longrightarrow> \<exists>m. e = PublicationError m" for b item e
    by (auto simp: parse_id_field_def validate_release_id_def transaction_error_def
        split: json.splits if_splits)
  have ph: "parse_phase v raw = Inl e \<Longrightarrow> \<exists>m. e = PublicationError m" for v raw e
    by (auto simp: parse_phase_def transaction_error_def split: json.splits if_splits)
  have "parse_fields kvs = Inl e \<Longrightarrow> \<exists>m. e = PublicationError m" for kvs e
    by (auto simp: parse_fields_def Let_def bindE_Inl_iff dest: idf ph split: if_splits)
  then show "parse_release_transaction c = Inl e \<Longrightarrow> \<exists>m. e = PublicationError m"
    by (auto simp: parse_release_transaction_def transaction_error_def bindE_Inl_iff
        split: option.splits if_splits sum.splits json.splits)
qed

lemma parse_transaction_empty [simp]:
  "parse_release_transaction None = Inr None"
  "parse_release_transaction (Some EMPTY_POINTER) = Inr None"
  by (simp_all add: parse_release_transaction_def)

lemma release_id_ascii: "is_release_id i \<Longrightarrow> ascii_text i"
  by (auto simp: is_release_id_def list_all_iff intro: lower_hex_ascii)

lemma phase_ascii: "phase_index p \<noteq> None \<Longrightarrow> ascii_text p"
  by (simp add: phase_index_eq is_ascii_def split: if_splits)

lemma plain_id_json: "pred_option is_release_id i \<Longrightarrow> plain (id_json i)"
  by (cases i) (simp_all add: id_json_def release_id_ascii)

lemma plain_transaction:
  assumes "wf_transaction t"
  shows "plain (transaction_document t)"
proof -
  have "plain (JInt 2)" by (simp add: nat_digits.simps)
  then show ?thesis
    using assms plain_id_json [of "from_release_id t"] plain_id_json [of "previous_release_id t"]
    by (simp add: transaction_document_def wf_transaction_def release_id_ascii phase_ascii)
qed

lemma jsort_id_json: "jsort (id_json i) = id_json i"
  by (cases i) (simp_all add: id_json_def)

lemma transaction_loads:
  assumes "wf_transaction t"
  shows "json_loads (transaction_text t) = Inr (JObj
    [(''from_release_id'', id_json (from_release_id t)), (''phase'', JStr (phase t)),
     (''previous_release_id'', id_json (previous_release_id t)), (''to_release_id'', JStr (to_release_id t)),
     (''version'', JInt 2)])"
proof -
  have "jsort (transaction_document t) = JObj
    [(''from_release_id'', id_json (from_release_id t)), (''phase'', JStr (phase t)),
     (''previous_release_id'', id_json (previous_release_id t)), (''to_release_id'', JStr (to_release_id t)),
     (''version'', JInt 2)]"
    by (simp add: transaction_document_def jsort_id_json sort_key_def)
  then show ?thesis
    using json_loads_dumps(2) [OF plain_transaction [OF assms]] by (simp add: transaction_text_def)
qed

lemma transaction_text_ascii: "wf_transaction t \<Longrightarrow> ascii_text (transaction_text t)"
  by (simp add: transaction_text_def ascii_json_dumps plain_transaction)

lemma parse_transaction_text:
  assumes t: "wf_transaction t"
  shows "parse_release_transaction (Some (transaction_text t)) = Inr (Some t)"
proof -
  have "transaction_text t \<noteq> EMPTY_POINTER"
    by (simp add: EMPTY_POINTER_def transaction_text_def transaction_document_def json_dumps_def)
  moreover have "parse_fields
    [(''from_release_id'', id_json (from_release_id t)), (''phase'', JStr (phase t)),
     (''previous_release_id'', id_json (previous_release_id t)), (''to_release_id'', JStr (to_release_id t)),
     (''version'', JInt 2)] = Inr t"
  proof -
    have "parse_id_field True (id_json i) = Inr i" if "pred_option is_release_id i" for i
      using that by (cases i) (simp_all add: parse_id_field_def id_json_def validate_release_id_def)
    then show ?thesis
      using t
      by (cases t) (auto simp: parse_fields_def Let_def parse_phase_def wf_transaction_def
          parse_id_field_def [of False] validate_release_id_def)
  qed
  ultimately show ?thesis
    using transaction_loads [OF t]
    by (auto simp: parse_release_transaction_def valid_utf8_ascii [OF transaction_text_ascii [OF t]]
        TRANSACTION_FIELDS_def)
qed

lemma serialize_wf:
  "wf_transaction t \<Longrightarrow> serialize_release_transaction t = Inr (transaction_text t)"
  by (auto simp: serialize_release_transaction_def parse_transaction_text validate_phase_def
      wf_transaction_def split: option.splits)

lemma advance_wf:
  "wf_transaction t \<Longrightarrow> advance_release_transaction t p = Inr t' \<Longrightarrow> wf_transaction t'"
  by (auto simp: advance_release_transaction_def validate_phase_def bindE_Inr_iff wf_transaction_def
      split: option.splits if_splits)

lemma wf_new_transaction:
  "is_release_id to \<Longrightarrow> pred_option is_release_id from \<Longrightarrow> pred_option is_release_id prev \<Longrightarrow>
   from \<noteq> Some to \<Longrightarrow> (from = None \<longrightarrow> prev = None) \<Longrightarrow> wf_transaction (new_transaction from to prev)"
  by (simp add: wf_transaction_def new_transaction_def)

section \<open>Properties\<close>

text \<open>
  C14. The bytes of a well-formed intent read back as that intent; every intent read from any bytes,
  the legacy form included, is well formed (valid identifiers, distinct endpoints, no previous release
  before the first) and can be written again.
\<close>

theorem transaction_roundtrip:
  assumes "parse_release_transaction raw = Inr (Some t) \<or> wf_transaction t"
  shows "wf_transaction t
    \<and> (\<exists>text. serialize_release_transaction t = Inr text \<and> parse_release_transaction (Some text) = Inr (Some t))"
  using assms parse_release_transaction_wf serialize_wf parse_transaction_text by blast

definition demo_transaction :: release_transaction where
  "demo_transaction = new_transaction (Some (replicate 64 CHR ''a'')) (replicate 64 CHR ''b'') None"

lemma demo_ids: "is_release_id (replicate 64 CHR ''a'')" "is_release_id (replicate 64 CHR ''b'')"
  by (simp_all add: is_release_id_def list_all_iff is_lower_hex_def char_le_iff)

theorem transaction_roundtrip_witness:
  "\<exists>text. serialize_release_transaction demo_transaction = Inr text
     \<and> parse_release_transaction (Some text) = Inr (Some demo_transaction)"
proof -
  have "wf_transaction demo_transaction"
    unfolding demo_transaction_def by (rule wf_new_transaction) (use demo_ids in auto)
  then show ?thesis using transaction_roundtrip [of None demo_transaction] by blast
qed

text \<open>
  C19. Advancing an intent succeeds exactly when both phases are known and the target is not an
  earlier one; it changes the phase to the target and no identity, so phases only move forward.
\<close>

theorem advance_is_monotone:
  "(case advance_release_transaction t p of
      Inr t' \<Rightarrow> t' = t\<lparr>phase := p\<rparr> \<and> the (phase_index (phase t)) \<le> the (phase_index (phase t'))
        \<and> phase_reached t' p = Inr True
    | Inl e \<Rightarrow> phase_index (phase t) = None \<or> phase_index p = None
        \<or> the (phase_index p) < the (phase_index (phase t)))"
  by (auto simp: advance_release_transaction_def validate_phase_def phase_reached_def
      split: sum.splits option.splits if_splits)

end
