(* ===== verification/KvPublisher.thy ===== *)
theory KvPublisher
  imports ReleaseTransaction
begin

text \<open>
  The publisher the release layer is written against (\<^verbatim>\<open>KVValue\<close> and \<^verbatim>\<open>PublisherFactory\<close> of
  \<^verbatim>\<open>src/clash_relay/release_bundle.py\<close>), as a record of its operations over an arbitrary world, and
  the locales that state what a publisher promises.  \<open>traced\<close> and \<open>watched\<close> wrap any publisher so
  that the calls made, or the stores passed through, become part of the world.
\<close>

section \<open>The operations\<close>

text \<open>
  \<open>kv_open\<close> is the factory call, which may refuse a name; \<open>kv_publish\<close> returns the result
  dictionary of the backend; \<open>kv_wait\<close> is the sleep between two read-backs.
\<close>

record 'w kv =
  kv_open :: "string \<Rightarrow> ('w, kv_error, unit) action"
  kv_read :: "string \<Rightarrow> ('w, kv_error, bytes option) action"
  kv_publish :: "string \<Rightarrow> bytes \<Rightarrow> ('w, kv_error, json) action"
  kv_wait :: "rat \<Rightarrow> 'w \<Rightarrow> 'w"

definition safe_read :: "'w kv \<Rightarrow> string \<Rightarrow> ('w, kv_error, bytes option) action" where
  "safe_read kv key = bindA (kv_open kv key) (\<lambda>_. kv_read kv key)"

text \<open>
  The two messages by which the release layer reports a completed compensation.  A publisher's own
  definite errors carry other messages.
\<close>

definition COMMIT_RESTORED :: string where
  "COMMIT_RESTORED = ''release commit failed; previous production bytes were restored''"

definition FIRST_RELEASE_RESTORED :: string where
  "FIRST_RELEASE_RESTORED = ''first release activation failed; current pointer was restored''"

definition foreign :: "kv_error \<Rightarrow> bool" where
  "foreign e \<longleftrightarrow> (case e of
     PublicationError m \<Rightarrow> m \<noteq> COMMIT_RESTORED \<and> m \<noteq> FIRST_RELEASE_RESTORED
   | CommitUnknownError _ _ \<Rightarrow> False | EscapedError _ \<Rightarrow> True)"

definition definite :: "kv_error \<Rightarrow> bool" where
  "definite e \<longleftrightarrow> (case e of PublicationError _ \<Rightarrow> True | _ \<Rightarrow> False)"

lemma error_class_simps [simp]:
  "definite (PublicationError m)" "\<not> definite (CommitUnknownError m c)" "\<not> definite (EscapedError m)"
  "\<not> foreign (CommitUnknownError m c)" "foreign (EscapedError m)"
  by (simp_all add: definite_def foreign_def)

section \<open>Tracing the calls\<close>

datatype kv_event =
    Read string "kv_error + bytes option"
  | Publish string bytes "kv_error + json"

definition traced :: "'w kv \<Rightarrow> ('w \<times> kv_event list) kv" where
  "traced kv = \<lparr>
     kv_open = (\<lambda>k (w, tr). case kv_open kv k w of (r, w') \<Rightarrow> (r, (w', tr))),
     kv_read = (\<lambda>k (w, tr). case kv_read kv k w of (r, w') \<Rightarrow> (r, (w', tr @ [Read k r]))),
     kv_publish = (\<lambda>k c (w, tr). case kv_publish kv k c w of (r, w') \<Rightarrow> (r, (w', tr @ [Publish k c r]))),
     kv_wait = (\<lambda>d (w, tr). (kv_wait kv d w, tr))\<rparr>"

text \<open>An action of the plain world, run beside what a wrapper records.\<close>

definition beside :: "('w, 'e, 'a) action \<Rightarrow> ('w \<times> 'x, 'e, 'a) action" where
  "beside m = (\<lambda>(w, x). case m w of (r, w') \<Rightarrow> (r, (w', x)))"

section \<open>What a publisher promises\<close>

type_synonym store = "string \<Rightarrow> bytes option"

text \<open>
  \<open>view\<close> is the store behind the publisher and \<open>seen\<close> a set of stores it has passed through.
  Reading does not write; an accepted publication writes exactly its key; a definite rejection
  (a \<open>PublicationError\<close> that is not commit-unknown) writes nothing; any other outcome of a
  publication writes its key or nothing.  A failing open or read is never reported as commit-unknown.
  Nothing is said yet about what a read returns.
\<close>

locale kv_store =
  fixes kv :: "'w kv"
    and view :: "'w \<Rightarrow> store"
    and seen :: "'w \<Rightarrow> store set"
  assumes open_view: "kv_open kv k w = (r, w') \<Longrightarrow> view w' = view w"
    and read_view: "kv_read kv k w = (q, w') \<Longrightarrow> view w' = view w"
    and wait_view: "view (kv_wait kv d w) = view w"
    and publish_accepted: "kv_publish kv k c w = (Inr j, w') \<Longrightarrow> view w' = (view w)(k \<mapsto> c)"
    and publish_rejected: "kv_publish kv k c w = (Inl (PublicationError m), w') \<Longrightarrow> view w' = view w"
    and publish_other: "kv_publish kv k c w = (p, w') \<Longrightarrow> view w' = view w \<or> view w' = (view w)(k \<mapsto> c)"
    and open_seen: "kv_open kv k w = (r, w') \<Longrightarrow> seen w' \<subseteq> insert (view w') (seen w)"
    and read_seen: "kv_read kv k w = (q, w') \<Longrightarrow> seen w' \<subseteq> insert (view w') (seen w)"
    and wait_seen: "seen (kv_wait kv d w) \<subseteq> insert (view w) (seen w)"
    and publish_seen: "kv_publish kv k c w = (p, w') \<Longrightarrow> seen w' \<subseteq> insert (view w') (seen w)"
    and open_error: "kv_open kv k w = (Inl e, w') \<Longrightarrow> foreign e"
    and read_error: "kv_read kv k w = (Inl e, w') \<Longrightarrow> foreign e"
    and publish_error: "kv_publish kv k c w = (Inl (PublicationError m), w') \<Longrightarrow> foreign (PublicationError m)"

text \<open>A publisher whose successful reads return the stored value.\<close>

locale consistent_kv = kv_store kv view seen
  for kv :: "'w kv" and view :: "'w \<Rightarrow> store" and seen :: "'w \<Rightarrow> store set" +
  assumes read_value: "kv_read kv k w = (Inr x, w') \<Longrightarrow> x = view w k"

text \<open>
  A consistent publisher that, while \<open>calm\<close>, serves every call on the names and contents it accepts.
\<close>

locale reliable_kv = consistent_kv kv view seen
  for kv :: "'w kv" and view :: "'w \<Rightarrow> store" and seen :: "'w \<Rightarrow> store set" +
  fixes calm :: "'w \<Rightarrow> bool" and usable :: "string \<Rightarrow> bool" and fits :: "bytes \<Rightarrow> bool"
  assumes open_ok: "calm w \<Longrightarrow> usable k \<Longrightarrow> \<exists>w'. kv_open kv k w = (Inr (), w') \<and> calm w'"
    and read_ok: "calm w \<Longrightarrow> usable k \<Longrightarrow> \<exists>x w'. kv_read kv k w = (Inr x, w') \<and> calm w'"
    and publish_ok: "calm w \<Longrightarrow> usable k \<Longrightarrow> fits c \<Longrightarrow> \<exists>j w'. kv_publish kv k c w = (Inr j, w') \<and> calm w'"

section \<open>Watching the store\<close>

text \<open>Any publisher, with the stores it passes through collected after every call.\<close>

definition watched :: "('w \<Rightarrow> store) \<Rightarrow> 'w kv \<Rightarrow> ('w \<times> store set) kv" where
  "watched view kv = \<lparr>
     kv_open = (\<lambda>k (w, s). case kv_open kv k w of (r, w') \<Rightarrow> (r, (w', insert (view w') s))),
     kv_read = (\<lambda>k (w, s). case kv_read kv k w of (r, w') \<Rightarrow> (r, (w', insert (view w') s))),
     kv_publish = (\<lambda>k c (w, s). case kv_publish kv k c w of (r, w') \<Rightarrow> (r, (w', insert (view w') s))),
     kv_wait = (\<lambda>d (w, s). (kv_wait kv d w, s))\<rparr>"

lemma watched_sel [simp]:
  "kv_open (watched view kv) k (w, s) = (case kv_open kv k w of (r, w') \<Rightarrow> (r, (w', insert (view w') s)))"
  "kv_read (watched view kv) k (w, s) = (case kv_read kv k w of (r, w') \<Rightarrow> (r, (w', insert (view w') s)))"
  "kv_publish (watched view kv) k c (w, s) =
     (case kv_publish kv k c w of (r, w') \<Rightarrow> (r, (w', insert (view w') s)))"
  "kv_wait (watched view kv) d (w, s) = (kv_wait kv d w, s)"
  by (simp_all add: watched_def)

lemma watched_kv_store:
  assumes "kv_store kv view seen"
  shows "kv_store (watched view kv) (\<lambda>(w, s). view w) snd"
proof (rule kv_store.intro, goal_cases)
  case (1 k w r w')
  then show ?case using kv_store.open_view [OF assms] by (auto split: prod.splits)
next
  case (2 k w q w')
  then show ?case using kv_store.read_view [OF assms] by (auto split: prod.splits)
next
  case (3 d w)
  then show ?case using kv_store.wait_view [OF assms] by (auto split: prod.splits)
next
  case (4 k c w j w')
  then show ?case using kv_store.publish_accepted [OF assms] by (auto split: prod.splits)
next
  case (5 k c w m w')
  then show ?case using kv_store.publish_rejected [OF assms] by (auto split: prod.splits)
next
  case (6 k c w p w')
  then show ?case using kv_store.publish_other [OF assms] by (fastforce split: prod.splits)
next
  case (11 k w e w')
  then show ?case using kv_store.open_error [OF assms] by (cases w) (auto split: prod.splits)
next
  case (12 k w e w')
  then show ?case using kv_store.read_error [OF assms] by (cases w) (auto split: prod.splits)
next
  case (13 k c w m w')
  then show ?case using kv_store.publish_error [OF assms] by (cases w) (auto split: prod.splits)
qed (auto split: prod.splits)

lemma watched_consistent_kv:
  assumes "consistent_kv kv view seen"
  shows "consistent_kv (watched view kv) (\<lambda>(w, s). view w) snd"
proof (rule consistent_kv.intro [OF watched_kv_store])
  show "kv_store kv view seen" using assms by (rule consistent_kv.axioms)
  show "consistent_kv_axioms (watched view kv) (\<lambda>(w, s). view w)"
    using consistent_kv.read_value [OF assms]
    by (auto simp: consistent_kv_axioms_def split: prod.splits)
qed

end
