(* ===== verification/ReleaseBundle.thy ===== *)
theory ReleaseBundle
  imports KvPublisher
begin

text \<open>
  The operations of \<^verbatim>\<open>src/clash_relay/release_bundle.py\<close>: verified writes, the staging of immutable
  release objects, the recovery of an interrupted transaction, compensation, the first and the
  replacing activation, and \<^verbatim>\<open>publish_release_bundle\<close> which composes them.  An action of the
  model makes the publisher calls of the Python function in the same order; the branches of
  \<^verbatim>\<open>publish_release_bundle\<close> are definitions of their own, named in the order of the code.
\<close>

section \<open>Verified writes\<close>

definition READ_BACK_DELAYS :: "rat list" where
  "READ_BACK_DELAYS = [0, 1 / 4, 1 / 2, 1, 2]"

definition wait_between_read_backs :: "'w kv \<Rightarrow> rat \<Rightarrow> ('w, kv_error, unit) action" where
  "wait_between_read_backs kv delay = (\<lambda>w. (Inr (), kv_wait kv delay w))"

text \<open>One attempt of the read-back loop: an error of the publication class counts as no match.\<close>

definition read_back :: "'w kv \<Rightarrow> string \<Rightarrow> bytes \<Rightarrow> ('w, kv_error, bool) action" where
  "read_back kv key expected =
     try_catch (bindA (kv_read kv key) (\<lambda>observed. return (observed = Some expected)))
       (\<lambda>e. case e of EscapedError _ \<Rightarrow> raise e | _ \<Rightarrow> return False)"

fun read_back_loop :: "'w kv \<Rightarrow> string \<Rightarrow> bytes \<Rightarrow> rat list \<Rightarrow> ('w, kv_error, bool) action" where
  "read_back_loop kv key expected [] = return False"
| "read_back_loop kv key expected (delay # delays) =
     bindA (if delay \<noteq> 0 then wait_between_read_backs kv delay else return ()) (\<lambda>_.
     bindA (read_back kv key expected) (\<lambda>match.
       if match then return True else read_back_loop kv key expected delays))"

definition matches_after_write :: "'w kv \<Rightarrow> string \<Rightarrow> bytes \<Rightarrow> ('w, kv_error, bool) action" where
  "matches_after_write kv key expected = read_back_loop kv key expected READ_BACK_DELAYS"

definition recovered_write_result :: "(bytes \<Rightarrow> string) \<Rightarrow> string \<Rightarrow> bytes \<Rightarrow> json" where
  "recovered_write_result sha key content = JObj
     [(''key'', JStr key), (''bytes'', JInt (int (length content))), (''sha256'', JStr (sha content)),
      (''recovered_from_ambiguous_write'', JBool True)]"

text \<open>
  Both \<^verbatim>\<open>except\<close> clauses of the code run the same statements, so the handler distinguishes only
  the exceptions they catch from those they do not.  The flag is \<^verbatim>\<open>verified_by_readback\<close>.
\<close>

definition publish_verified ::
  "(bytes \<Rightarrow> string) \<Rightarrow> 'w kv \<Rightarrow> string \<Rightarrow> bytes \<Rightarrow> ('w, kv_error, json) action" where
  "publish_verified sha kv key content =
     bindA (kv_open kv key) (\<lambda>_.
     bindA (try_catch (bindA (kv_publish kv key content) (\<lambda>result. return (result, False)))
       (\<lambda>e. case e of EscapedError _ \<Rightarrow> raise e
        | _ \<Rightarrow> bindA (matches_after_write kv key content) (\<lambda>match.
            if match then return (recovered_write_result sha key content, True) else raise e)))
     (\<lambda>(result, verified_by_readback).
       if verified_by_readback then return result
       else bindA (matches_after_write kv key content) (\<lambda>match.
         if match then return result
         else raise (commit_unknown ''remote publication state is unknown after read-back verification''))))"

text \<open>\<^verbatim>\<open>try: m except CommitUnknownError: raise CommitUnknownError(message, production_changed=c)\<close>\<close>

definition on_unknown ::
  "string \<Rightarrow> changed \<Rightarrow> ('w, kv_error, 'a) action \<Rightarrow> ('w, kv_error, 'a) action" where
  "on_unknown message c m = try_catch m (\<lambda>e. case e of
     CommitUnknownError _ _ \<Rightarrow> raise (CommitUnknownError message c) | _ \<Rightarrow> raise e)"

section \<open>Immutable objects and pointers\<close>

text \<open>Write an absent object, accept an equal one, refuse a different one.\<close>

definition ensure_object ::
  "(bytes \<Rightarrow> string) \<Rightarrow> 'w kv \<Rightarrow> string \<Rightarrow> bytes \<Rightarrow> bytes option \<Rightarrow> string \<Rightarrow> ('w, kv_error, unit) action" where
  "ensure_object sha kv key expected existing message = (case existing of
     None \<Rightarrow> bindA (publish_verified sha kv key expected) (\<lambda>_. return ())
   | Some found \<Rightarrow> if found = expected then return () else raise (PublicationError message))"

definition ensure_immutable_release ::
  "(bytes \<Rightarrow> string) \<Rightarrow> 'w kv \<Rightarrow> release_keys \<Rightarrow> bytes \<Rightarrow> ('w, kv_error, string) action" where
  "ensure_immutable_release sha kv keys content =
     bindA (lift_sum (release_id_for sha content)) (\<lambda>release_id.
     bindA (lift_sum (keys_config keys release_id)) (\<lambda>config_key.
     bindA (safe_read kv config_key) (\<lambda>existing.
     bindA (on_unknown ''immutable release staging state is unknown'' NotChanged (
       bindA (ensure_object sha kv config_key content existing
         ''immutable production release key contains different bytes'') (\<lambda>_.
       bindA (lift_sum (manifest_bytes sha content)) (\<lambda>expected_manifest.
       bindA (lift_sum (keys_manifest keys release_id)) (\<lambda>manifest_key.
       bindA (safe_read kv manifest_key) (\<lambda>existing_manifest.
         ensure_object sha kv manifest_key expected_manifest existing_manifest
           ''immutable production release manifest does not match release bytes'')))))) (\<lambda>_.
     return release_id))))"

definition restore_pointer ::
  "(bytes \<Rightarrow> string) \<Rightarrow> 'w kv \<Rightarrow> string \<Rightarrow> string option \<Rightarrow> ('w, kv_error, unit) action" where
  "restore_pointer sha kv key release_id =
     bindA (lift_sum (case release_id of None \<Rightarrow> Inr EMPTY_POINTER | Some i \<Rightarrow> pointer_bytes i)) (\<lambda>content.
     bindA (publish_verified sha kv key content) (\<lambda>_. return ()))"

definition transaction_write ::
  "(bytes \<Rightarrow> string) \<Rightarrow> 'w kv \<Rightarrow> release_keys \<Rightarrow> bytes \<Rightarrow> changed \<Rightarrow> ('w, kv_error, unit) action" where
  "transaction_write sha kv keys content c =
     on_unknown ''release transaction state is unknown'' c
       (bindA (publish_verified sha kv (transaction keys) content) (\<lambda>_. return ()))"

text \<open>\<^verbatim>\<open>_transaction_write(..., serialize_release_transaction(advance_release_transaction(t, p)), ...)\<close>\<close>

definition write_phase ::
  "(bytes \<Rightarrow> string) \<Rightarrow> 'w kv \<Rightarrow> release_keys \<Rightarrow> release_transaction \<Rightarrow> string \<Rightarrow> changed \<Rightarrow>
   ('w, kv_error, unit) action" where
  "write_phase sha kv keys t p c =
     bindA (lift_sum (bindE (advance_release_transaction t p) serialize_release_transaction)) (\<lambda>text.
     transaction_write sha kv keys text c)"

definition read_pointer :: "'w kv \<Rightarrow> string \<Rightarrow> ('w, kv_error, string option) action" where
  "read_pointer kv key = bindA (safe_read kv key) (\<lambda>raw. lift_sum (parse_release_pointer raw))"

text \<open>
  \<^verbatim>\<open>a or b or c\<close> over conditions that read: a later one is evaluated when the earlier ones fail.
\<close>

fun any_of :: "('w, kv_error, bool) action list \<Rightarrow> ('w, kv_error, bool) action" where
  "any_of [] = return False"
| "any_of (m # ms) = bindA m (\<lambda>b. if b then return True else any_of ms)"

definition value_differs :: "'w kv \<Rightarrow> string \<Rightarrow> bytes \<Rightarrow> ('w, kv_error, bool) action" where
  "value_differs kv key content = bindA (safe_read kv key) (\<lambda>found. return (found \<noteq> Some content))"

definition pointer_differs :: "'w kv \<Rightarrow> string \<Rightarrow> string option \<Rightarrow> ('w, kv_error, bool) action" where
  "pointer_differs kv key i = bindA (read_pointer kv key) (\<lambda>found. return (found \<noteq> i))"

section \<open>Recovery\<close>

text \<open>The immutable objects of a predecessor are missing or do not match its identifier.\<close>

definition predecessor_unavailable ::
  "(bytes \<Rightarrow> string) \<Rightarrow> 'w kv \<Rightarrow> release_keys \<Rightarrow> string \<Rightarrow> ('w, kv_error, bool) action" where
  "predecessor_unavailable sha kv keys from_id =
     bindA (lift_sum (keys_config keys from_id)) (\<lambda>config_key.
     bindA (safe_read kv config_key) (\<lambda>former. case former of
       None \<Rightarrow> return True
     | Some content \<Rightarrow>
         bindA (lift_sum (release_id_for sha content)) (\<lambda>former_id.
         if former_id \<noteq> from_id then return True
         else bindA (lift_sum (keys_manifest keys from_id)) (\<lambda>manifest_key.
              bindA (safe_read kv manifest_key) (\<lambda>manifest.
              bindA (lift_sum (manifest_bytes sha content)) (\<lambda>expected.
              return (manifest \<noteq> Some expected)))))))"

record release_result =
  res_status :: string
  res_release_id :: string
  res_previous_id :: "string option"
  res_bytes :: nat
  res_sha256 :: string
  res_production_changed :: bool
  res_recovered_transaction :: "bool option"
  res_first_release :: "bool option"
  res_migrated_current_pointer :: "bool option"

definition write_phase_unless_reached ::
  "(bytes \<Rightarrow> string) \<Rightarrow> 'w kv \<Rightarrow> release_keys \<Rightarrow> release_transaction \<Rightarrow> string \<Rightarrow> ('w, kv_error, unit) action" where
  "write_phase_unless_reached sha kv keys t p =
     bindA (lift_sum (phase_reached t p)) (\<lambda>reached.
     if reached then return () else write_phase sha kv keys t p Changed)"

definition predecessor_check ::
  "(bytes \<Rightarrow> string) \<Rightarrow> 'w kv \<Rightarrow> release_keys \<Rightarrow> string option \<Rightarrow> ('w, kv_error, unit) action" where
  "predecessor_check sha kv keys from_id = (case from_id of
     None \<Rightarrow> return ()
   | Some i \<Rightarrow> bindA (predecessor_unavailable sha kv keys i) (\<lambda>bad.
       if bad then raise (PublicationError ''transaction predecessor immutable release is unavailable'')
       else return ()))"

text \<open>The part of \<^verbatim>\<open>_recover_transaction\<close> that writes, for a transaction that passed its checks.\<close>

definition resume_transaction ::
  "(bytes \<Rightarrow> string) \<Rightarrow> 'w kv \<Rightarrow> release_keys \<Rightarrow> bytes \<Rightarrow> string option \<Rightarrow> string option \<Rightarrow>
   release_transaction \<Rightarrow> ('w, kv_error, release_result option) action" where
  "resume_transaction sha kv keys content current_id previous t =
     (let from_id = from_release_id t; to_id = to_release_id t in
      bindA (on_unknown ''release transaction pointer repair state is unknown'' Changed (
        bindA (if previous \<noteq> from_id then restore_pointer sha kv (previous_pointer keys) from_id
               else return ()) (\<lambda>_.
        if current_id \<noteq> Some to_id then restore_pointer sha kv (current_pointer keys) (Some to_id)
        else return ()))) (\<lambda>_.
      bindA (write_phase_unless_reached sha kv keys t ''verify'') (\<lambda>_.
      bindA (any_of [value_differs kv (production keys) content,
                     pointer_differs kv (previous_pointer keys) from_id,
                     pointer_differs kv (current_pointer keys) (Some to_id)]) (\<lambda>bad.
      if bad then raise (CommitUnknownError ''release transaction verification is incomplete'' ChangeUnknown)
      else bindA (write_phase_unless_reached sha kv keys t ''finalize'') (\<lambda>_.
           bindA (transaction_write sha kv keys EMPTY_POINTER Changed) (\<lambda>_.
           return (Some \<lparr>res_status = ''published'', res_release_id = to_id, res_previous_id = from_id,
             res_bytes = length content, res_sha256 = to_id, res_production_changed = True,
             res_recovered_transaction = Some True, res_first_release = Some (from_id = None),
             res_migrated_current_pointer = None\<rparr>)))))))"

definition recover_transaction ::
  "(bytes \<Rightarrow> string) \<Rightarrow> 'w kv \<Rightarrow> release_keys \<Rightarrow> bytes \<Rightarrow> bytes option \<Rightarrow> string option \<Rightarrow> string option \<Rightarrow>
   release_transaction option \<Rightarrow> ('w, kv_error, release_result option) action" where
  "recover_transaction sha kv keys content live current_id previous observed =
     bindA (case observed of Some t \<Rightarrow> return (Some t)
            | None \<Rightarrow> bindA (safe_read kv (transaction keys)) (\<lambda>raw. lift_sum (parse_release_transaction raw)))
     (\<lambda>txn. case txn of
       None \<Rightarrow> return None
     | Some t \<Rightarrow>
       bindA (lift_sum (release_id_for sha content)) (\<lambda>to_id.
       if to_id \<noteq> to_release_id t
         then raise (PublicationError ''unfinished release transaction targets another candidate'')
       else bindA (case live of None \<Rightarrow> return True
            | Some p \<Rightarrow> bindA (lift_sum (release_id_for sha p)) (\<lambda>i. return (i \<noteq> to_id))) (\<lambda>stale.
       if stale
         then raise (CommitUnknownError ''unfinished release activation needs reconciliation'' ChangeUnknown)
       else if current_id \<notin> {None, from_release_id t, Some to_id}
            \<or> previous \<notin> {previous_release_id t, from_release_id t}
         then raise (PublicationError ''release transaction pointers contradict their intent'')
       else bindA (predecessor_check sha kv keys (from_release_id t)) (\<lambda>_.
            resume_transaction sha kv keys content current_id previous t))))"

section \<open>Compensation and the first release\<close>

text \<open>One compensation step: its label when it was definitely rejected.\<close>

definition attempt ::
  "string \<Rightarrow> changed \<Rightarrow> string \<Rightarrow> ('w, kv_error, 'a) action \<Rightarrow> ('w, kv_error, string list) action" where
  "attempt message c label m = try_catch (bindA m (\<lambda>_. return []))
     (\<lambda>e. case e of CommitUnknownError _ _ \<Rightarrow> raise (CommitUnknownError message c)
      | PublicationError _ \<Rightarrow> return [label] | EscapedError _ \<Rightarrow> raise e)"

definition restore_after_failed_commit ::
  "(bytes \<Rightarrow> string) \<Rightarrow> 'w kv \<Rightarrow> release_keys \<Rightarrow> bytes \<Rightarrow> string \<Rightarrow> string option \<Rightarrow> ('w, kv_error, unit) action" where
  "restore_after_failed_commit sha kv keys previous_content previous_id previous_pointer_before =
     bindA (attempt ''production compensation state is unknown'' ChangeUnknown ''production''
       (publish_verified sha kv (production keys) previous_content)) (\<lambda>errors.
     (let changed = (if errors = [] then NotChanged else ChangeUnknown) in
      bindA (attempt ''current pointer compensation state is unknown'' changed ''current-pointer''
        (restore_pointer sha kv (current_pointer keys) (Some previous_id))) (\<lambda>errors2.
      bindA (attempt ''previous pointer compensation state is unknown'' changed ''previous-pointer''
        (restore_pointer sha kv (previous_pointer keys) previous_pointer_before)) (\<lambda>errors3.
      if errors @ errors2 @ errors3 \<noteq> []
        then raise (PublicationError (''release commit failed and compensation was incomplete: ''
               @ join_with '', '' (errors @ errors2 @ errors3)))
      else return ()))))"

definition activate_first_release ::
  "(bytes \<Rightarrow> string) \<Rightarrow> 'w kv \<Rightarrow> release_keys \<Rightarrow> bytes \<Rightarrow> string \<Rightarrow> string option \<Rightarrow> ('w, kv_error, unit) action" where
  "activate_first_release sha kv keys content new_release_id current_pointer_before =
     bindA (on_unknown ''first release pointer staging state is unknown'' NotChanged
       (restore_pointer sha kv (current_pointer keys) (Some new_release_id))) (\<lambda>_.
     try_catch (bindA (publish_verified sha kv (production keys) content) (\<lambda>_. return ()))
       (\<lambda>e. case e of
          CommitUnknownError _ _ \<Rightarrow> raise (CommitUnknownError ''first release activation state is unknown'' ChangeUnknown)
        | PublicationError _ \<Rightarrow>
            bindA (try_catch (restore_pointer sha kv (current_pointer keys) current_pointer_before)
              (\<lambda>e'. case e' of
                 CommitUnknownError _ _ \<Rightarrow>
                   raise (CommitUnknownError ''first release pointer compensation state is unknown'' NotChanged)
               | PublicationError _ \<Rightarrow> raise (PublicationError
                   ''first release activation failed and pointer compensation was incomplete'')
               | EscapedError _ \<Rightarrow> raise e')) (\<lambda>_.
            raise (PublicationError FIRST_RELEASE_RESTORED))
        | EscapedError _ \<Rightarrow> raise e))"

section \<open>Publication\<close>

text \<open>
  An unfinished intent for other bytes: it is retired only when its complete committed state is
  proven.
\<close>

definition committed_state_unproven ::
  "(bytes \<Rightarrow> string) \<Rightarrow> 'w kv \<Rightarrow> release_keys \<Rightarrow> release_transaction \<Rightarrow> ('w, kv_error, bool) action" where
  "committed_state_unproven sha kv keys t =
     bindA (safe_read kv (production keys)) (\<lambda>committed. case committed of
       None \<Rightarrow> return True
     | Some content \<Rightarrow> any_of
         [bindA (lift_sum (release_id_for sha content)) (\<lambda>i. return (i \<noteq> to_release_id t)),
          pointer_differs kv (current_pointer keys) (Some (to_release_id t)),
          pointer_differs kv (previous_pointer keys) (from_release_id t),
          bindA (lift_sum (keys_config keys (to_release_id t))) (\<lambda>key. value_differs kv key content),
          bindA (lift_sum (keys_manifest keys (to_release_id t))) (\<lambda>key.
          bindA (safe_read kv key) (\<lambda>manifest.
          bindA (lift_sum (manifest_bytes sha content)) (\<lambda>expected. return (manifest \<noteq> Some expected))))])"

definition retire_intent ::
  "(bytes \<Rightarrow> string) \<Rightarrow> 'w kv \<Rightarrow> release_keys \<Rightarrow> release_transaction \<Rightarrow> ('w, kv_error, unit) action" where
  "retire_intent sha kv keys t =
     bindA (committed_state_unproven sha kv keys t) (\<lambda>bad.
     if bad then raise (PublicationError ''unfinished release transaction targets another candidate'')
     else bindA (predecessor_check sha kv keys (from_release_id t)) (\<lambda>_.
          transaction_write sha kv keys EMPTY_POINTER NotChanged))"

definition settle_observed ::
  "(bytes \<Rightarrow> string) \<Rightarrow> 'w kv \<Rightarrow> release_keys \<Rightarrow> bytes \<Rightarrow> release_transaction option \<Rightarrow>
   ('w, kv_error, release_transaction option) action" where
  "settle_observed sha kv keys content observed = (case observed of
     None \<Rightarrow> return None
   | Some t \<Rightarrow>
       bindA (lift_sum (release_id_for sha content)) (\<lambda>i.
       if to_release_id t \<noteq> i then bindA (retire_intent sha kv keys t) (\<lambda>_. return None)
       else return (Some t)))"

definition publish_unchanged ::
  "(bytes \<Rightarrow> string) \<Rightarrow> 'w kv \<Rightarrow> release_keys \<Rightarrow> bytes \<Rightarrow> string \<Rightarrow> string option \<Rightarrow> string option \<Rightarrow>
   ('w, kv_error, release_result) action" where
  "publish_unchanged sha kv keys content new_release_id current_before previous_before =
     bindA (if current_before \<noteq> Some new_release_id
            then on_unknown ''unchanged release pointer repair state is unknown'' NotChanged
                   (restore_pointer sha kv (current_pointer keys) (Some new_release_id))
            else return ()) (\<lambda>_.
     return \<lparr>res_status = ''unchanged'', res_release_id = new_release_id, res_previous_id = previous_before,
       res_bytes = length content, res_sha256 = new_release_id, res_production_changed = False,
       res_recovered_transaction = None, res_first_release = None, res_migrated_current_pointer = None\<rparr>)"

text \<open>
  After activation: the intent is verified, checked against the store, finalised and cleared.  The
  two activations share these statements up to the order of the read-backs and the message.
\<close>

definition finish_transaction ::
  "(bytes \<Rightarrow> string) \<Rightarrow> 'w kv \<Rightarrow> release_keys \<Rightarrow> bytes \<Rightarrow> release_transaction \<Rightarrow> string \<Rightarrow> ('w, kv_error, unit) action" where
  "finish_transaction sha kv keys content t message =
     bindA (write_phase sha kv keys t ''verify'' Changed) (\<lambda>_.
     bindA (any_of [value_differs kv (production keys) content,
                    pointer_differs kv (current_pointer keys) (Some (to_release_id t)),
                    pointer_differs kv (previous_pointer keys) (from_release_id t)]) (\<lambda>bad.
     if bad then raise (CommitUnknownError message ChangeUnknown)
     else bindA (write_phase sha kv keys t ''finalize'' Changed) (\<lambda>_.
          transaction_write sha kv keys EMPTY_POINTER Changed)))"

definition publish_first ::
  "(bytes \<Rightarrow> string) \<Rightarrow> 'w kv \<Rightarrow> release_keys \<Rightarrow> bytes \<Rightarrow> string \<Rightarrow> string option \<Rightarrow> ('w, kv_error, release_result) action" where
  "publish_first sha kv keys content new_release_id current_before =
     (let t = new_transaction None new_release_id None in
      bindA (lift_sum (serialize_release_transaction t)) (\<lambda>text.
      bindA (transaction_write sha kv keys text NotChanged) (\<lambda>_.
      bindA (try_catch (activate_first_release sha kv keys content new_release_id current_before)
        (\<lambda>e. if e = PublicationError FIRST_RELEASE_RESTORED
             then bindA (transaction_write sha kv keys EMPTY_POINTER ChangeUnknown) (\<lambda>_. raise e)
             else raise e)) (\<lambda>_.
      bindA (write_phase sha kv keys t ''commit'' Changed) (\<lambda>_.
      bindA (finish_transaction sha kv keys content t
        ''first release transaction verification is incomplete'') (\<lambda>_.
      return \<lparr>res_status = ''published'', res_release_id = new_release_id, res_previous_id = None,
        res_bytes = length content, res_sha256 = new_release_id, res_production_changed = True,
        res_recovered_transaction = None, res_first_release = Some True, res_migrated_current_pointer = None\<rparr>))))))"

text \<open>
  One step of the replacing commit with its handlers: an ambiguous outcome stops the run, a definite
  rejection compensates and clears the intent.
\<close>

definition commit_step ::
  "(bytes \<Rightarrow> string) \<Rightarrow> 'w kv \<Rightarrow> release_keys \<Rightarrow> bytes \<Rightarrow> string \<Rightarrow> string option \<Rightarrow> string \<Rightarrow> changed \<Rightarrow>
   ('w, kv_error, 'a) action \<Rightarrow> ('w, kv_error, unit) action" where
  "commit_step sha kv keys old_content old_id previous_before message c m =
     try_catch (bindA m (\<lambda>_. return ()))
       (\<lambda>e. case e of
          CommitUnknownError _ _ \<Rightarrow> raise (CommitUnknownError message c)
        | PublicationError _ \<Rightarrow>
            bindA (restore_after_failed_commit sha kv keys old_content old_id previous_before) (\<lambda>_.
            bindA (transaction_write sha kv keys EMPTY_POINTER ChangeUnknown) (\<lambda>_.
            raise (PublicationError COMMIT_RESTORED)))
        | EscapedError _ \<Rightarrow> raise e)"

definition publish_replacement ::
  "(bytes \<Rightarrow> string) \<Rightarrow> 'w kv \<Rightarrow> release_keys \<Rightarrow> bytes \<Rightarrow> string \<Rightarrow> bytes \<Rightarrow> string option \<Rightarrow> string option \<Rightarrow>
   ('w, kv_error, release_result) action" where
  "publish_replacement sha kv keys content new_release_id old_content current_before previous_before =
     bindA (ensure_immutable_release sha kv keys old_content) (\<lambda>old_id.
     (let t = new_transaction (Some old_id) new_release_id previous_before;
          step = commit_step sha kv keys old_content old_id previous_before in
      bindA (lift_sum (serialize_release_transaction t)) (\<lambda>text.
      bindA (transaction_write sha kv keys text NotChanged) (\<lambda>_.
      bindA (step ''production activation state is unknown'' ChangeUnknown
        (bindA (publish_verified sha kv (production keys) content) (\<lambda>_. return ()))) (\<lambda>_.
      bindA (write_phase sha kv keys t ''commit'' Changed) (\<lambda>_.
      bindA (step ''previous release pointer commit state is unknown'' Changed
        (restore_pointer sha kv (previous_pointer keys) (Some old_id))) (\<lambda>_.
      bindA (step ''current release pointer commit state is unknown'' Changed
        (restore_pointer sha kv (current_pointer keys) (Some new_release_id))) (\<lambda>_.
      bindA (finish_transaction sha kv keys content t
        ''release transaction verification is incomplete'') (\<lambda>_.
      return \<lparr>res_status = ''published'', res_release_id = new_release_id, res_previous_id = Some old_id,
        res_bytes = length content, res_sha256 = new_release_id, res_production_changed = True,
        res_recovered_transaction = None, res_first_release = None,
        res_migrated_current_pointer = Some (current_before = None)\<rparr>)))))))))"

text \<open>The branches after recovery found no transaction.\<close>

definition publish_without_intent ::
  "(bytes \<Rightarrow> string) \<Rightarrow> 'w kv \<Rightarrow> release_keys \<Rightarrow> bytes \<Rightarrow> string \<Rightarrow> bytes option \<Rightarrow> string option \<Rightarrow> string option \<Rightarrow>
   ('w, kv_error, release_result) action" where
  "publish_without_intent sha kv keys content new_release_id current_content current_before previous_before =
     (case current_content of
        None \<Rightarrow>
          if current_before \<noteq> None
            then raise (PublicationError ''current pointer exists without production content'')
          else if previous_before \<noteq> None
            then raise (PublicationError ''previous pointer exists without production content'')
          else publish_first sha kv keys content new_release_id current_before
      | Some old_content \<Rightarrow>
          bindA (lift_sum (release_id_for sha old_content)) (\<lambda>old_id.
          if current_before \<notin> {None, Some old_id}
            then raise (PublicationError ''production and current pointer disagree without transaction'')
          else if old_content = content
            then publish_unchanged sha kv keys content new_release_id current_before previous_before
          else publish_replacement sha kv keys content new_release_id old_content
                 current_before previous_before))"

definition publish_release_bundle ::
  "(bytes \<Rightarrow> string) \<Rightarrow> 'w kv \<Rightarrow> string \<Rightarrow> bytes \<Rightarrow> (bytes option \<Rightarrow> ('w, kv_error, unit) action) option \<Rightarrow>
   ('w, kv_error, release_result) action" where
  "publish_release_bundle sha kv production_key content baseline_observer =
     bindA (lift_sum (release_keys production_key)) (\<lambda>keys.
     bindA (bindA (safe_read kv (transaction keys)) (\<lambda>raw. lift_sum (parse_release_transaction raw))) (\<lambda>seen.
     bindA (settle_observed sha kv keys content seen) (\<lambda>observed.
     bindA (ensure_immutable_release sha kv keys content) (\<lambda>new_release_id.
     bindA (safe_read kv (production keys)) (\<lambda>current_content.
     bindA (read_pointer kv (current_pointer keys)) (\<lambda>current_before.
     bindA (read_pointer kv (previous_pointer keys)) (\<lambda>previous_before.
     bindA (case baseline_observer of None \<Rightarrow> return () | Some f \<Rightarrow> f current_content) (\<lambda>_.
     bindA (recover_transaction sha kv keys content current_content current_before previous_before observed)
       (\<lambda>recovered. case recovered of
          Some result \<Rightarrow> return result
        | None \<Rightarrow> publish_without_intent sha kv keys content new_release_id current_content
                    current_before previous_before)))))))))"

section \<open>The previous release\<close>

definition read_previous_release ::
  "(bytes \<Rightarrow> string) \<Rightarrow> 'w kv \<Rightarrow> string \<Rightarrow> ('w, kv_error, bytes \<times> json) action" where
  "read_previous_release sha kv production_key =
     bindA (lift_sum (release_keys production_key)) (\<lambda>keys.
     bindA (bindA (safe_read kv (transaction keys)) (\<lambda>raw. lift_sum (parse_release_transaction raw))) (\<lambda>txn.
     if txn \<noteq> None
       then raise (PublicationError ''previous release is unavailable during an unfinished transaction'')
     else bindA (read_pointer kv (previous_pointer keys)) (\<lambda>pointer. case pointer of
       None \<Rightarrow> raise (PublicationError ''no previous production release is available'')
     | Some i \<Rightarrow>
       bindA (lift_sum (keys_config keys i)) (\<lambda>config_key.
       bindA (safe_read kv config_key) (\<lambda>found. case found of
         None \<Rightarrow> raise (PublicationError ''previous release pointer references a missing release'')
       | Some content \<Rightarrow>
         bindA (lift_sum (release_id_for sha content)) (\<lambda>content_id.
         if content_id \<noteq> i then raise
           (PublicationError ''previous release bytes do not match their immutable release id'')
         else bindA (lift_sum (keys_manifest keys i)) (\<lambda>manifest_key.
              bindA (safe_read kv manifest_key) (\<lambda>manifest. case manifest of
                None \<Rightarrow> raise (PublicationError ''previous release manifest is missing'')
              | Some text \<Rightarrow>
                bindA (lift_sum (manifest_bytes sha content)) (\<lambda>expected.
                if text \<noteq> expected then raise
                  (PublicationError ''previous release manifest does not match release bytes'')
                else return (content, JObj
                  [(''source'', JStr ''versioned-release''), (''release_id'', JStr i), (''sha256'', JStr i),
                   (''bytes'', JInt (int (length content)))])))))))))) "

end
