(* ===== verification/BundleState.thy ===== *)
theory BundleState
  imports ReleaseBundle
begin

text \<open>
  A program logic for the release operations over a consistent publisher: \<open>vwp J m Q E v\<close> says that
  running \<open>m\<close> from the store \<open>v\<close> passes only through stores that satisfy \<open>J\<close> and ends in \<open>Q\<close> with a
  value or in \<open>E\<close> with an error.  One rule per operation of \<^verbatim>\<open>release_bundle.py\<close>.
\<close>

declare any_of.simps [simp del]

section \<open>Release states\<close>

definition manifest_text :: "(bytes \<Rightarrow> string) \<Rightarrow> bytes \<Rightarrow> bytes" where
  "manifest_text sha content = json_dumps (manifest_document sha content) @ [CHR 0x0A]"

text \<open>Both immutable objects of a release are stored.\<close>

definition staged :: "(bytes \<Rightarrow> string) \<Rightarrow> string \<Rightarrow> bytes \<Rightarrow> store \<Rightarrow> bool" where
  "staged sha K content v \<longleftrightarrow>
     v (release_config_key K (sha content)) = Some content
     \<and> v (release_manifest_key K (sha content)) = Some (manifest_text sha content)"

definition stage :: "(bytes \<Rightarrow> string) \<Rightarrow> string \<Rightarrow> bytes \<Rightarrow> store \<Rightarrow> store" where
  "stage sha K content v = v(release_config_key K (sha content) \<mapsto> content,
     release_manifest_key K (sha content) \<mapsto> manifest_text sha content)"

text \<open>A store with the production value, the two pointers and the transaction replaced.\<close>

definition put ::
  "string \<Rightarrow> store \<Rightarrow> bytes option \<Rightarrow> bytes option \<Rightarrow> bytes option \<Rightarrow> bytes option \<Rightarrow> store" where
  "put K v a b c d = v(K := a, auxiliary_state_key K CURRENT_POINTER_SUFFIX := b,
     auxiliary_state_key K PREVIOUS_POINTER_SUFFIX := c, auxiliary_state_key K TRANSACTION_SUFFIX := d)"

lemma suffixes_distinct [simp]:
  "CURRENT_POINTER_SUFFIX \<noteq> PREVIOUS_POINTER_SUFFIX" "CURRENT_POINTER_SUFFIX \<noteq> TRANSACTION_SUFFIX"
  "PREVIOUS_POINTER_SUFFIX \<noteq> CURRENT_POINTER_SUFFIX" "PREVIOUS_POINTER_SUFFIX \<noteq> TRANSACTION_SUFFIX"
  "TRANSACTION_SUFFIX \<noteq> CURRENT_POINTER_SUFFIX" "TRANSACTION_SUFFIX \<noteq> PREVIOUS_POINTER_SUFFIX"
  by (simp_all add: key_defs)

lemma keys_apart [simp]:
  "auxiliary_state_key K CURRENT_POINTER_SUFFIX \<noteq> K" "K \<noteq> auxiliary_state_key K CURRENT_POINTER_SUFFIX"
  "auxiliary_state_key K PREVIOUS_POINTER_SUFFIX \<noteq> K" "K \<noteq> auxiliary_state_key K PREVIOUS_POINTER_SUFFIX"
  "auxiliary_state_key K TRANSACTION_SUFFIX \<noteq> K" "K \<noteq> auxiliary_state_key K TRANSACTION_SUFFIX"
  "release_config_key K i \<noteq> K" "K \<noteq> release_config_key K i"
  "release_manifest_key K i \<noteq> K" "K \<noteq> release_manifest_key K i"
  "release_config_key K i \<noteq> auxiliary_state_key K CURRENT_POINTER_SUFFIX"
  "release_config_key K i \<noteq> auxiliary_state_key K PREVIOUS_POINTER_SUFFIX"
  "release_config_key K i \<noteq> auxiliary_state_key K TRANSACTION_SUFFIX"
  "release_manifest_key K i \<noteq> auxiliary_state_key K CURRENT_POINTER_SUFFIX"
  "release_manifest_key K i \<noteq> auxiliary_state_key K PREVIOUS_POINTER_SUFFIX"
  "release_manifest_key K i \<noteq> auxiliary_state_key K TRANSACTION_SUFFIX"
  "auxiliary_state_key K CURRENT_POINTER_SUFFIX \<noteq> release_config_key K i"
  "auxiliary_state_key K PREVIOUS_POINTER_SUFFIX \<noteq> release_config_key K i"
  "auxiliary_state_key K TRANSACTION_SUFFIX \<noteq> release_config_key K i"
  "auxiliary_state_key K CURRENT_POINTER_SUFFIX \<noteq> release_manifest_key K i"
  "auxiliary_state_key K PREVIOUS_POINTER_SUFFIX \<noteq> release_manifest_key K i"
  "auxiliary_state_key K TRANSACTION_SUFFIX \<noteq> release_manifest_key K i"
  by (auto simp: key_defs)

lemma put_sel [simp]:
  "put K v a b c d K = a"
  "put K v a b c d (auxiliary_state_key K CURRENT_POINTER_SUFFIX) = b"
  "put K v a b c d (auxiliary_state_key K PREVIOUS_POINTER_SUFFIX) = c"
  "put K v a b c d (auxiliary_state_key K TRANSACTION_SUFFIX) = d"
  "put K v a b c d (release_config_key K i) = v (release_config_key K i)"
  "put K v a b c d (release_manifest_key K i) = v (release_manifest_key K i)"
  by (simp_all add: put_def)

lemma put_upd [simp]:
  "(put K v a b c d)(K := x) = put K v x b c d"
  "(put K v a b c d)(auxiliary_state_key K CURRENT_POINTER_SUFFIX := x) = put K v a x c d"
  "(put K v a b c d)(auxiliary_state_key K PREVIOUS_POINTER_SUFFIX := x) = put K v a b x d"
  "(put K v a b c d)(auxiliary_state_key K TRANSACTION_SUFFIX := x) = put K v a b c x"
  by (auto simp: put_def fun_eq_iff)

lemma put_self: "v = put K v (v K) (v (auxiliary_state_key K CURRENT_POINTER_SUFFIX))
    (v (auxiliary_state_key K PREVIOUS_POINTER_SUFFIX)) (v (auxiliary_state_key K TRANSACTION_SUFFIX))"
  by (auto simp: put_def fun_eq_iff)

lemma staged_put [simp]: "staged sha K x (put K v a b c d) = staged sha K x v"
  by (simp add: staged_def)

lemma stage_sel [simp]:
  "stage sha K x v K = v K"
  "stage sha K x v (auxiliary_state_key K CURRENT_POINTER_SUFFIX) = v (auxiliary_state_key K CURRENT_POINTER_SUFFIX)"
  "stage sha K x v (auxiliary_state_key K PREVIOUS_POINTER_SUFFIX) = v (auxiliary_state_key K PREVIOUS_POINTER_SUFFIX)"
  "stage sha K x v (auxiliary_state_key K TRANSACTION_SUFFIX) = v (auxiliary_state_key K TRANSACTION_SUFFIX)"
  by (simp_all add: stage_def)

lemma staged_stage [simp]: "staged sha K x (stage sha K x v)"
  by (simp add: stage_def staged_def)

text \<open>Staging one release keeps another, when their identifiers differ or their bytes agree.\<close>

lemma staged_stage_other: "staged sha K y v \<Longrightarrow> sha x = sha y \<longrightarrow> x = y \<Longrightarrow> staged sha K y (stage sha K x v)"
  by (auto simp: stage_def staged_def)

section \<open>The logic\<close>

text \<open>The errors a single write may end with: \<open>C\<close> bounds the annotation of an ambiguous one.\<close>

definition write_error :: "changed set \<Rightarrow> kv_error \<Rightarrow> bool" where
  "write_error C e \<longleftrightarrow> (case e of CommitUnknownError _ c \<Rightarrow> c \<in> C | _ \<Rightarrow> foreign e)"

lemma write_error_simps [simp]:
  "write_error C (CommitUnknownError m c) \<longleftrightarrow> c \<in> C" "write_error C (EscapedError m)"
  "write_error C (PublicationError m) \<longleftrightarrow> foreign (PublicationError m)"
  by (simp_all add: write_error_def)

lemma foreign_write_error: "foreign e \<Longrightarrow> write_error C e"
  by (cases e) simp_all

definition on_objects_only :: "string \<Rightarrow> (store \<Rightarrow> bool) \<Rightarrow> bool" where
  "on_objects_only K J \<longleftrightarrow> (\<forall>v i x. (J (v(release_config_key K i \<mapsto> x)) \<longleftrightarrow> J v)
     \<and> (J (v(release_manifest_key K i \<mapsto> x)) \<longleftrightarrow> J v))"

text \<open>
  What an error of a run must be true of: an annotation \<open>NotChanged\<close> means the production value is
  still \<open>live\<close>, \<open>Changed\<close> means it is the candidate \<open>new\<close>, and the two messages that report a
  completed compensation mean the state \<open>R\<close>.
\<close>

definition honest :: "string \<Rightarrow> bytes option \<Rightarrow> bytes \<Rightarrow> (store \<Rightarrow> bool) \<Rightarrow> kv_error \<Rightarrow> store \<Rightarrow> bool" where
  "honest K live new R e v \<longleftrightarrow> (case e of
     CommitUnknownError _ c \<Rightarrow> (c = NotChanged \<longrightarrow> v K = live) \<and> (c = Changed \<longrightarrow> v K = Some new)
   | PublicationError m \<Rightarrow> m = COMMIT_RESTORED \<or> m = FIRST_RELEASE_RESTORED \<longrightarrow> R v
   | EscapedError _ \<Rightarrow> True)"

lemma honest_simps [simp]:
  "honest K live new R (EscapedError m) v"
  "honest K live new R (CommitUnknownError m c) v \<longleftrightarrow>
     (c = NotChanged \<longrightarrow> v K = live) \<and> (c = Changed \<longrightarrow> v K = Some new)"
  by (simp_all add: honest_def)

lemma honest_foreign: "foreign e \<Longrightarrow> honest K live new R e v"
  by (cases e) (simp_all add: honest_def foreign_def)

lemma honest_write_error:
  "write_error C e \<Longrightarrow> (NotChanged \<in> C \<Longrightarrow> v K = live) \<Longrightarrow> (Changed \<in> C \<Longrightarrow> v K = Some new) \<Longrightarrow>
   honest K live new R e v"
  by (cases e) (auto simp: honest_foreign)

lemma foreign_message:
  "foreign (PublicationError m) \<longleftrightarrow> m \<noteq> COMMIT_RESTORED \<and> m \<noteq> FIRST_RELEASE_RESTORED"
  by (simp add: foreign_def)

lemmas restored_messages = COMMIT_RESTORED_def FIRST_RELEASE_RESTORED_def

lemma foreign_pure:
  "validate_release_id i = Inl e \<Longrightarrow> foreign e"
  "pointer_bytes i = Inl e \<Longrightarrow> foreign e"
  "keys_config keys i = Inl e \<Longrightarrow> foreign e"
  "keys_manifest keys i = Inl e \<Longrightarrow> foreign e"
  "release_id_for sha c = Inl e \<Longrightarrow> foreign e"
  "manifest_bytes sha c = Inl e \<Longrightarrow> foreign e"
  "parse_release_pointer x = Inl e \<Longrightarrow> foreign e"
  by (auto simp: validate_release_id_def pointer_bytes_def keys_config_def keys_manifest_def
      release_id_for_def manifest_bytes_def parse_release_pointer_def foreign_message restored_messages
      split: if_splits option.splits)

lemma foreign_parse_fields: "parse_fields kvs = Inl e \<Longrightarrow> foreign e"
proof -
  have idf: "parse_id_field b item = Inl e \<Longrightarrow> foreign e" for b item e
    by (auto simp: parse_id_field_def validate_release_id_def transaction_error_def foreign_message
        restored_messages split: json.splits if_splits)
  have ph: "parse_phase v raw = Inl e \<Longrightarrow> foreign e" for v raw e
    by (auto simp: parse_phase_def transaction_error_def foreign_message restored_messages
        split: json.splits if_splits)
  show "parse_fields kvs = Inl e \<Longrightarrow> foreign e"
    by (auto simp: parse_fields_def Let_def bindE_Inl_iff foreign_message restored_messages
        dest: idf ph split: if_splits)
qed

lemma foreign_parse_transaction: "parse_release_transaction x = Inl e \<Longrightarrow> foreign e"
  by (auto simp: parse_release_transaction_def transaction_error_def bindE_Inl_iff foreign_message
      restored_messages dest: foreign_parse_fields split: option.splits if_splits sum.splits json.splits)

text \<open>Two stores with the same production value, pointers and transaction.\<close>

definition agrees :: "string \<Rightarrow> store \<Rightarrow> store \<Rightarrow> bool" where
  "agrees K v' v \<longleftrightarrow> v' K = v K
     \<and> v' (auxiliary_state_key K CURRENT_POINTER_SUFFIX) = v (auxiliary_state_key K CURRENT_POINTER_SUFFIX)
     \<and> v' (auxiliary_state_key K PREVIOUS_POINTER_SUFFIX) = v (auxiliary_state_key K PREVIOUS_POINTER_SUFFIX)
     \<and> v' (auxiliary_state_key K TRANSACTION_SUFFIX) = v (auxiliary_state_key K TRANSACTION_SUFFIX)"

lemma agrees_simps [simp]:
  "agrees K v v" "agrees K (v(release_config_key K i \<mapsto> x)) v'' = agrees K v v''"
  "agrees K (v(release_manifest_key K i \<mapsto> x)) v'' = agrees K v v''"
  "agrees K (stage sha K x v) v'' = agrees K v v''"
  by (simp_all add: agrees_def stage_def)

lemma manifest_bytes_text: "c \<noteq> [] \<Longrightarrow> manifest_bytes sha c = Inr (manifest_text sha c)"
  by (simp add: manifest_bytes_def manifest_text_def)

context consistent_kv begin

definition vwp :: "(store \<Rightarrow> bool) \<Rightarrow> ('w, kv_error, 'a) action \<Rightarrow> ('a \<Rightarrow> store \<Rightarrow> bool)
    \<Rightarrow> (kv_error \<Rightarrow> store \<Rightarrow> bool) \<Rightarrow> store \<Rightarrow> bool" where
  "vwp J m Q E v \<longleftrightarrow> (J v \<longrightarrow> (\<forall>w. view w = v \<and> seen w \<subseteq> Collect J \<longrightarrow>
     wp m (\<lambda>a w'. seen w' \<subseteq> Collect J \<and> J (view w') \<and> Q a (view w'))
          (\<lambda>e w'. seen w' \<subseteq> Collect J \<and> J (view w') \<and> E e (view w')) w))"

lemma vwpI: "(\<And>w. J v \<Longrightarrow> view w = v \<Longrightarrow> seen w \<subseteq> Collect J \<Longrightarrow>
     wp m (\<lambda>a w'. seen w' \<subseteq> Collect J \<and> J (view w') \<and> Q a (view w'))
          (\<lambda>e w'. seen w' \<subseteq> Collect J \<and> J (view w') \<and> E e (view w')) w) \<Longrightarrow> vwp J m Q E v"
  by (simp add: vwp_def)

lemma vwp_return: "Q a v \<Longrightarrow> vwp J (return a) Q E v"
  by (simp add: vwp_def wp_return)

lemma vwp_raise: "E e v \<Longrightarrow> vwp J (raise e) Q E v"
  by (simp add: vwp_def wp_raise)

lemma vwp_bind: "vwp J m (\<lambda>a. vwp J (k a) Q E) E v \<Longrightarrow> vwp J (bindA m k) Q E v"
  by (auto simp: vwp_def wp_bindA intro: wp_mono)

lemma vwp_try: "vwp J m Q (\<lambda>e. vwp J (h e) Q E) v \<Longrightarrow> vwp J (try_catch m h) Q E v"
  by (auto simp: vwp_def wp_try_catch intro: wp_mono)

lemma vwp_lift: "(\<And>a. r = Inr a \<Longrightarrow> Q a v) \<Longrightarrow> (\<And>e. r = Inl e \<Longrightarrow> E e v) \<Longrightarrow> vwp J (lift_sum r) Q E v"
  by (auto simp: vwp_def wp_lift_sum split: sum.splits)

lemma vwp_mono:
  "vwp J m Q E v \<Longrightarrow> (\<And>a v'. J v' \<Longrightarrow> Q a v' \<Longrightarrow> Q' a v') \<Longrightarrow> (\<And>e v'. J v' \<Longrightarrow> E e v' \<Longrightarrow> E' e v') \<Longrightarrow>
   vwp J m Q' E' v"
  unfolding vwp_def by (blast intro: wp_mono)

lemma vwp_assume: "(J v \<Longrightarrow> vwp J m Q E v) \<Longrightarrow> vwp J m Q E v"
  by (simp add: vwp_def)

lemma vwp_if: "(b \<Longrightarrow> vwp J m Q E v) \<Longrightarrow> (\<not> b \<Longrightarrow> vwp J m' Q E v) \<Longrightarrow> vwp J (if b then m else m') Q E v"
  by simp

lemma vwp_option:
  "(x = None \<Longrightarrow> vwp J m Q E v) \<Longrightarrow> (\<And>a. x = Some a \<Longrightarrow> vwp J (k a) Q E v) \<Longrightarrow>
   vwp J (case x of None \<Rightarrow> m | Some a \<Rightarrow> k a) Q E v"
  by (cases x) simp_all

subsection \<open>Reading\<close>

lemma seen_grows: "seen w' \<subseteq> insert (view w') (seen w) \<Longrightarrow> seen w \<subseteq> Collect J \<Longrightarrow> J (view w') \<Longrightarrow> seen w' \<subseteq> Collect J"
  by auto

lemma vwp_open:
  assumes "Q () v" and "\<And>e. foreign e \<Longrightarrow> E e v"
  shows "vwp J (kv_open kv k) Q E v"
proof (intro vwpI wpI)
  fix w r w'
  assume w: "J v" "view w = v" "seen w \<subseteq> Collect J" and r: "kv_open kv k w = (Inr r, w')"
  show "seen w' \<subseteq> Collect J \<and> J (view w') \<and> Q r (view w')"
    using seen_grows [OF open_seen [OF r] w(3)] open_view [OF r] w assms(1) by simp
next
  fix w e w'
  assume w: "J v" "view w = v" "seen w \<subseteq> Collect J" and r: "kv_open kv k w = (Inl e, w')"
  show "seen w' \<subseteq> Collect J \<and> J (view w') \<and> E e (view w')"
    using seen_grows [OF open_seen [OF r] w(3)] open_view [OF r] w assms(2) [OF open_error [OF r]] by simp
qed

lemma vwp_read:
  assumes "Q (v k) v" and "\<And>e. foreign e \<Longrightarrow> E e v"
  shows "vwp J (kv_read kv k) Q E v"
proof (intro vwpI wpI)
  fix w x w'
  assume w: "J v" "view w = v" "seen w \<subseteq> Collect J" and r: "kv_read kv k w = (Inr x, w')"
  show "seen w' \<subseteq> Collect J \<and> J (view w') \<and> Q x (view w')"
    using seen_grows [OF read_seen [OF r] w(3)] read_view [OF r] read_value [OF r] w assms(1) by simp
next
  fix w e w'
  assume w: "J v" "view w = v" "seen w \<subseteq> Collect J" and r: "kv_read kv k w = (Inl e, w')"
  show "seen w' \<subseteq> Collect J \<and> J (view w') \<and> E e (view w')"
    using seen_grows [OF read_seen [OF r] w(3)] read_view [OF r] w assms(2) [OF read_error [OF r]] by simp
qed

lemma vwp_safe_read: "Q (v k) v \<Longrightarrow> (\<And>e. foreign e \<Longrightarrow> E e v) \<Longrightarrow> vwp J (safe_read kv k) Q E v"
  unfolding safe_read_def by (intro vwp_bind vwp_open vwp_read)

lemma vwp_wait: "Q () v \<Longrightarrow> vwp J (wait_between_read_backs kv d) Q E v"
  using wait_view wait_seen by (fastforce simp: vwp_def wp_def wait_between_read_backs_def)

lemma vwp_read_back:
  "(\<And>b. b \<longrightarrow> v k = Some c \<Longrightarrow> Q b v) \<Longrightarrow> (\<And>m. E (EscapedError m) v) \<Longrightarrow>
   vwp J (read_back kv k c) Q E v"
  unfolding read_back_def
  by (intro vwp_try vwp_bind vwp_read vwp_return)
    (auto split: kv_error.splits intro: vwp_return vwp_raise)

lemma vwp_read_back_loop:
  "(\<And>b. b \<longrightarrow> v k = Some c \<Longrightarrow> Q b v) \<Longrightarrow> (\<And>m. E (EscapedError m) v) \<Longrightarrow>
   vwp J (read_back_loop kv k c ds) Q E v"
proof (induction ds)
  case (Cons d ds)
  have "vwp J (bindA (read_back kv k c) (\<lambda>b. if b then return True else read_back_loop kv k c ds)) Q E v"
    by (intro vwp_bind vwp_read_back vwp_if vwp_return Cons.IH Cons.prems) simp_all
  then show ?case
    by (auto intro!: vwp_bind vwp_wait vwp_return)
qed (auto intro: vwp_return)

lemma vwp_matches:
  "(\<And>b. b \<longrightarrow> v k = Some c \<Longrightarrow> Q b v) \<Longrightarrow> (\<And>m. E (EscapedError m) v) \<Longrightarrow>
   vwp J (matches_after_write kv k c) Q E v"
  unfolding matches_after_write_def by (rule vwp_read_back_loop)

subsection \<open>One verified write\<close>

text \<open>
  \<open>writes J m k c C\<close>: the action \<open>m\<close> ends with \<open>c\<close> stored under \<open>k\<close>, or fails; a definite
  failure leaves the store as it was, any other may have written.
\<close>

definition writes :: "(store \<Rightarrow> bool) \<Rightarrow> ('w, kv_error, 'a) action \<Rightarrow> string \<Rightarrow> bytes \<Rightarrow> changed set \<Rightarrow> bool" where
  "writes J m k c C \<longleftrightarrow> (\<forall>v Q E. J (v(k \<mapsto> c)) \<longrightarrow> (\<forall>a. Q a (v(k \<mapsto> c))) \<longrightarrow>
     (\<forall>e v'. write_error C e \<longrightarrow> v' = v \<or> v' = v(k \<mapsto> c) \<longrightarrow> (definite e \<longrightarrow> v' = v) \<longrightarrow> E e v') \<longrightarrow>
     vwp J m Q E v)"

lemma vwp_writes:
  "writes J m k c C \<Longrightarrow> J (v(k \<mapsto> c)) \<Longrightarrow> (\<And>a. Q a (v(k \<mapsto> c))) \<Longrightarrow>
   (\<And>e v'. write_error C e \<Longrightarrow> v' = v \<or> v' = v(k \<mapsto> c) \<Longrightarrow> (definite e \<longrightarrow> v' = v) \<Longrightarrow> E e v') \<Longrightarrow>
   vwp J m Q E v"
  by (auto simp: writes_def)

lemma vwp_publish:
  assumes j: "J (v(k \<mapsto> c))" and q: "\<And>a. Q a (v(k \<mapsto> c))"
    and e: "\<And>e v'. write_error UNIV e \<Longrightarrow> v' = v \<or> v' = v(k \<mapsto> c) \<Longrightarrow> (definite e \<longrightarrow> v' = v) \<Longrightarrow> E e v'"
  shows "vwp J (kv_publish kv k c) Q E v"
proof (intro vwpI wpI)
  fix w a w'
  assume w: "J v" "view w = v" "seen w \<subseteq> Collect J" and r: "kv_publish kv k c w = (Inr a, w')"
  show "seen w' \<subseteq> Collect J \<and> J (view w') \<and> Q a (view w')"
    using seen_grows [OF publish_seen [OF r] w(3)] publish_accepted [OF r] w j q by simp
next
  fix w err w'
  assume w: "J v" "view w = v" "seen w \<subseteq> Collect J" and r: "kv_publish kv k c w = (Inl err, w')"
  have v': "view w' = v \<or> view w' = v(k \<mapsto> c)" using publish_other [OF r] w by simp
  have d: "definite err \<longrightarrow> view w' = v" "write_error UNIV err"
    using publish_rejected publish_error r w by (cases err; auto)+
  have "J (view w')" using v' w j by auto
  then show "seen w' \<subseteq> Collect J \<and> J (view w') \<and> E err (view w')"
    using seen_grows [OF publish_seen [OF r] w(3)] e [OF d(2) v' d(1)] by simp
qed

lemma writes_publish_verified: "writes J (publish_verified sha kv k c) k c UNIV"
  unfolding writes_def
proof (intro allI impI)
  fix v and Q :: "json \<Rightarrow> store \<Rightarrow> bool" and E :: "kv_error \<Rightarrow> store \<Rightarrow> bool"
  assume j: "J (v(k \<mapsto> c))" and q: "\<forall>a. Q a (v(k \<mapsto> c))"
    and e: "\<forall>e v'. write_error UNIV e \<longrightarrow> v' = v \<or> v' = v(k \<mapsto> c) \<longrightarrow> (definite e \<longrightarrow> v' = v) \<longrightarrow> E e v'"
  let ?confirm = "\<lambda>(result :: json, verified). if verified then return result
      else bindA (matches_after_write kv k c) (\<lambda>match. if match then return result
        else raise (commit_unknown ''remote publication state is unknown after read-back verification''))"
  have confirm: "vwp J (?confirm (a, b)) Q E (v(k \<mapsto> c))" for a b
    using q e by (auto intro!: vwp_if vwp_return vwp_bind vwp_matches vwp_raise simp: commit_unknown_def)
  have handler: "vwp J (case err of EscapedError _ \<Rightarrow> raise err
      | _ \<Rightarrow> bindA (matches_after_write kv k c) (\<lambda>match.
          if match then return (recovered_write_result sha k c, True) else raise err))
      (\<lambda>a. vwp J (?confirm a) Q E) E v'"
    if "write_error UNIV err" "v' = v \<or> v' = v(k \<mapsto> c)" "definite err \<longrightarrow> v' = v" for err v'
  proof -
    have same: "v' k = Some c \<Longrightarrow> v' = v(k \<mapsto> c)" using that(2) by auto
    have err: "E err v'" using e that by blast
    have esc: "E (EscapedError m) v'" for m using e that by auto
    have "vwp J (bindA (matches_after_write kv k c) (\<lambda>match.
          if match then return (recovered_write_result sha k c, True) else raise err))
      (\<lambda>a. vwp J (?confirm a) Q E) E v'"
    proof (intro vwp_bind vwp_matches vwp_if vwp_return vwp_raise)
      fix b assume "b \<longrightarrow> v' k = Some c" "b"
      then show "vwp J (?confirm (recovered_write_result sha k c, True)) Q E v'"
        using confirm [of "recovered_write_result sha k c" True] same by simp
    qed (use err esc in auto)
    then show ?thesis using err by (auto intro: vwp_raise split: kv_error.splits)
  qed
  show "vwp J (publish_verified sha kv k c) Q E v"
    unfolding publish_verified_def
  proof (intro vwp_bind vwp_open)
    show "vwp J (try_catch (bindA (kv_publish kv k c) (\<lambda>result. return (result, False)))
        (\<lambda>e. case e of EscapedError _ \<Rightarrow> raise e
          | _ \<Rightarrow> bindA (matches_after_write kv k c) (\<lambda>match.
              if match then return (recovered_write_result sha k c, True) else raise e)))
        (\<lambda>a. vwp J (?confirm a) Q E) E v"
      by (intro vwp_try vwp_bind vwp_publish vwp_return j confirm handler) auto
  qed (use e foreign_write_error in auto)
qed

lemma writes_on_unknown: "writes J m k c UNIV \<Longrightarrow> writes J (on_unknown x z m) k c {z}"
  unfolding on_unknown_def writes_def [of J "try_catch m h" for h]
  by (intro allI impI vwp_try, erule vwp_writes)
    (auto split: kv_error.splits intro!: vwp_raise)

lemma writes_bind: "writes J m k c C \<Longrightarrow> writes J (bindA m (\<lambda>_. return a)) k c C"
  unfolding writes_def [of J "bindA m h" for h]
  by (intro allI impI vwp_bind, erule vwp_writes) (auto intro: vwp_return)

lemma writes_transaction_write:
  "writes J (transaction_write sha kv (release_keys_for K) c z) (auxiliary_state_key K TRANSACTION_SUFFIX) c {z}"
  unfolding transaction_write_def
  by (simp add: writes_on_unknown writes_bind writes_publish_verified)

lemma writes_restore_pointer:
  "pred_option is_release_id i \<Longrightarrow>
   writes J (restore_pointer sha kv k i) k (case i of None \<Rightarrow> EMPTY_POINTER | Some s \<Rightarrow> s @ [CHR 0x0A]) UNIV"
  unfolding restore_pointer_def
  using writes_bind [OF writes_publish_verified]
  by (cases i) (auto simp: lift_sum_def bindA_def [of "\<lambda>w. (Inr z, w)" for z])

subsection \<open>Checks that read\<close>

lemma vwp_value_differs:
  "Q (v k \<noteq> Some c) v \<Longrightarrow> (\<And>e. foreign e \<Longrightarrow> E e v) \<Longrightarrow> vwp J (value_differs kv k c) Q E v"
  unfolding value_differs_def by (intro vwp_bind vwp_safe_read vwp_return)

lemma vwp_read_pointer:
  "(\<And>i. parse_release_pointer (v k) = Inr i \<Longrightarrow> Q i v) \<Longrightarrow> (\<And>e. foreign e \<Longrightarrow> E e v) \<Longrightarrow>
   vwp J (read_pointer kv k) Q E v"
  unfolding read_pointer_def by (intro vwp_bind vwp_safe_read vwp_lift) (auto dest: foreign_pure)

lemma vwp_pointer_differs:
  "(\<And>j. parse_release_pointer (v k) = Inr j \<Longrightarrow> Q (j \<noteq> i) v) \<Longrightarrow> (\<And>e. foreign e \<Longrightarrow> E e v) \<Longrightarrow>
   vwp J (pointer_differs kv k i) Q E v"
  unfolding pointer_differs_def by (intro vwp_bind vwp_read_pointer vwp_return)

lemma vwp_read_transaction:
  "(\<And>t. parse_release_transaction (v k) = Inr t \<Longrightarrow> Q t v) \<Longrightarrow> (\<And>e. foreign e \<Longrightarrow> E e v) \<Longrightarrow>
   vwp J (bindA (safe_read kv k) (\<lambda>raw. lift_sum (parse_release_transaction raw))) Q E v"
  by (intro vwp_bind vwp_safe_read vwp_lift) (auto dest: foreign_parse_transaction)

text \<open>The verification before an intent is finalised.\<close>

lemma vwp_verification:
  assumes "\<And>b. \<not> b \<longrightarrow> v k = Some c \<and> parse_release_pointer (v k1) = Inr i
      \<and> parse_release_pointer (v k2) = Inr j \<Longrightarrow> Q b v"
    and "\<And>e. foreign e \<Longrightarrow> E e v"
  shows "vwp J (any_of [value_differs kv k c, pointer_differs kv k1 i, pointer_differs kv k2 j]) Q E v"
  unfolding any_of.simps
  by (intro vwp_bind vwp_value_differs vwp_pointer_differs vwp_if vwp_return) (use assms in auto)

text \<open>A predecessor passes its check only when both its objects are stored.\<close>

lemma vwp_predecessor_check:
  assumes q: "(\<And>i. from = Some i \<Longrightarrow> \<exists>c. c \<noteq> [] \<and> sha c = i \<and> staged sha K c v) \<Longrightarrow> Q () v"
    and e: "\<And>e. foreign e \<Longrightarrow> E e v"
    and i: "pred_option is_release_id from"
  shows "vwp J (predecessor_check sha kv (release_keys_for K) from) Q E v"
proof (cases "from")
  case (Some i)
  have "vwp J (predecessor_unavailable sha kv (release_keys_for K) i)
      (\<lambda>bad v'. v' = v \<and> (\<not> bad \<longrightarrow> (\<exists>c. c \<noteq> [] \<and> sha c = i \<and> staged sha K c v))) E v"
    unfolding predecessor_unavailable_def
    by (intro vwp_bind vwp_lift vwp_safe_read vwp_option vwp_if vwp_return)
      (use i Some e in \<open>auto simp: staged_def manifest_bytes_text dest: foreign_pure\<close>)
  then show ?thesis
    using Some q e
    by (auto simp: predecessor_check_def foreign_message restored_messages
        intro!: vwp_bind vwp_if vwp_return vwp_raise elim!: vwp_mono)
qed (use q in \<open>simp add: predecessor_check_def vwp_return\<close>)

subsection \<open>Staging\<close>

lemma vwp_ensure_object:
  assumes "J (v(k \<mapsto> c))" and "v k = None \<or> v k = Some c \<Longrightarrow> Q () (v(k \<mapsto> c))"
    and "\<And>e v'. write_error UNIV e \<Longrightarrow> v' = v \<or> v' = v(k \<mapsto> c) \<Longrightarrow> E e v'"
    and "foreign (PublicationError m)"
  shows "vwp J (ensure_object sha kv k c (v k) m) Q E v"
  unfolding ensure_object_def
proof (intro vwp_option vwp_bind vwp_writes [OF writes_publish_verified] vwp_if vwp_return vwp_raise)
  fix x assume "v k = Some x" "x = c"
  then have "v(k \<mapsto> c) = v" by auto
  then show "Q () v" using assms(2) \<open>v k = Some x\<close> \<open>x = c\<close> by simp
qed (use assms in auto)

lemma vwp_ensure_immutable_release:
  assumes id: "is_release_id (sha c)" and J: "on_objects_only K J"
    and q: "c \<noteq> [] \<Longrightarrow> Q (sha c) (stage sha K c v)"
    and e: "\<And>e v'. write_error {NotChanged} e \<Longrightarrow> agrees K v' v \<Longrightarrow> E e v'"
  shows "vwp J (ensure_immutable_release sha kv (release_keys_for K) c) Q E v"
proof (rule vwp_assume)
  assume v: "J v"
  let ?ck = "release_config_key K (sha c)" and ?mk = "release_manifest_key K (sha c)"
  define E' where "E' = (\<lambda>e v'. if \<exists>m z. e = CommitUnknownError m z
    then E (CommitUnknownError ''immutable release staging state is unknown'' NotChanged) v' else E e v')"
  have jc: "J (v(?ck \<mapsto> c))" and jm: "J (v(?ck \<mapsto> c, ?mk \<mapsto> x))" for x
    using J v by (simp_all add: on_objects_only_def)
  have err: "E' e v'" if "write_error UNIV e" "agrees K v' v" for e v'
    using that e [of e v'] e [OF _ that(2), of "CommitUnknownError ''immutable release staging state is unknown'' NotChanged"]
    unfolding E'_def by (cases e) auto
  have stage: "vwp J (bindA (ensure_object sha kv ?ck c (v ?ck) ''immutable production release key contains different bytes'')
      (\<lambda>_. bindA (lift_sum (manifest_bytes sha c)) (\<lambda>expected.
       bindA (lift_sum (keys_manifest (release_keys_for K) (sha c))) (\<lambda>mk.
       bindA (safe_read kv mk) (\<lambda>existing.
         ensure_object sha kv mk expected existing
           ''immutable production release manifest does not match release bytes'')))))
      (\<lambda>_ v'. Q (sha c) v') E' v" if "c \<noteq> []"
  proof (intro vwp_bind vwp_ensure_object vwp_lift)
    fix expected mk
    assume "manifest_bytes sha c = Inr expected" "keys_manifest (release_keys_for K) (sha c) = Inr mk"
    then have x: "expected = manifest_text sha c" "mk = ?mk" using that id by (simp_all add: manifest_bytes_text)
    show "vwp J (safe_read kv mk) (\<lambda>existing. vwp J (ensure_object sha kv mk expected existing
        ''immutable production release manifest does not match release bytes'') (\<lambda>_ v'. Q (sha c) v') E') E'
        (v(?ck \<mapsto> c))"
      unfolding x
    proof (intro vwp_safe_read vwp_ensure_object)
      show "J (v(?ck \<mapsto> c, ?mk \<mapsto> manifest_text sha c))" by (rule jm)
      show "Q (sha c) (v(?ck \<mapsto> c, ?mk \<mapsto> manifest_text sha c))" using q that by (simp add: stage_def)
    qed (auto intro!: err simp: foreign_message restored_messages foreign_write_error agrees_def)
  qed (use that id jc in \<open>auto intro!: err simp: agrees_def manifest_bytes_text foreign_message restored_messages\<close>)
  show "vwp J (ensure_immutable_release sha kv (release_keys_for K) c) Q E v"
    unfolding ensure_immutable_release_def
  proof (intro vwp_bind vwp_lift vwp_safe_read)
    fix i k assume "release_id_for sha c = Inr i" "keys_config (release_keys_for K) i = Inr k"
    then have x: "i = sha c" "k = ?ck" and c: "c \<noteq> []" using id by auto
    show "vwp J (on_unknown ''immutable release staging state is unknown'' NotChanged
       (bindA (ensure_object sha kv k c (v k) ''immutable production release key contains different bytes'') (\<lambda>_.
        bindA (lift_sum (manifest_bytes sha c)) (\<lambda>expected.
        bindA (lift_sum (keys_manifest (release_keys_for K) i)) (\<lambda>mk.
        bindA (safe_read kv mk) (\<lambda>existing. ensure_object sha kv mk expected existing
           ''immutable production release manifest does not match release bytes''))))))
       (\<lambda>_. vwp J (return i) Q E) E v"
      unfolding x on_unknown_def
      by (rule vwp_try, rule vwp_mono [OF stage [OF c]])
        (auto intro: vwp_return vwp_raise simp: E'_def split: kv_error.splits)
  qed (auto intro!: e foreign_write_error dest: foreign_pure)
qed

end

end
