(* ===== verification/BundleCommit.thy ===== *)
theory BundleCommit
  imports BundleState
begin

text \<open>
  The operations of \<^verbatim>\<open>release_bundle.py\<close> that change a release, in the logic of \<open>BundleState\<close>: the
  final phases, recovery, compensation, and the two activations.  Every rule is stated for the same
  invariant \<open>on_path\<close> and the same error condition \<open>honest\<close>.
\<close>

definition ptr :: "string option \<Rightarrow> bytes option" where
  "ptr i = Some (case i of None \<Rightarrow> EMPTY_POINTER | Some s \<Rightarrow> s @ [CHR 0x0A])"

lemma parse_ptr [simp]: "pred_option is_release_id i \<Longrightarrow> parse_release_pointer (ptr i) = Inr i"
  by (cases i) (simp_all add: ptr_def parse_pointer_bytes)

lemma ptr_simps: "Some EMPTY_POINTER = ptr None" "Some (i @ [CHR 0x0A]) = ptr (Some i)"
  by (simp_all add: ptr_def)

lemma parse_transaction_ptr_None [simp]: "parse_release_transaction (ptr None) = Inr None"
  by (simp add: ptr_def)

text \<open>The classification of the release state that a store holds.\<close>

definition inspect_view :: "(bytes \<Rightarrow> string) \<Rightarrow> string \<Rightarrow> store \<Rightarrow> string" where
  "inspect_view sha K v =
     (case (parse_release_pointer (v (auxiliary_state_key K CURRENT_POINTER_SUFFIX)),
            parse_release_pointer (v (auxiliary_state_key K PREVIOUS_POINTER_SUFFIX)),
            parse_release_transaction (v (auxiliary_state_key K TRANSACTION_SUFFIX))) of
       (Inr c, Inr p, Inr t) \<Rightarrow> inspect_release_state (map_option sha (v K)) c p t
     | _ \<Rightarrow> ''inconsistent'')"

lemma inspect_put [simp]:
  "parse_release_pointer b = Inr i \<Longrightarrow> parse_release_pointer c = Inr j \<Longrightarrow>
   parse_release_transaction d = Inr t \<Longrightarrow>
   inspect_view sha K (put K v a b c d) = inspect_release_state (map_option sha a) i j t"
  by (simp add: inspect_view_def)

text \<open>
  The stores on the way from the production value \<open>live\<close> to the candidate \<open>new\<close>: production is one of
  the two, and under \<open>H\<close> the release state is never inconsistent.
\<close>

definition on_path ::
  "string \<Rightarrow> (bytes \<Rightarrow> string) \<Rightarrow> bytes option \<Rightarrow> bytes \<Rightarrow> bool \<Rightarrow> store \<Rightarrow> bool" where
  "on_path K sha live new H v \<longleftrightarrow>
     (v K = live \<or> v K = Some new) \<and> (H \<longrightarrow> inspect_view sha K v \<noteq> ''inconsistent'')"

lemma on_path_agrees:
  assumes "agrees K v' v"
  shows "on_path K sha live new H v' = on_path K sha live new H v"
proof -
  have "inspect_view sha K v' = inspect_view sha K v"
    using assms unfolding agrees_def inspect_view_def by (elim conjE) (simp split: sum.splits)
  then show ?thesis using assms by (simp add: agrees_def on_path_def)
qed

lemma on_path_objects: "on_objects_only K (on_path K sha live new H)"
  unfolding on_objects_only_def by (intro allI conjI on_path_agrees) simp_all

lemma wf_phase: "wf_transaction t \<Longrightarrow> phase_index p \<noteq> None \<Longrightarrow> wf_transaction (t\<lparr>phase := p\<rparr>)"
  by (simp add: wf_transaction_def)

lemma parse_text [simp]: "wf_transaction t \<Longrightarrow> parse_release_transaction (Some (transaction_text t)) = Inr (Some t)"
  by (rule parse_transaction_text)

lemma wf_ids:
  "wf_transaction t \<Longrightarrow> is_release_id (to_release_id t)"
  "wf_transaction t \<Longrightarrow> pred_option is_release_id (from_release_id t)"
  "wf_transaction t \<Longrightarrow> pred_option is_release_id (previous_release_id t)"
  "wf_transaction t \<Longrightarrow> from_release_id t \<noteq> Some (to_release_id t)"
  by (simp_all add: wf_transaction_def)

text \<open>
  With a pending intent the state is recoverable once the candidate is live and the pointers are ones
  the commit passes through, ambiguous while the predecessor is, and healthy when the intent is
  cleared after the pointers.
\<close>

lemma inspect_committing:
  "i \<in> {None, from_release_id t, Some (to_release_id t)} \<Longrightarrow> j \<in> {previous_release_id t, from_release_id t} \<Longrightarrow>
   inspect_release_state (Some (to_release_id t)) i j (Some t) \<noteq> ''inconsistent''"
  by (simp add: inspect_release_state_def)

lemma inspect_before_activation:
  "a = from_release_id t \<Longrightarrow> a \<noteq> Some (to_release_id t) \<Longrightarrow> inspect_release_state a i j (Some t) \<noteq> ''inconsistent''"
  by (simp add: inspect_release_state_def)

lemma inspect_settled:
  "j \<noteq> Some i \<Longrightarrow> inspect_release_state (Some i) (Some i) j None \<noteq> ''inconsistent''"
  by (simp add: inspect_release_state_def)

lemma advance_phase:
  "wf_transaction t \<Longrightarrow> phase_index (phase t) = Some a \<Longrightarrow> phase_index p = Some b \<Longrightarrow> a \<le> b \<Longrightarrow>
   advance_release_transaction t p = Inr (t\<lparr>phase := p\<rparr>)"
  by (auto simp: advance_release_transaction_def validate_phase_def)

text \<open>What a successful run leaves: the candidate live, all names in agreement, no intent.\<close>

definition complete ::"(bytes \<Rightarrow> string) \<Rightarrow> string \<Rightarrow> bytes \<Rightarrow> string option \<Rightarrow> store \<Rightarrow> bool" where
  "complete sha K new prev v \<longleftrightarrow> v K = Some new
     \<and> parse_release_pointer (v (auxiliary_state_key K CURRENT_POINTER_SUFFIX)) = Inr (Some (sha new))
     \<and> parse_release_pointer (v (auxiliary_state_key K PREVIOUS_POINTER_SUFFIX)) = Inr prev
     \<and> parse_release_transaction (v (auxiliary_state_key K TRANSACTION_SUFFIX)) = Inr None
     \<and> staged sha K new v"

context consistent_kv begin

abbreviation (input) keys :: "string \<Rightarrow> release_keys" where "keys K \<equiv> release_keys_for K"

lemma writes_write_phase:
  assumes "wf_transaction t" and "advance_release_transaction t p = Inr t'"
  shows "writes J (write_phase sha kv (keys K) t p z) (auxiliary_state_key K TRANSACTION_SUFFIX)
    (transaction_text t') {z}"
  using writes_transaction_write [of J sha K "transaction_text t'" z] serialize_wf advance_wf [OF assms]
  by (simp add: write_phase_def assms(2) lift_sum_def bindA_def)

text \<open>\<^verbatim>\<open>phase_reached\<close> decides whether the phase write is still to be made.\<close>

lemma vwp_write_phase_unless_reached:
  assumes "wf_transaction t" and "phase_index p = Some b"
    and "Q () v"
    and "J (v(auxiliary_state_key K TRANSACTION_SUFFIX \<mapsto> transaction_text (t\<lparr>phase := p\<rparr>)))"
    and "Q () (v(auxiliary_state_key K TRANSACTION_SUFFIX \<mapsto> transaction_text (t\<lparr>phase := p\<rparr>)))"
    and "\<And>e v'. write_error {Changed} e \<Longrightarrow>
      v' = v \<or> v' = v(auxiliary_state_key K TRANSACTION_SUFFIX \<mapsto> transaction_text (t\<lparr>phase := p\<rparr>)) \<Longrightarrow> E e v'"
  shows "vwp J (write_phase_unless_reached sha kv (keys K) t p) Q E v"
proof -
  obtain a where a: "phase_index (phase t) = Some a" using assms(1) by (auto simp: wf_transaction_def)
  have r: "phase_reached t p = Inr (b \<le> a)" using a assms(2) by (simp add: phase_reached_def validate_phase_def)
  have "vwp J (write_phase sha kv (keys K) t p Changed) Q E v" if "\<not> b \<le> a"
    by (rule vwp_writes [OF writes_write_phase [OF assms(1) advance_phase [OF assms(1) a assms(2)]]])
      (use that assms in auto)
  then show ?thesis
    unfolding write_phase_unless_reached_def r
    by (intro vwp_bind vwp_lift vwp_if vwp_return) (use assms(3) in auto)
qed

subsection \<open>The final phases\<close>

lemma vwp_finish_transaction:
  assumes t: "wf_transaction t" "phase t = ''prepare''" "to_release_id t = sha new"
    and b: "parse_release_pointer b = Inr (Some (sha new))" and c: "parse_release_pointer c = Inr (from_release_id t)"
    and q: "Q () (put K v (Some new) b c (ptr None))"
  shows "vwp (on_path K sha live new H) (finish_transaction sha kv (keys K) new t m) Q (honest K live new R)
    (put K v (Some new) b c d)"
proof -
  let ?J = "on_path K sha live new H" and ?E = "honest K live new R"
  let ?s = "\<lambda>d. put K v (Some new) b c d"
  have adv: "advance_release_transaction t p = Inr (t\<lparr>phase := p\<rparr>)" if "phase_index p \<noteq> None" for p
    using advance_phase [OF t(1)] t(2) that by auto
  have wf: "wf_transaction (t\<lparr>phase := p\<rparr>)" if "phase_index p \<noteq> None" for p using t(1) that by (rule wf_phase)
  have jt: "?J (?s (Some (transaction_text (t\<lparr>phase := p\<rparr>))))" if "phase_index p \<noteq> None" for p
    using b c wf [OF that] inspect_committing [of "Some (sha new)" "t\<lparr>phase := p\<rparr>" "from_release_id t"] t(3)
    by (simp add: on_path_def)
  have jn: "?J (?s (ptr None))"
    using b c inspect_settled [of "from_release_id t" "sha new"] t wf_ids(4) [OF t(1)]
    by (simp add: on_path_def)
  have err: "?E e (?s d)" if "write_error {Changed} e" for e d
    using that by (rule honest_write_error) auto
  have last: "vwp ?J (transaction_write sha kv (keys K) EMPTY_POINTER Changed) Q ?E (?s d)" for d
    by (rule vwp_writes [OF writes_transaction_write]) (auto simp: ptr_simps jn q intro: err)
  show ?thesis
    unfolding finish_transaction_def
    by (intro vwp_bind vwp_writes [OF writes_write_phase [OF t(1) adv]] vwp_verification
        vwp_if vwp_raise)
      (auto simp: jt b c t(3) intro: err last honest_foreign)
qed

subsection \<open>Recovery\<close>

subsection \<open>Recovery\<close>

lemma vwp_on_unknown:
  "vwp J m Q (\<lambda>e v'. if \<exists>x c. e = CommitUnknownError x c then E (CommitUnknownError y z) v' else E e v') v \<Longrightarrow>
   vwp J (on_unknown y z m) Q E v"
  unfolding on_unknown_def
  by (rule vwp_try, erule vwp_mono) (auto intro: vwp_raise split: kv_error.splits)

lemma honest_relabelled:
  "write_error UNIV e \<Longrightarrow> (z = NotChanged \<Longrightarrow> v K = live) \<Longrightarrow> (z = Changed \<Longrightarrow> v K = Some new) \<Longrightarrow>
   if \<exists>x c. e = CommitUnknownError x c then honest K live new R (CommitUnknownError y z) v
   else honest K live new R e v"
  by (cases e) (auto simp: honest_foreign)

lemma vwp_resume_tail:
  assumes t: "wf_transaction t" "to_release_id t = sha new"
    and b: "parse_release_pointer b = Inr (Some (sha new))" and c: "parse_release_pointer c = Inr (from_release_id t)"
    and q: "Q (Some r) (put K v (Some new) b c (ptr None))"
  shows "vwp (on_path K sha live new H)
    (bindA (write_phase_unless_reached sha kv (keys K) t ''verify'') (\<lambda>_.
     bindA (any_of [value_differs kv K new,
        pointer_differs kv (auxiliary_state_key K PREVIOUS_POINTER_SUFFIX) (from_release_id t),
        pointer_differs kv (auxiliary_state_key K CURRENT_POINTER_SUFFIX) (Some (sha new))]) (\<lambda>bad.
     if bad then raise (CommitUnknownError m ChangeUnknown)
     else bindA (write_phase_unless_reached sha kv (keys K) t ''finalize'') (\<lambda>_.
          bindA (transaction_write sha kv (keys K) EMPTY_POINTER Changed) (\<lambda>_. return (Some r))))))
    Q (honest K live new R) (put K v (Some new) b c d)"
proof -
  let ?J = "on_path K sha live new H" and ?E = "honest K live new R"
  let ?s = "\<lambda>d. put K v (Some new) b c d"
  have jt: "?J (?s (Some (transaction_text (t\<lparr>phase := p\<rparr>))))" if "phase_index p \<noteq> None" for p
    using b c wf_phase [OF t(1) that] inspect_committing [of "Some (sha new)" "t\<lparr>phase := p\<rparr>" "from_release_id t"] t(2)
    by (simp add: on_path_def)
  have jn: "?J (?s (ptr None))"
    using b c inspect_settled [of "from_release_id t" "sha new"] t wf_ids(4) [OF t(1)]
    by (simp add: on_path_def)
  have err: "?E e (?s d)" if "write_error {Changed} e" for e d
    using that by (rule honest_write_error) auto
  have clear: "vwp ?J (transaction_write sha kv (keys K) EMPTY_POINTER Changed)
      (\<lambda>_. vwp ?J (return (Some r)) Q ?E) ?E (?s d)" for d
    by (rule vwp_writes [OF writes_transaction_write]) (auto simp: ptr_simps jn q intro: err vwp_return)
  have fin: "vwp ?J (write_phase_unless_reached sha kv (keys K) t ''finalize'')
      (\<lambda>_. vwp ?J (bindA (transaction_write sha kv (keys K) EMPTY_POINTER Changed) (\<lambda>_. return (Some r))) Q ?E)
      ?E (?s d)" for d
    by (rule vwp_write_phase_unless_reached [OF t(1), where b = 3])
      (auto simp: jt intro: err clear vwp_bind)
  have check: "vwp ?J (any_of [value_differs kv K new,
        pointer_differs kv (auxiliary_state_key K PREVIOUS_POINTER_SUFFIX) (from_release_id t),
        pointer_differs kv (auxiliary_state_key K CURRENT_POINTER_SUFFIX) (Some (sha new))])
      (\<lambda>bad. vwp ?J (if bad then raise (CommitUnknownError m ChangeUnknown)
         else bindA (write_phase_unless_reached sha kv (keys K) t ''finalize'') (\<lambda>_.
          bindA (transaction_write sha kv (keys K) EMPTY_POINTER Changed) (\<lambda>_. return (Some r)))) Q ?E)
      ?E (?s d)" for d
    by (rule vwp_verification, intro vwp_if vwp_raise vwp_bind fin) (simp_all add: honest_foreign)
  show ?thesis
    by (rule vwp_bind, rule vwp_write_phase_unless_reached [OF t(1), where b = 2])
      (auto simp: jt intro: err check vwp_bind)
qed

lemma vwp_resume_transaction:
  assumes t: "wf_transaction t" "to_release_id t = sha new" "parse_release_transaction d = Inr (Some t)"
    and b: "parse_release_pointer b = Inr i" "i \<in> {None, from_release_id t, Some (sha new)}"
    and c: "parse_release_pointer c = Inr j" "j \<in> {previous_release_id t, from_release_id t}"
    and q: "\<And>r b c. parse_release_pointer b = Inr (Some (sha new)) \<Longrightarrow>
      parse_release_pointer c = Inr (from_release_id t) \<Longrightarrow>
      r = \<lparr>res_status = ''published'', res_release_id = sha new, res_previous_id = from_release_id t,
        res_bytes = length new, res_sha256 = sha new, res_production_changed = True,
        res_recovered_transaction = Some True, res_first_release = Some (from_release_id t = None),
        res_migrated_current_pointer = None\<rparr> \<Longrightarrow> Q (Some r) (put K v (Some new) b c (ptr None))"
  shows "vwp (on_path K sha live new H) (resume_transaction sha kv (keys K) new i j t) Q
    (honest K live new R) (put K v (Some new) b c d)"
proof -
  let ?J = "on_path K sha live new H" and ?E = "honest K live new R"
  let ?s = "\<lambda>b c. put K v (Some new) b c d"
  note ids = wf_ids [OF t(1)]
  have jc: "?J (?s b' c')" if "parse_release_pointer b' = Inr i'" "i' \<in> {i, Some (sha new)}"
      "parse_release_pointer c' = Inr j'" "j' \<in> {j, from_release_id t}" for b' c' i' j'
    using that t b c inspect_committing [of i' t j'] by (auto simp: on_path_def)
  have err: "if \<exists>x c. e = CommitUnknownError x c then ?E (CommitUnknownError m Changed) (?s b' c') else ?E e (?s b' c')"
    if "write_error UNIV e" for e b' c' m
    by (rule honest_relabelled [OF that]) simp_all
  let ?E' = "\<lambda>e v'. if \<exists>x c. e = CommitUnknownError x c
    then ?E (CommitUnknownError ''release transaction pointer repair state is unknown'' Changed) v' else ?E e v'"
  define M where "M = (\<lambda>v'. \<exists>b c. v' = ?s b c \<and> parse_release_pointer b = Inr (Some (sha new))
    \<and> parse_release_pointer c = Inr (from_release_id t))"
  have current: "vwp ?J (if i \<noteq> Some (sha new) then restore_pointer sha kv (auxiliary_state_key K CURRENT_POINTER_SUFFIX)
      (Some (sha new)) else return ()) (\<lambda>_. M) ?E' (?s b c')"
    if "parse_release_pointer c' = Inr (from_release_id t)" for c'
  proof (rule vwp_if)
    assume "i \<noteq> Some (sha new)"
    show "vwp ?J (restore_pointer sha kv (auxiliary_state_key K CURRENT_POINTER_SUFFIX) (Some (sha new)))
        (\<lambda>_. M) ?E' (?s b c')"
    proof (rule vwp_writes [OF writes_restore_pointer])
      show "pred_option is_release_id (Some (sha new))" using ids t(2) by simp
      have p: "parse_release_pointer (ptr (Some (sha new))) = Inr (Some (sha new))" using ids t(2) by simp
      show "?J ((?s b c')(auxiliary_state_key K CURRENT_POINTER_SUFFIX \<mapsto>
          (case Some (sha new) of None \<Rightarrow> EMPTY_POINTER | Some s \<Rightarrow> s @ [CHR 0x0A])))"
        using jc [OF p _ that] by (simp add: ptr_simps)
      show "M ((?s b c')(auxiliary_state_key K CURRENT_POINTER_SUFFIX \<mapsto>
          (case Some (sha new) of None \<Rightarrow> EMPTY_POINTER | Some s \<Rightarrow> s @ [CHR 0x0A])))"
        using p that by (auto simp: M_def ptr_simps)
    qed (use err in auto)
  next
    assume "\<not> i \<noteq> Some (sha new)"
    then show "vwp ?J (return ()) (\<lambda>_. M) ?E' (?s b c')"
      using b(1) that by (intro vwp_return) (auto simp: M_def)
  qed
  have both: "vwp ?J (bindA (if j \<noteq> from_release_id t then restore_pointer sha kv
        (auxiliary_state_key K PREVIOUS_POINTER_SUFFIX) (from_release_id t) else return ()) (\<lambda>_.
      if i \<noteq> Some (sha new) then restore_pointer sha kv (auxiliary_state_key K CURRENT_POINTER_SUFFIX)
      (Some (sha new)) else return ())) (\<lambda>_. M) ?E' (?s b c)"
  proof (rule vwp_bind, rule vwp_if, rule vwp_writes [OF writes_restore_pointer])
    show ids': "pred_option is_release_id (from_release_id t)" using ids by simp
    then have p: "parse_release_pointer (ptr (from_release_id t)) = Inr (from_release_id t)" by simp
    show "?J ((?s b c)(auxiliary_state_key K PREVIOUS_POINTER_SUFFIX \<mapsto>
          (case from_release_id t of None \<Rightarrow> EMPTY_POINTER | Some s \<Rightarrow> s @ [CHR 0x0A])))"
      using jc [OF b(1) _ p] by (simp add: ptr_def)
    show "vwp ?J (if i \<noteq> Some (sha new) then restore_pointer sha kv (auxiliary_state_key K CURRENT_POINTER_SUFFIX)
      (Some (sha new)) else return ()) (\<lambda>_. M) ?E' ((?s b c)(auxiliary_state_key K PREVIOUS_POINTER_SUFFIX \<mapsto>
          (case from_release_id t of None \<Rightarrow> EMPTY_POINTER | Some s \<Rightarrow> s @ [CHR 0x0A])))"
      using current [OF p] by (simp add: ptr_def)
  next
    fix e v' assume "write_error UNIV e" and v': "v' = ?s b c \<or> v' = (?s b c)(auxiliary_state_key K
        PREVIOUS_POINTER_SUFFIX \<mapsto> (case from_release_id t of None \<Rightarrow> EMPTY_POINTER | Some s \<Rightarrow> s @ [CHR 0x0A]))"
    then show "?E' e v'" using err by (elim disjE) (simp_all only: put_upd)
  next
    assume "\<not> j \<noteq> from_release_id t"
    then show "vwp ?J (return ()) (\<lambda>_. vwp ?J (if i \<noteq> Some (sha new) then restore_pointer sha kv
      (auxiliary_state_key K CURRENT_POINTER_SUFFIX) (Some (sha new)) else return ()) (\<lambda>_. M) ?E') ?E' (?s b c)"
      using current c(1) by (intro vwp_return) simp
  qed
  show ?thesis
    unfolding resume_transaction_def Let_def
  proof (rule vwp_bind, rule vwp_on_unknown, simp only: t(2) release_keys_for_simps, rule vwp_mono [OF both])
    fix u :: unit and v' assume "M v'"
    then obtain b' c' where v': "v' = ?s b' c'" and p: "parse_release_pointer b' = Inr (Some (sha new))"
      "parse_release_pointer c' = Inr (from_release_id t)" by (auto simp: M_def)
    show "vwp ?J (bindA (write_phase_unless_reached sha kv (keys K) t ''verify'') (\<lambda>_.
     bindA (any_of [value_differs kv K new,
        pointer_differs kv (auxiliary_state_key K PREVIOUS_POINTER_SUFFIX) (from_release_id t),
        pointer_differs kv (auxiliary_state_key K CURRENT_POINTER_SUFFIX) (Some (sha new))]) (\<lambda>bad.
     if bad then raise (CommitUnknownError ''release transaction verification is incomplete'' ChangeUnknown)
     else bindA (write_phase_unless_reached sha kv (keys K) t ''finalize'') (\<lambda>_.
          bindA (transaction_write sha kv (keys K) EMPTY_POINTER Changed) (\<lambda>_.
          return (Some \<lparr>res_status = ''published'', res_release_id = sha new, res_previous_id = from_release_id t,
        res_bytes = length new, res_sha256 = sha new, res_production_changed = True,
        res_recovered_transaction = Some True, res_first_release = Some (from_release_id t = None),
        res_migrated_current_pointer = None\<rparr>)))))) Q ?E v'"
      unfolding v' by (rule vwp_resume_tail [where d = d]) (use t p q in auto)
  qed
qed

subsection \<open>Compensation\<close>

lemma vwp_attempt:
  assumes "writes J m k c UNIV" and "J (v(k \<mapsto> c))" and "Q [] (v(k \<mapsto> c))" and "Q [label] v"
    and "\<And>v'. v' = v \<or> v' = v(k \<mapsto> c) \<Longrightarrow> E (CommitUnknownError x z) v'"
    and "\<And>v' y. v' = v \<or> v' = v(k \<mapsto> c) \<Longrightarrow> E (EscapedError y) v'"
  shows "vwp J (attempt x z label m) Q E v"
  unfolding attempt_def
  by (rule vwp_try, rule vwp_bind, rule vwp_writes [OF assms(1)])
    (use assms in \<open>auto intro!: vwp_return vwp_raise split: kv_error.splits\<close>)

text \<open>Every combination of values that a replacing commit and its compensation pass through.\<close>

lemma on_path_committing:
  assumes "wf_transaction t" "to_release_id t = sha new" "from_release_id t = Some (sha old)"
    and "parse_release_transaction d = Inr (Some t')" "t' = t\<lparr>phase := p\<rparr>"
    and "a = Some old \<or> a = Some new"
    and "parse_release_pointer b = Inr i" "i \<in> {None, Some (sha old), Some (sha new)}"
    and "parse_release_pointer c = Inr j" "j \<in> {previous_release_id t, Some (sha old)}"
  shows "on_path K sha (Some old) new H (put K v a b c d)"
proof -
  have ne: "sha old \<noteq> sha new" using wf_ids(4) [OF assms(1)] assms(2,3) by simp
  have "inspect_release_state (map_option sha a) i j (Some t') \<noteq> ''inconsistent''"
    using assms(6) inspect_committing [of i t' j] inspect_before_activation [of "Some (sha old)" t' i j] assms ne
    by auto
  then show ?thesis using assms by (auto simp: on_path_def)
qed

lemma vwp_restore_after_failed_commit:
  assumes t: "wf_transaction t" "to_release_id t = sha new" "from_release_id t = Some (sha old)"
    and d: "parse_release_transaction d = Inr (Some t')" "t' = t\<lparr>phase := p\<rparr>"
    and a: "a = Some old \<or> a = Some new"
    and b: "parse_release_pointer b = Inr i" "i \<in> {None, Some (sha old), Some (sha new)}"
    and c: "parse_release_pointer c = Inr j" "j \<in> {previous_release_id t, Some (sha old)}"
    and q: "Q () (put K v (Some old) (ptr (Some (sha old))) (ptr (previous_release_id t)) d)"
  shows "vwp (on_path K sha (Some old) new H)
    (restore_after_failed_commit sha kv (keys K) old (sha old) (previous_release_id t)) Q
    (honest K (Some old) new R) (put K v a b c d)"
proof -
  let ?J = "on_path K sha (Some old) new H" and ?E = "honest K (Some old) new R"
  let ?b = "ptr (Some (sha old))" and ?c = "ptr (previous_release_id t)"
  note ids = wf_ids [OF t(1)]
  have pb: "parse_release_pointer ?b = Inr (Some (sha old))" using ids(2) t(3) by simp
  have pc: "parse_release_pointer ?c = Inr (previous_release_id t)" using ids(3) by simp
  have j: "?J (put K v a' b' c' d)" if "a' = Some old \<or> a' = Some new" "b' = b \<or> b' = ?b" "c' = c \<or> c' = ?c" for a' b' c'
    using that(2,3) on_path_committing [OF t d that(1)] b c pb pc by blast
  define z where "z = (\<lambda>errors :: string list. if errors = [] then NotChanged else ChangeUnknown)"
  define stop where "stop = (\<lambda>es. if es \<noteq> [] then raise (PublicationError
      (''release commit failed and compensation was incomplete: '' @ join_with '', '' es)) else return () :: ('w, kv_error, unit) action)"
  define step3 where "step3 = (\<lambda>errors errors2. bindA (attempt ''previous pointer compensation state is unknown''
      (z errors) ''previous-pointer'' (restore_pointer sha kv (auxiliary_state_key K PREVIOUS_POINTER_SUFFIX)
        (previous_release_id t))) (\<lambda>errors3. stop (errors @ errors2 @ errors3)))"
  define step2 where "step2 = (\<lambda>errors. bindA (attempt ''current pointer compensation state is unknown''
      (z errors) ''current-pointer'' (restore_pointer sha kv (auxiliary_state_key K CURRENT_POINTER_SUFFIX)
        (Some (sha old)))) (step3 errors))"
  have stop: "vwp ?J (stop es) Q ?E v'" if "es = [] \<Longrightarrow> Q () v'" for es v'
    using that by (auto simp: stop_def foreign_message restored_messages intro!: vwp_return vwp_raise honest_foreign)
  have last: "vwp ?J (step3 errors errors2) Q ?E (put K v a' b' c d)"
    if "a' = Some old \<or> a' = Some new" "b' = b \<or> b' = ?b"
      "errors = [] \<Longrightarrow> a' = Some old" "errors2 = [] \<Longrightarrow> b' = ?b" for errors errors2 a' b'
    unfolding step3_def
  proof (rule vwp_bind, rule vwp_attempt [OF writes_restore_pointer])
    show "pred_option is_release_id (previous_release_id t)" by (rule ids(3))
  qed (use that j q in \<open>auto simp: ptr_def z_def intro!: stop\<close>)
  have middle: "vwp ?J (step2 errors) Q ?E (put K v a' b c d)"
    if a': "a' = Some old \<or> a' = Some new" "errors = [] \<Longrightarrow> a' = Some old" for errors a'
    unfolding step2_def
  proof (rule vwp_bind, rule vwp_attempt [OF writes_restore_pointer])
    show "pred_option is_release_id (Some (sha old))" using ids(2) t(3) by simp
  qed (use a' j in \<open>auto simp: ptr_simps z_def intro!: last\<close>)
  have "vwp ?J (bindA (attempt ''production compensation state is unknown'' ChangeUnknown ''production''
      (publish_verified sha kv K old)) step2) Q ?E (put K v a b c d)"
    by (rule vwp_bind, rule vwp_attempt [OF writes_publish_verified])
      (use a j in \<open>auto intro!: middle\<close>)
  then show ?thesis
    by (simp add: restore_after_failed_commit_def Let_def step2_def step3_def stop_def z_def)
qed

lemma vwp_commit_step:
  assumes t: "wf_transaction t" "to_release_id t = sha new" "from_release_id t = Some (sha old)"
    and d: "parse_release_transaction d = Inr (Some t')" "t' = t\<lparr>phase := p\<rparr>"
    and a: "a = Some old \<or> a = Some new"
    and b: "parse_release_pointer b = Inr i" "i \<in> {None, Some (sha old), Some (sha new)}"
    and c: "parse_release_pointer c = Inr j" "j \<in> {previous_release_id t, Some (sha old)}"
    and m: "writes (on_path K sha (Some old) new H) m k x UNIV"
    and s: "(put K v a b c d)(k \<mapsto> x) = put K v a2 b2 c2 d"
    and jm: "on_path K sha (Some old) new H (put K v a2 b2 c2 d)"
    and h: "H \<Longrightarrow> previous_release_id t \<noteq> Some (sha old)"
    and z: "z = ChangeUnknown \<or> z = Changed \<and> a = Some new \<and> a2 = Some new"
    and q: "Q () (put K v a2 b2 c2 d)"
    and R: "R (put K v (Some old) (ptr (Some (sha old))) (ptr (previous_release_id t)) (ptr None))"
  shows "vwp (on_path K sha (Some old) new H)
    (commit_step sha kv (keys K) old (sha old) (previous_release_id t) y z m) Q
    (honest K (Some old) new R) (put K v a b c d)"
proof -
  let ?J = "on_path K sha (Some old) new H" and ?E = "honest K (Some old) new R"
  let ?s = "put K v a b c d" and ?b = "ptr (Some (sha old))" and ?c = "ptr (previous_release_id t)"
  note ids = wf_ids [OF t(1)]
  have settled: "?J (put K v (Some old) ?b ?c (ptr None))"
    using ids t(3) h inspect_settled [of "previous_release_id t" "sha old"] by (auto simp: on_path_def)
  have clear: "?E e v'" if "write_error {ChangeUnknown} e" for e v'
    using that by (rule honest_write_error) auto
  have restored: "?E (PublicationError COMMIT_RESTORED) (put K v (Some old) ?b ?c (ptr None))"
    using R by (simp add: honest_def)
  have compensate: "vwp ?J (bindA (restore_after_failed_commit sha kv (keys K) old (sha old) (previous_release_id t)) (\<lambda>_.
      bindA (transaction_write sha kv (keys K) EMPTY_POINTER ChangeUnknown) (\<lambda>_.
      raise (PublicationError COMMIT_RESTORED)))) Q ?E ?s"
    by (rule vwp_bind, rule vwp_restore_after_failed_commit [OF t d a b c], rule vwp_bind,
        rule vwp_writes [OF writes_transaction_write])
      (auto simp: ptr_simps settled intro!: vwp_raise restored intro: clear)
  show ?thesis
    unfolding commit_step_def
    by (rule vwp_try, rule vwp_bind, rule vwp_writes [OF m])
      (use s jm q z compensate in \<open>auto intro!: vwp_return vwp_raise split: kv_error.splits\<close>)
qed

subsection \<open>The replacing activation\<close>

lemma new_transaction_sel [simp]:
  "from_release_id (new_transaction a b c) = a" "to_release_id (new_transaction a b c) = b"
  "previous_release_id (new_transaction a b c) = c" "phase (new_transaction a b c) = ''prepare''"
  by (simp_all add: new_transaction_def)

lemma phase_update_self: "phase t = p \<Longrightarrow> t\<lparr>phase := p\<rparr> = t"
  by simp

lemma vwp_publish_replacement:
  assumes ids: "is_release_id (sha old)" "is_release_id (sha new)" "sha old \<noteq> sha new"
    and v: "v K = Some old" "parse_release_pointer (v (auxiliary_state_key K CURRENT_POINTER_SUFFIX)) = Inr i"
      "i \<in> {None, Some (sha old)}"
      "parse_release_pointer (v (auxiliary_state_key K PREVIOUS_POINTER_SUFFIX)) = Inr prev"
    and prev: "pred_option is_release_id prev" and h: "H \<Longrightarrow> prev \<noteq> Some (sha old)"
    and q: "Q \<lparr>res_status = ''published'', res_release_id = sha new, res_previous_id = Some (sha old),
        res_bytes = length new, res_sha256 = sha new, res_production_changed = True,
        res_recovered_transaction = None, res_first_release = None,
        res_migrated_current_pointer = Some (i = None)\<rparr>
      (put K (stage sha K old v) (Some new) (ptr (Some (sha new))) (ptr (Some (sha old))) (ptr None))"
    and R: "\<And>v'. R (put K v' (Some old) (ptr (Some (sha old))) (ptr prev) (ptr None))"
  shows "vwp (on_path K sha (Some old) new H)
    (publish_replacement sha kv (keys K) new (sha new) old i prev) Q (honest K (Some old) new R) v"
proof -
  let ?J = "on_path K sha (Some old) new H" and ?E = "honest K (Some old) new R"
  define t where "t = new_transaction (Some (sha old)) (sha new) prev"
  define v1 where "v1 = stage sha K old v"
  define b where "b = v (auxiliary_state_key K CURRENT_POINTER_SUFFIX)"
  define c where "c = v (auxiliary_state_key K PREVIOUS_POINTER_SUFFIX)"
  let ?new = "ptr (Some (sha new))" and ?old = "ptr (Some (sha old))"
  let ?T = "\<lambda>p. Some (transaction_text (t\<lparr>phase := p\<rparr>))"
  have t: "wf_transaction t" unfolding t_def by (rule wf_new_transaction) (use ids prev in auto)
  have tf: "to_release_id t = sha new" "from_release_id t = Some (sha old)" "previous_release_id t = prev"
    "phase t = ''prepare''" by (simp_all add: t_def)
  have b: "parse_release_pointer b = Inr i" "i \<in> {None, Some (sha old), Some (sha new)}"
    using v by (auto simp: b_def)
  have c: "parse_release_pointer c = Inr prev" using v by (simp add: c_def)
  have pn: "parse_release_pointer ?new = Inr (Some (sha new))"
    and po: "parse_release_pointer ?old = Inr (Some (sha old))" using ids by simp_all
  have T: "parse_release_transaction (?T p) = Inr (Some (t\<lparr>phase := p\<rparr>))" if "phase_index p \<noteq> None" for p
    using wf_phase [OF t that] by simp
  have v1: "v1 = put K v1 (Some old) b c (v (auxiliary_state_key K TRANSACTION_SUFFIX))"
    by (subst put_self [of v1 K]) (simp add: v1_def b_def c_def v)
  have adv: "advance_release_transaction t p = Inr (t\<lparr>phase := p\<rparr>)" if "phase_index p \<noteq> None" for p
    using advance_phase [OF t] tf(4) that by auto
  note j = on_path_committing [where sha = sha and new = new and old = old and t = t and d = "?T p"
      and t' = "t\<lparr>phase := p\<rparr>" for p, OF t tf(1,2) T refl, unfolded tf(3)]
  note step = vwp_commit_step [where sha = sha and new = new and old = old and t = t and d = "?T p"
      and t' = "t\<lparr>phase := p\<rparr>" for p, OF t tf(1,2) T refl, unfolded tf(3)]
  let ?r = "\<lparr>res_status = ''published'', res_release_id = sha new, res_previous_id = Some (sha old),
      res_bytes = length new, res_sha256 = sha new, res_production_changed = True,
      res_recovered_transaction = None, res_first_release = None,
      res_migrated_current_pointer = Some (i = None)\<rparr>"
  define tail1 where "tail1 = bindA (finish_transaction sha kv (keys K) new t
      ''release transaction verification is incomplete'') (\<lambda>_. return ?r)"
  define tail2 where "tail2 = bindA (commit_step sha kv (keys K) old (sha old) prev
      ''current release pointer commit state is unknown'' Changed
      (restore_pointer sha kv (current_pointer (keys K)) (Some (sha new)))) (\<lambda>_. tail1)"
  define tail3 where "tail3 = bindA (commit_step sha kv (keys K) old (sha old) prev
      ''previous release pointer commit state is unknown'' Changed
      (restore_pointer sha kv (previous_pointer (keys K)) (Some (sha old)))) (\<lambda>_. tail2)"
  define tail4 where "tail4 = bindA (write_phase sha kv (keys K) t ''commit'' Changed) (\<lambda>_. tail3)"
  define tail5 where "tail5 = bindA (commit_step sha kv (keys K) old (sha old) prev
      ''production activation state is unknown'' ChangeUnknown
      (bindA (publish_verified sha kv (production (keys K)) new) (\<lambda>_. return ()))) (\<lambda>_. tail4)"
  have s1: "vwp ?J tail1 Q ?E (put K v1 (Some new) ?new ?old d)" for d
    unfolding tail1_def
  proof (rule vwp_bind, rule vwp_finish_transaction)
    show "parse_release_pointer ?new = Inr (Some (sha new))" by (rule pn)
    show "parse_release_pointer ?old = Inr (from_release_id t)" using po tf by simp
    show "vwp ?J (return ?r) Q ?E (put K v1 (Some new) ?new ?old (ptr None))"
      using q by (intro vwp_return) (simp add: v1_def)
  qed (use t tf in auto)
  have s2: "vwp ?J tail2 Q ?E (put K v1 (Some new) b ?old (?T ''commit''))"
    unfolding tail2_def
    by (rule vwp_bind, rule step [OF _ _ b po _ writes_restore_pointer])
      (use ids h R s1 j [OF _ _ pn _ po] in \<open>auto simp: ptr_simps\<close>)
  have s3: "vwp ?J tail3 Q ?E (put K v1 (Some new) b c (?T ''commit''))"
    unfolding tail3_def
    by (rule vwp_bind, rule step [OF _ _ b c _ writes_restore_pointer])
      (use ids h R s2 j [OF _ _ b po] in \<open>auto simp: ptr_simps\<close>)
  have s4: "vwp ?J tail4 Q ?E (put K v1 (Some new) b c (?T ''prepare''))"
    unfolding tail4_def
    by (rule vwp_bind, rule vwp_writes [OF writes_write_phase [OF t adv]])
      (use s3 j [OF _ _ b c] in \<open>auto intro: honest_write_error [of "{Changed}"]\<close>)
  have s5: "vwp ?J tail5 Q ?E (put K v1 (Some old) b c (?T ''prepare''))"
    unfolding tail5_def
    by (rule vwp_bind, rule step [OF _ _ b c _ writes_bind [OF writes_publish_verified]])
      (use h R s4 j [OF _ _ b c] in \<open>auto\<close>)
  have prepare: "vwp ?J (bindA (lift_sum (serialize_release_transaction t)) (\<lambda>text.
      bindA (transaction_write sha kv (keys K) text NotChanged) (\<lambda>_. tail5))) Q ?E v1"
    unfolding serialize_wf [OF t]
  proof (rule vwp_bind, rule vwp_lift)
    fix raw assume "Inr (transaction_text t) = (Inr raw :: kv_error + _)"
    then have x: "Some raw = ?T ''prepare''"
      using phase_update_self [OF tf(4)] by (simp only: sum.inject)
    show "vwp ?J (bindA (transaction_write sha kv (keys K) raw NotChanged) (\<lambda>_. tail5)) Q ?E v1"
      by (subst v1, rule vwp_bind, rule vwp_writes [OF writes_transaction_write])
        (use s5 j [OF _ _ b c] x in \<open>auto intro: honest_write_error [of "{NotChanged}"]\<close>)
  qed simp
  show ?thesis
    unfolding publish_replacement_def Let_def
  proof (rule vwp_bind, rule vwp_ensure_immutable_release [where sha = sha and c = old, OF ids(1) on_path_objects], goal_cases)
    case 1
    show ?case
      using prepare unfolding tail5_def tail4_def tail3_def tail2_def tail1_def t_def v1_def .
  next
    case (2 e v')
    then show ?case by (intro honest_write_error [of "{NotChanged}"]) (simp_all add: agrees_def v)
  qed
qed

subsection \<open>The first activation\<close>

lemma vwp_activate_first_release:
  assumes id: "is_release_id (sha new)"
    and d: "parse_release_transaction d = Inr (Some t)" "from_release_id t = None" "to_release_id t = sha new"
    and b: "parse_release_pointer b = Inr None" and c: "parse_release_pointer c = Inr None"
      "previous_release_id t = None"
    and q: "Q () (put K v (Some new) (ptr (Some (sha new))) c d)"
    and r: "E (PublicationError FIRST_RELEASE_RESTORED) (put K v None (ptr None) c d)"
    and e: "\<And>e v'. honest K None new R e v' \<Longrightarrow> e \<noteq> PublicationError FIRST_RELEASE_RESTORED \<Longrightarrow> E e v'"
  shows "vwp (on_path K sha None new H) (activate_first_release sha kv (keys K) new (sha new) None) Q E
    (put K v None b c d)"
proof -
  let ?J = "on_path K sha None new H" and ?new = "ptr (Some (sha new))"
  have j: "?J (put K v None b' c d)" if "parse_release_pointer b' = Inr i" for b' i
    using that c d inspect_before_activation [of None t i None] by (simp add: on_path_def)
  have jn: "?J (put K v (Some new) ?new c d)"
    using c d id inspect_committing [of "Some (sha new)" t None] by (simp add: on_path_def)
  have pn: "parse_release_pointer ?new = Inr (Some (sha new))" using id by simp
  have foreign: "E x v'" if "foreign x" for x v'
    using that by (intro e honest_foreign) (auto simp: foreign_message)
  have unknown: "E (CommitUnknownError m z) v'" if "z = NotChanged \<Longrightarrow> v' K = None" "z \<noteq> Changed" for m z v'
    using that by (intro e) auto
  have staging: "E x v'" if "write_error {NotChanged} x" "v' K = None" for x v'
    using that by (cases x) (auto intro: unknown foreign)
  define handler :: "kv_error \<Rightarrow> ('w, kv_error, unit) action" where "handler = (\<lambda>x. case x of
      CommitUnknownError _ _ \<Rightarrow> raise (CommitUnknownError ''first release activation state is unknown'' ChangeUnknown)
    | PublicationError _ \<Rightarrow>
        bindA (try_catch (restore_pointer sha kv (current_pointer (keys K)) None)
          (\<lambda>e'. case e' of
             CommitUnknownError _ _ \<Rightarrow>
               raise (CommitUnknownError ''first release pointer compensation state is unknown'' NotChanged)
           | PublicationError _ \<Rightarrow> raise (PublicationError
               ''first release activation failed and pointer compensation was incomplete'')
           | EscapedError _ \<Rightarrow> raise e')) (\<lambda>_.
        raise (PublicationError FIRST_RELEASE_RESTORED))
    | EscapedError _ \<Rightarrow> raise x)"
  have compensate: "vwp ?J (handler (PublicationError m)) Q E (put K v None ?new c d)" for m
    unfolding handler_def
    by (simp, rule vwp_bind, rule vwp_try, rule vwp_writes [OF writes_restore_pointer])
      (use r in \<open>auto simp: ptr_simps foreign_message restored_messages
          intro!: vwp_raise j [OF parse_ptr] intro: unknown foreign split: kv_error.splits\<close>)
  have activate: "vwp ?J (try_catch (bindA (publish_verified sha kv K new) (\<lambda>_. return ())) handler) Q E
      (put K v None ?new c d)"
    by (rule vwp_try, rule vwp_bind, rule vwp_writes [OF writes_publish_verified])
      (use q jn compensate in \<open>auto simp: handler_def intro!: vwp_return vwp_raise intro: unknown foreign
          split: kv_error.splits\<close>)
  have "vwp ?J (bindA (on_unknown ''first release pointer staging state is unknown'' NotChanged
       (restore_pointer sha kv (current_pointer (keys K)) (Some (sha new)))) (\<lambda>_.
     try_catch (bindA (publish_verified sha kv K new) (\<lambda>_. return ())) handler)) Q E (put K v None b c d)"
    by (rule vwp_bind, rule vwp_writes [OF writes_on_unknown [OF writes_restore_pointer]])
      (use id activate j [OF pn] in \<open>auto simp: ptr_simps intro: staging\<close>)
  then show ?thesis
    unfolding activate_first_release_def handler_def by simp
qed

lemma vwp_publish_first:
  assumes id: "is_release_id (sha new)"
    and v: "v K = None" "parse_release_pointer (v (auxiliary_state_key K CURRENT_POINTER_SUFFIX)) = Inr None"
      "parse_release_pointer (v (auxiliary_state_key K PREVIOUS_POINTER_SUFFIX)) = Inr None"
    and q: "Q \<lparr>res_status = ''published'', res_release_id = sha new, res_previous_id = None,
        res_bytes = length new, res_sha256 = sha new, res_production_changed = True,
        res_recovered_transaction = None, res_first_release = Some True, res_migrated_current_pointer = None\<rparr>
      (put K v (Some new) (ptr (Some (sha new))) (v (auxiliary_state_key K PREVIOUS_POINTER_SUFFIX)) (ptr None))"
    and R: "R (put K v None (ptr None) (v (auxiliary_state_key K PREVIOUS_POINTER_SUFFIX)) (ptr None))"
  shows "vwp (on_path K sha None new H) (publish_first sha kv (keys K) new (sha new) None) Q
    (honest K None new R) v"
proof -
  let ?J = "on_path K sha None new H" and ?E = "honest K None new R" and ?new = "ptr (Some (sha new))"
  define t where "t = new_transaction None (sha new) None"
  define b where "b = v (auxiliary_state_key K CURRENT_POINTER_SUFFIX)"
  define c where "c = v (auxiliary_state_key K PREVIOUS_POINTER_SUFFIX)"
  let ?T = "\<lambda>p. Some (transaction_text (t\<lparr>phase := p\<rparr>))"
  have t: "wf_transaction t" unfolding t_def by (rule wf_new_transaction) (use id in auto)
  have tf: "to_release_id t = sha new" "from_release_id t = None" "previous_release_id t = None"
    "phase t = ''prepare''" by (simp_all add: t_def)
  have vs: "v = put K v None b c (v (auxiliary_state_key K TRANSACTION_SUFFIX))"
    using put_self [of v K] v by (simp add: b_def c_def)
  have pb: "parse_release_pointer b = Inr None" and pc: "parse_release_pointer c = Inr None"
    using v by (simp_all add: b_def c_def)
  have pn: "parse_release_pointer ?new = Inr (Some (sha new))" using id by simp
  have T: "parse_release_transaction (?T p) = Inr (Some (t\<lparr>phase := p\<rparr>))" if "phase_index p \<noteq> None" for p
    using wf_phase [OF t that] by simp
  have adv: "advance_release_transaction t p = Inr (t\<lparr>phase := p\<rparr>)" if "phase_index p \<noteq> None" for p
    using advance_phase [OF t] tf(4) that by auto
  have clear: "?J (put K v None (ptr None) c (ptr None))"
    using pc by (simp add: on_path_def inspect_release_state_def)
  have jp: "?J (put K v None b c (?T ''prepare''))"
    using pb pc T [of "''prepare''"] tf by (simp add: on_path_def inspect_release_state_def)
  have jc: "?J (put K v (Some new) ?new c (?T ''commit''))"
    using pn pc T [of "''commit''"] tf by (simp add: on_path_def inspect_release_state_def)
  define tail1 where "tail1 = bindA (finish_transaction sha kv (keys K) new t
      ''first release transaction verification is incomplete'') (\<lambda>_. return
      \<lparr>res_status = ''published'', res_release_id = sha new, res_previous_id = None,
        res_bytes = length new, res_sha256 = sha new, res_production_changed = True,
        res_recovered_transaction = None, res_first_release = Some True, res_migrated_current_pointer = None\<rparr>)"
  define tail2 where "tail2 = bindA (write_phase sha kv (keys K) t ''commit'' Changed) (\<lambda>_. tail1)"
  have s1: "vwp ?J tail1 Q ?E (put K v (Some new) ?new c d)" for d
    unfolding tail1_def
  proof (rule vwp_bind, rule vwp_finish_transaction)
    show "parse_release_pointer ?new = Inr (Some (sha new))" by (rule pn)
    show "parse_release_pointer c = Inr (from_release_id t)" using pc tf by simp
  qed (use t tf q c_def in \<open>auto intro: vwp_return\<close>)
  have s2: "vwp ?J tail2 Q ?E (put K v (Some new) ?new c d)" for d
    unfolding tail2_def
    by (rule vwp_bind, rule vwp_writes [OF writes_write_phase [OF t adv]])
      (use s1 jc in \<open>auto intro: honest_write_error [of "{Changed}"]\<close>)
  define h :: "kv_error \<Rightarrow> ('w, kv_error, unit) action" where "h = (\<lambda>e. if e = PublicationError FIRST_RELEASE_RESTORED
      then bindA (transaction_write sha kv (keys K) EMPTY_POINTER ChangeUnknown) (\<lambda>_. raise e)
      else raise e)"
  have activate: "vwp ?J (try_catch (activate_first_release sha kv (keys K) new (sha new) None) h)
      (\<lambda>_. vwp ?J tail2 Q ?E) ?E (put K v None b c (?T ''prepare''))"
  proof (rule vwp_try, rule vwp_activate_first_release [where new = new and sha = sha and t = "t\<lparr>phase := ''prepare''\<rparr>"])
    show "vwp ?J tail2 Q ?E (put K v (Some new) ?new c (?T ''prepare''))" by (rule s2)
    show "vwp ?J (h (PublicationError FIRST_RELEASE_RESTORED)) (\<lambda>_. vwp ?J tail2 Q ?E) ?E
        (put K v None (ptr None) c (?T ''prepare''))"
      unfolding h_def
      by (simp, rule vwp_bind, rule vwp_writes [OF writes_transaction_write])
        (use clear R in \<open>auto simp: ptr_simps c_def honest_def [of _ _ _ _ "PublicationError _"]
          intro!: vwp_raise intro: honest_write_error [of "{ChangeUnknown}"]\<close>)
  qed (use id T pb pc tf in \<open>auto simp: h_def intro: vwp_raise\<close>)
  have "vwp ?J (bindA (lift_sum (serialize_release_transaction t)) (\<lambda>text.
      bindA (transaction_write sha kv (keys K) text NotChanged) (\<lambda>_.
      bindA (try_catch (activate_first_release sha kv (keys K) new (sha new) None) h) (\<lambda>_. tail2)))) Q ?E v"
    unfolding serialize_wf [OF t]
  proof (rule vwp_bind, rule vwp_lift)
    fix raw assume "Inr (transaction_text t) = (Inr raw :: kv_error + _)"
    then have x: "Some raw = ?T ''prepare''" using phase_update_self [OF tf(4)] by (simp only: sum.inject)
    show "vwp ?J (bindA (transaction_write sha kv (keys K) raw NotChanged) (\<lambda>_.
      bindA (try_catch (activate_first_release sha kv (keys K) new (sha new) None) h) (\<lambda>_. tail2))) Q ?E v"
      by (subst vs, rule vwp_bind, rule vwp_writes [OF writes_transaction_write])
        (use activate jp x in \<open>auto intro: honest_write_error [of "{NotChanged}"] vwp_bind\<close>)
  qed simp
  then show ?thesis
    unfolding publish_first_def Let_def tail2_def tail1_def t_def h_def .
qed

subsection \<open>The unchanged release\<close>

lemma vwp_publish_unchanged:
  assumes id: "is_release_id (sha new)"
    and v: "v K = Some new" "parse_release_pointer (v (auxiliary_state_key K CURRENT_POINTER_SUFFIX)) = Inr i"
      "parse_release_pointer (v (auxiliary_state_key K PREVIOUS_POINTER_SUFFIX)) = Inr prev"
      "parse_release_transaction (v (auxiliary_state_key K TRANSACTION_SUFFIX)) = Inr None"
    and h: "H \<Longrightarrow> prev \<noteq> Some (sha new)"
    and q: "\<And>b. parse_release_pointer b = Inr (Some (sha new)) \<Longrightarrow>
      Q \<lparr>res_status = ''unchanged'', res_release_id = sha new, res_previous_id = prev,
        res_bytes = length new, res_sha256 = sha new, res_production_changed = False,
        res_recovered_transaction = None, res_first_release = None, res_migrated_current_pointer = None\<rparr>
      (v(auxiliary_state_key K CURRENT_POINTER_SUFFIX := b))"
  shows "vwp (on_path K sha (Some new) new H) (publish_unchanged sha kv (keys K) new (sha new) i prev) Q
    (honest K (Some new) new R) v"
proof -
  let ?J = "on_path K sha (Some new) new H" and ?cp = "auxiliary_state_key K CURRENT_POINTER_SUFFIX"
  have pn: "parse_release_pointer (ptr (Some (sha new))) = Inr (Some (sha new))" using id by simp
  have j: "?J (v(?cp := ptr (Some (sha new))))"
  proof -
    have "?J (put K v (Some new) (ptr (Some (sha new)))
        (v (auxiliary_state_key K PREVIOUS_POINTER_SUFFIX)) (v (auxiliary_state_key K TRANSACTION_SUFFIX)))"
      using pn v h by (auto simp: on_path_def inspect_release_state_def)
    moreover have "agrees K (v(?cp := ptr (Some (sha new)))) (put K v (Some new) (ptr (Some (sha new)))
        (v (auxiliary_state_key K PREVIOUS_POINTER_SUFFIX)) (v (auxiliary_state_key K TRANSACTION_SUFFIX)))"
      by (simp add: agrees_def v(1))
    ultimately show ?thesis by (simp add: on_path_agrees)
  qed
  show ?thesis
    unfolding publish_unchanged_def
  proof (rule vwp_bind, rule vwp_if, rule vwp_writes [OF writes_on_unknown [OF writes_restore_pointer]], goal_cases)
    case 1
    then show ?case using id by simp
  next
    case 2
    then show ?case using j by (simp add: ptr_def)
  next
    case (3 a)
    show ?case using q [OF pn] by (simp add: ptr_def vwp_return)
  next
    case (4 e v')
    then show ?case using v(1) by (auto intro: honest_write_error [of "{NotChanged}"])
  next
    case 5
    then have "parse_release_pointer (v ?cp) = Inr (Some (sha new))" using v by simp
    from q [OF this] show ?case by (simp add: vwp_return)
  qed
qed

end

end
