(* ===== verification/BundleProperties.thy ===== *)
theory BundleProperties
  imports BundleCommit
begin

text \<open>
  The contract of \<open>publish_release_bundle\<close> over a consistent publisher, and the properties drawn
  from it: what success means, that errors are truthful, and what every store passed through
  satisfies.
\<close>

section \<open>The contract\<close>

text \<open>Two contents with the same digest as the candidate are the same content.\<close>

definition collision_free :: "(bytes \<Rightarrow> string) \<Rightarrow> bytes option \<Rightarrow> bytes \<Rightarrow> bool" where
  "collision_free sha live new \<longleftrightarrow> (case live of None \<Rightarrow> True | Some old \<Rightarrow> sha old = sha new \<longrightarrow> old = new)"

text \<open>What a result says of the final store.\<close>

definition result_holds ::
  "(bytes \<Rightarrow> string) \<Rightarrow> string \<Rightarrow> bytes \<Rightarrow> store \<Rightarrow> release_result \<Rightarrow> store \<Rightarrow> bool" where
  "result_holds sha K new v0 r v \<longleftrightarrow>
     complete sha K new (res_previous_id r) v
     \<and> res_release_id r = sha new \<and> res_sha256 r = sha new \<and> res_bytes r = length new
     \<and> (if res_production_changed r
        then res_status r = ''published''
          \<and> (\<forall>p. res_previous_id r = Some p \<longrightarrow> (\<exists>old. old \<noteq> [] \<and> sha old = p \<and> staged sha K old v))
          \<and> (res_recovered_transaction r = None \<longrightarrow> res_previous_id r = map_option sha (v0 K) \<and> v0 K \<noteq> Some new)
        else res_status r = ''unchanged'' \<and> v0 K = Some new
          \<and> parse_release_pointer (v0 (auxiliary_state_key K PREVIOUS_POINTER_SUFFIX)) = Inr (res_previous_id r))"

text \<open>The state a completed compensation restores.\<close>

definition restored :: "(bytes \<Rightarrow> string) \<Rightarrow> string \<Rightarrow> store \<Rightarrow> store \<Rightarrow> bool" where
  "restored sha K v0 v \<longleftrightarrow> v K = v0 K
     \<and> parse_release_pointer (v (auxiliary_state_key K CURRENT_POINTER_SUFFIX)) = Inr (map_option sha (v0 K))
     \<and> parse_release_pointer (v (auxiliary_state_key K PREVIOUS_POINTER_SUFFIX))
         = parse_release_pointer (v0 (auxiliary_state_key K PREVIOUS_POINTER_SUFFIX))
     \<and> parse_release_transaction (v (auxiliary_state_key K TRANSACTION_SUFFIX)) = Inr None"

lemma parse_pointer_pred: "parse_release_pointer x = Inr i \<Longrightarrow> pred_option is_release_id i"
  by (cases i) (simp_all add: parse_release_pointer_id)

lemma on_path_settled:
  assumes "on_path K sha live new H v" and "H"
    and "parse_release_pointer (v (auxiliary_state_key K CURRENT_POINTER_SUFFIX)) = Inr i"
    and "parse_release_pointer (v (auxiliary_state_key K PREVIOUS_POINTER_SUFFIX)) = Inr j"
    and "parse_release_transaction (v (auxiliary_state_key K TRANSACTION_SUFFIX)) = Inr None"
    and "v K = Some old"
  shows "i = Some (sha old) \<and> j \<noteq> Some (sha old)"
  using assms by (auto simp: on_path_def inspect_view_def inspect_release_state_def split: if_splits)

text \<open>
  The baseline observer of a caller: it may look at the value and keep it, but does not write, and
  what it raises is not a publication outcome.
\<close>

definition passive_observer ::
  "('w \<Rightarrow> store) \<Rightarrow> (bytes option \<Rightarrow> ('w, kv_error, unit) action) option \<Rightarrow> bool" where
  "passive_observer view observer \<longleftrightarrow> (\<forall>f c w. observer = Some f \<longrightarrow> (case f c w of
     (r, w') \<Rightarrow> view w' = view w \<and> (case r of Inl e \<Rightarrow> foreign e | Inr _ \<Rightarrow> True)))"

context consistent_kv begin

lemma vwp_recover_transaction:
  assumes id: "is_release_id (sha new)" and new: "new \<noteq> []"
    and cf: "collision_free sha (v K) new"
    and i: "parse_release_pointer (v (auxiliary_state_key K CURRENT_POINTER_SUFFIX)) = Inr i"
    and j: "parse_release_pointer (v (auxiliary_state_key K PREVIOUS_POINTER_SUFFIX)) = Inr j"
    and obs: "case observed of None \<Rightarrow> True
      | Some t \<Rightarrow> parse_release_transaction (v (auxiliary_state_key K TRANSACTION_SUFFIX)) = Inr (Some t)"
    and none: "parse_release_transaction (v (auxiliary_state_key K TRANSACTION_SUFFIX)) = Inr None \<Longrightarrow> Q None v"
    and some: "\<And>r b c from. v K = Some new \<Longrightarrow>
      (\<And>p. from = Some p \<Longrightarrow> \<exists>old. old \<noteq> [] \<and> sha old = p \<and> staged sha K old v) \<Longrightarrow>
      parse_release_pointer b = Inr (Some (sha new)) \<Longrightarrow> parse_release_pointer c = Inr from \<Longrightarrow>
      r = \<lparr>res_status = ''published'', res_release_id = sha new, res_previous_id = from,
        res_bytes = length new, res_sha256 = sha new, res_production_changed = True,
        res_recovered_transaction = Some True, res_first_release = Some (from = None),
        res_migrated_current_pointer = None\<rparr> \<Longrightarrow> Q (Some r) (put K v (Some new) b c (ptr None))"
  shows "vwp (on_path K sha live new H) (recover_transaction sha kv (keys K) new (v K) i j observed) Q
    (honest K live new R) v"
proof -
  let ?J = "on_path K sha live new H" and ?E = "honest K live new R"
  have E: "?E e v" if "foreign e" for e using that by (rule honest_foreign)
  have resume: "vwp ?J (resume_transaction sha kv (keys K) new i j t) Q ?E v"
    if live: "v K = Some new" and t: "parse_release_transaction (v (auxiliary_state_key K TRANSACTION_SUFFIX)) = Inr (Some t)"
      and to: "to_release_id t = sha new" and ij: "i \<in> {None, from_release_id t, Some (sha new)}"
        "j \<in> {previous_release_id t, from_release_id t}"
      and staged: "\<And>p. from_release_id t = Some p \<Longrightarrow> \<exists>old. old \<noteq> [] \<and> sha old = p \<and> staged sha K old v" for t
    by (subst put_self [of v K], unfold live, rule vwp_resume_transaction)
      (use that i j parse_release_transaction_wf [OF t] some [OF live staged] in auto)
  define body where "body = (\<lambda>t. bindA (lift_sum (release_id_for sha new)) (\<lambda>to_id.
       if to_id \<noteq> to_release_id t
         then raise (PublicationError ''unfinished release transaction targets another candidate'')
       else bindA (case v K of None \<Rightarrow> return True
            | Some p \<Rightarrow> bindA (lift_sum (release_id_for sha p)) (\<lambda>i. return (i \<noteq> to_id))) (\<lambda>stale.
       if stale
         then raise (CommitUnknownError ''unfinished release activation needs reconciliation'' ChangeUnknown)
       else if i \<notin> {None, from_release_id t, Some to_id}
            \<or> j \<notin> {previous_release_id t, from_release_id t}
         then raise (PublicationError ''release transaction pointers contradict their intent'')
       else bindA (predecessor_check sha kv (keys K) (from_release_id t)) (\<lambda>_.
            resume_transaction sha kv (keys K) new i j t))))"
  have body: "vwp ?J (body t) Q ?E v"
    if t: "parse_release_transaction (v (auxiliary_state_key K TRANSACTION_SUFFIX)) = Inr (Some t)" for t
  proof -
    have stale: "vwp ?J (case v K of None \<Rightarrow> return True
        | Some p \<Rightarrow> bindA (lift_sum (release_id_for sha p)) (\<lambda>i. return (i \<noteq> to_release_id t)))
        (\<lambda>stale v'. v' = v \<and> (\<not> stale \<longrightarrow> (\<exists>p. v K = Some p \<and> sha p = to_release_id t))) ?E v"
      by (cases "v K") (auto intro!: vwp_return vwp_bind vwp_lift E dest: foreign_pure)
    show ?thesis
      unfolding body_def
    proof (rule vwp_bind, rule vwp_lift, rule vwp_if, goal_cases)
      case (1 a)
      then show ?case by (intro vwp_raise E) (simp add: foreign_message restored_messages)
    next
      case (2 a)
      then have to: "to_release_id t = sha new" "a = sha new" using new by auto
      show ?case
      proof (rule vwp_bind, rule vwp_mono [OF stale [unfolded to(1)], folded to(2)], goal_cases)
        case (1 b v')
        then have v': "v' = v" and live: "\<not> b \<Longrightarrow> v K = Some new"
          using cf by (auto simp: collision_free_def to)
        show ?case
          unfolding v'
          by (intro vwp_if vwp_raise vwp_bind vwp_predecessor_check resume live t to(1))
            (use wf_ids [OF parse_release_transaction_wf [OF t]] to in
              \<open>auto simp: foreign_message restored_messages intro: E\<close>)
      qed auto
    next
      case (3 e)
      then show ?case by (intro E foreign_pure)
    qed
  qed
  have tail: "vwp ?J (case txn of None \<Rightarrow> return None | Some t \<Rightarrow> body t) Q ?E v"
    if "parse_release_transaction (v (auxiliary_state_key K TRANSACTION_SUFFIX)) = Inr txn" for txn
    using that none body by (cases txn) (auto intro: vwp_return)
  have "vwp ?J (bindA (case observed of Some t \<Rightarrow> return (Some t)
      | None \<Rightarrow> bindA (safe_read kv (transaction (keys K))) (\<lambda>raw. lift_sum (parse_release_transaction raw)))
      (\<lambda>txn. case txn of None \<Rightarrow> return None | Some t \<Rightarrow> body t)) Q ?E v"
    using obs tail E
    by (cases observed) (auto intro!: vwp_bind [of _ "return _"] vwp_return vwp_bind [of _ "bindA _ _"] vwp_read_transaction)
  then show ?thesis
    unfolding recover_transaction_def body_def .
qed

lemma vwp_committed_state_unproven:
  assumes e: "\<And>e. foreign e \<Longrightarrow> E e v"
    and q: "\<And>bad. (\<not> bad \<Longrightarrow> \<exists>c. v K = Some c \<and> sha c = to_release_id t
        \<and> parse_release_pointer (v (auxiliary_state_key K CURRENT_POINTER_SUFFIX)) = Inr (Some (to_release_id t))
        \<and> parse_release_pointer (v (auxiliary_state_key K PREVIOUS_POINTER_SUFFIX)) = Inr (from_release_id t))
      \<Longrightarrow> Q bad v"
  shows "vwp J (committed_state_unproven sha kv (keys K) t) Q E v"
proof -
  have qt: "Q True v" using q [of True] by simp
  have some: "vwp J (any_of
         [bindA (lift_sum (release_id_for sha content)) (\<lambda>i. return (i \<noteq> to_release_id t)),
          pointer_differs kv (current_pointer (keys K)) (Some (to_release_id t)),
          pointer_differs kv (previous_pointer (keys K)) (from_release_id t),
          bindA (lift_sum (keys_config (keys K) (to_release_id t))) (\<lambda>key. value_differs kv key content),
          bindA (lift_sum (keys_manifest (keys K) (to_release_id t))) (\<lambda>key.
          bindA (safe_read kv key) (\<lambda>manifest.
          bindA (lift_sum (manifest_bytes sha content)) (\<lambda>expected. return (manifest \<noteq> Some expected))))]) Q E v"
    if c: "v K = Some content" for content
    unfolding any_of.simps
    by (intro vwp_bind vwp_lift vwp_return vwp_if vwp_pointer_differs vwp_value_differs vwp_safe_read)
      (use c qt in \<open>auto intro: e q dest: foreign_pure\<close>)
  show ?thesis
    unfolding committed_state_unproven_def
    by (intro vwp_bind vwp_safe_read vwp_option vwp_return) (use some qt e in auto)
qed

lemma vwp_settle_observed:
  assumes obs: "parse_release_transaction (v (auxiliary_state_key K TRANSACTION_SUFFIX)) = Inr observed"
    and live: "v K = live"
    and keep: "Q observed v"
    and retired: "\<And>t. observed = Some t \<Longrightarrow> Q None (v(auxiliary_state_key K TRANSACTION_SUFFIX := ptr None))"
  shows "vwp (on_path K sha live new H) (settle_observed sha kv (keys K) new observed) Q (honest K live new R) v"
proof (cases observed)
  case None
  then show ?thesis using keep by (simp add: settle_observed_def vwp_return)
next
  case (Some t)
  let ?J = "on_path K sha live new H" and ?E = "honest K live new R"
  let ?tx = "auxiliary_state_key K TRANSACTION_SUFFIX"
  have t: "wf_transaction t" using obs Some by (auto dest: parse_release_transaction_wf)
  have retire: "vwp ?J (retire_intent sha kv (keys K) t) (\<lambda>_. Q None) ?E v"
    unfolding retire_intent_def
  proof (rule vwp_bind, rule vwp_committed_state_unproven, goal_cases)
    case (1 e)
    then show ?case by (rule honest_foreign)
  next
    case (2 bad)
    have clear: "vwp ?J (transaction_write sha kv (keys K) EMPTY_POINTER NotChanged) (\<lambda>_. Q None) ?E v" if "\<not> bad"
    proof -
      have "on_path K sha live new H (v(?tx \<mapsto> EMPTY_POINTER))"
        using 2 [OF that] live wf_ids(4) [OF t]
        by (auto simp: on_path_def inspect_view_def inspect_release_state_def)
      then show ?thesis
        using retired [OF Some] live
        by (intro vwp_writes [OF writes_transaction_write])
          (auto simp: ptr_simps intro: honest_write_error [of "{NotChanged}"])
    qed
    show ?case
      by (intro vwp_if vwp_raise vwp_bind vwp_predecessor_check clear)
        (use wf_ids [OF t] in \<open>auto simp: honest_def [of _ _ _ _ "PublicationError _"] restored_messages
          intro: honest_foreign\<close>)
  qed
  then show ?thesis
    unfolding settle_observed_def Some option.case
    by (intro vwp_bind vwp_lift vwp_if vwp_return)
      (use keep Some in \<open>auto dest: foreign_pure intro: honest_foreign vwp_bind vwp_return elim!: vwp_mono\<close>)
qed

lemma vwp_publish_without_intent:
  assumes ids: "\<And>c. is_release_id (sha c)" and cf: "collision_free sha (v K) new"
    and i: "parse_release_pointer (v (auxiliary_state_key K CURRENT_POINTER_SUFFIX)) = Inr i"
    and j: "parse_release_pointer (v (auxiliary_state_key K PREVIOUS_POINTER_SUFFIX)) = Inr j"
    and tx: "parse_release_transaction (v (auxiliary_state_key K TRANSACTION_SUFFIX)) = Inr None"
    and staged: "staged sha K new v" and new: "new \<noteq> []"
    and live: "v K = live" "v0 K = live"
    and j0: "parse_release_pointer (v0 (auxiliary_state_key K PREVIOUS_POINTER_SUFFIX)) = Inr j"
  shows "vwp (on_path K sha live new H)
    (publish_without_intent sha kv (keys K) new (sha new) (v K) i j) (result_holds sha K new v0)
    (honest K live new (restored sha K v0)) v"
proof (rule vwp_assume)
  let ?J = "on_path K sha live new H" and ?E = "honest K live new (restored sha K v0)"
  assume J: "?J v"
  show "vwp ?J (publish_without_intent sha kv (keys K) new (sha new) (v K) i j) (result_holds sha K new v0) ?E v"
  proof (cases "v K")
    case None
    have "vwp ?J (publish_first sha kv (keys K) new (sha new) i) (result_holds sha K new v0) ?E v"
      if "i = None" "j = None"
    proof -
      have l: "live = None" using live None by simp
      show ?thesis
        unfolding l that(1)
        by (rule vwp_publish_first)
          (use live l i j j0 ids tx staged that in \<open>auto simp: result_holds_def complete_def restored_def\<close>)
    qed
    then show ?thesis
      unfolding publish_without_intent_def None option.case
      by (intro vwp_if vwp_raise) (auto simp: honest_def restored_messages)
  next
    case (Some old)
    have err: "?E (PublicationError ''production and current pointer disagree without transaction'') v"
      by (simp add: honest_def restored_messages)
    have same: "vwp ?J (publish_unchanged sha kv (keys K) new (sha new) i j) (result_holds sha K new v0) ?E v"
      if "old = new"
    proof -
      have "v K = Some new" "live = Some new" using Some that live by auto
      moreover have "H \<Longrightarrow> j \<noteq> Some (sha new)"
        using on_path_settled [OF J _ i j tx] calculation by simp
      ultimately show ?thesis
        using ids i j tx staged live j0
        by (simp only:) (rule vwp_publish_unchanged; auto simp: result_holds_def complete_def staged_def)
    qed
    have replace: "vwp ?J (publish_replacement sha kv (keys K) new (sha new) old i j) (result_holds sha K new v0) ?E v"
      if "old \<noteq> new" "old \<noteq> []" "i \<in> {None, Some (sha old)}"
    proof -
      have ne: "sha old \<noteq> sha new" using cf Some that(1) by (simp add: collision_free_def)
      have l: "live = Some old" using Some live by simp
      have "H \<Longrightarrow> j \<noteq> Some (sha old)" using on_path_settled [OF J _ i j tx Some] by simp
      moreover have "staged sha K new (stage sha K old v)"
        using staged staged_stage_other [of sha K new v old] ne by simp
      moreover have "pred_option is_release_id j" using j by (rule parse_pointer_pred)
      ultimately show ?thesis
        unfolding l
        by (intro vwp_publish_replacement)
          (use ids i j j0 ne that Some live l in \<open>auto simp: result_holds_def complete_def restored_def
            intro!: exI [of _ old]\<close>)
    qed
    show ?thesis
      unfolding publish_without_intent_def Some option.case
      by (intro vwp_bind vwp_lift vwp_if vwp_raise)
        (use err same replace in \<open>auto dest: foreign_pure intro: honest_foreign\<close>)
  qed
qed

lemma vwp_publish_release_bundle:
  assumes ids: "\<And>c. is_release_id (sha c)" and cf: "collision_free sha (v0 K) new"
    and obs: "\<And>f c w r w'. observer = Some f \<Longrightarrow> f c w = (r, w') \<Longrightarrow> view w' = view w
      \<and> seen w' \<subseteq> insert (view w') (seen w) \<and> (\<forall>e. r = Inl e \<longrightarrow> foreign e)"
  shows "vwp (on_path K sha (v0 K) new H) (publish_release_bundle sha kv K new observer)
    (result_holds sha K new v0) (honest K (v0 K) new (restored sha K v0)) v0"
proof -
  let ?J = "on_path K sha (v0 K) new H" and ?E = "honest K (v0 K) new (restored sha K v0)"
  let ?cp = "auxiliary_state_key K CURRENT_POINTER_SUFFIX" and ?pp = "auxiliary_state_key K PREVIOUS_POINTER_SUFFIX"
    and ?tx = "auxiliary_state_key K TRANSACTION_SUFFIX"
  have E: "?E e v" if "foreign e" for e v using that by (rule honest_foreign)
  have observe: "vwp ?J (case observer of None \<Rightarrow> return () | Some f \<Rightarrow> f c) Q ?E v" if "Q () v" for c Q v
  proof (cases observer)
    case (Some f)
    have "vwp ?J (f c) Q ?E v"
    proof (intro vwpI wpI)
      fix w r w' assume "?J v" "view w = v" "seen w \<subseteq> Collect ?J" "f c w = (Inr r, w')"
      then show "seen w' \<subseteq> Collect ?J \<and> ?J (view w') \<and> Q r (view w')"
        using obs [OF Some] that by fastforce
    next
      fix w e w' assume "?J v" "view w = v" "seen w \<subseteq> Collect ?J" "f c w = (Inl e, w')"
      then show "seen w' \<subseteq> Collect ?J \<and> ?J (view w') \<and> ?E e (view w')"
        using obs [OF Some] E by fastforce
    qed
    then show ?thesis using Some by simp
  qed (use that in \<open>simp add: vwp_return\<close>)
  define tail where "tail = (\<lambda>rid live cur prev observed.
     bindA (recover_transaction sha kv (keys K) new live cur prev observed)
       (\<lambda>recovered. case recovered of
          Some result \<Rightarrow> return result
        | None \<Rightarrow> publish_without_intent sha kv (keys K) new rid live cur prev))"
  have tail: "vwp ?J (tail (sha new) (v K) i j observed) (result_holds sha K new v0) ?E v"
    if v: "v K = v0 K" "v ?pp = v0 ?pp" and st: "staged sha K new v" and new: "new \<noteq> []"
      and i: "parse_release_pointer (v ?cp) = Inr i" and j: "parse_release_pointer (v ?pp) = Inr j"
      and o: "case observed of None \<Rightarrow> True | Some t \<Rightarrow> parse_release_transaction (v ?tx) = Inr (Some t)"
    for v i j observed
    unfolding tail_def
  proof (rule vwp_bind, rule vwp_recover_transaction [OF ids new _ i j o], goal_cases)
    case 1
    then show ?case using cf v by simp
  next
    case 2
    have "vwp ?J (publish_without_intent sha kv (keys K) new (sha new) (v K) i j) (result_holds sha K new v0) ?E v"
    proof (rule vwp_publish_without_intent)
      show "parse_release_transaction (v ?tx) = Inr None" by (rule 2)
      show "collision_free sha (v K) new" using cf v by simp
      show "parse_release_pointer (v0 ?pp) = Inr j" using j v by simp
    qed (use ids i j st new v in simp_all)
    then show ?case by simp
  next
    case (3 r b c "from")
    then show ?case
      using st ids by (auto simp: result_holds_def complete_def intro!: vwp_return)
  qed
  define body where "body = (\<lambda>observed. bindA (ensure_immutable_release sha kv (keys K) new) (\<lambda>new_release_id.
     bindA (safe_read kv K) (\<lambda>current_content.
     bindA (read_pointer kv ?cp) (\<lambda>current_before.
     bindA (read_pointer kv ?pp) (\<lambda>previous_before.
     bindA (case observer of None \<Rightarrow> return () | Some f \<Rightarrow> f current_content) (\<lambda>_.
       tail new_release_id current_content current_before previous_before observed))))))"
  have body: "vwp ?J (body observed) (result_holds sha K new v0) ?E v"
    if v: "v K = v0 K" "v ?pp = v0 ?pp"
      and o: "case observed of None \<Rightarrow> True | Some t \<Rightarrow> parse_release_transaction (v ?tx) = Inr (Some t)"
    for v observed
    unfolding body_def
  proof (rule vwp_bind, rule vwp_ensure_immutable_release [where sha = sha and c = new, OF ids on_path_objects], goal_cases)
    case 1
    show ?case
    proof (intro vwp_bind vwp_safe_read vwp_read_pointer observe E, goal_cases)
      case (1 i j)
      then show ?case using tail [of "stage sha K new v" i j observed] v o \<open>new \<noteq> []\<close>
        by (cases observed) simp_all
    qed
  next
    case (2 e v')
    then show ?case by (intro honest_write_error [of "{NotChanged}"]) (simp_all add: agrees_def v)
  qed
  have run: "vwp ?J (bindA (bindA (safe_read kv ?tx) (\<lambda>raw. lift_sum (parse_release_transaction raw))) (\<lambda>found.
     bindA (settle_observed sha kv (keys K) new found) body)) (result_holds sha K new v0) ?E v0"
    by (intro vwp_bind vwp_read_transaction vwp_settle_observed E)
      (auto intro!: body split: option.splits)
  show ?thesis
  proof (cases "release_keys K")
    case (Inl e)
    then have "foreign e"
      by (auto simp: release_keys_def require_derived_kv_keys_def Let_def foreign_message restored_messages
          split: if_splits)
    then show ?thesis
      unfolding publish_release_bundle_def Inl by (intro vwp_bind vwp_lift) (auto intro: E)
  next
    case (Inr k)
    then have k: "k = keys K" by (simp add: release_keys_Inr)
    show ?thesis
      unfolding publish_release_bundle_def Inr k
    proof (rule vwp_bind, rule vwp_lift)
      fix a assume "Inr (keys K) = (Inr a :: kv_error + _)"
      then have a: "a = keys K" by simp
      show "vwp ?J (bindA (bindA (safe_read kv (transaction a)) (\<lambda>raw. lift_sum (parse_release_transaction raw))) (\<lambda>seen.
         bindA (settle_observed sha kv a new seen) (\<lambda>observed.
         bindA (ensure_immutable_release sha kv a new) (\<lambda>new_release_id.
         bindA (safe_read kv (production a)) (\<lambda>current_content.
         bindA (read_pointer kv (current_pointer a)) (\<lambda>current_before.
         bindA (read_pointer kv (previous_pointer a)) (\<lambda>previous_before.
         bindA (case observer of None \<Rightarrow> return () | Some f \<Rightarrow> f current_content) (\<lambda>_.
         bindA (recover_transaction sha kv a new current_content current_before previous_before observed)
           (\<lambda>recovered. case recovered of
              Some result \<Rightarrow> return result
            | None \<Rightarrow> publish_without_intent sha kv a new new_release_id current_content
                        current_before previous_before)))))))))
         (result_holds sha K new v0) ?E v0"
        using run unfolding a body_def tail_def release_keys_for_simps .
    qed simp
  qed
qed

end

section \<open>The properties\<close>

lemma passive_observerD:
  assumes "passive_observer view observer" and "observer = Some f" and "f c w = (r, w')"
  shows "view w' = view w \<and> (\<forall>e. r = Inl e \<longrightarrow> foreign e)"
proof -
  have "case f c w of (r, w') \<Rightarrow> view w' = view w \<and> (case r of Inl e \<Rightarrow> foreign e | Inr _ \<Rightarrow> True)"
    using assms(1,2) by (simp add: passive_observer_def)
  with assms(3) show ?thesis by auto
qed

lemma publish_contract:
  assumes kv: "consistent_kv kv view (\<lambda>_. {})" and sha: "digest sha"
    and cf: "collision_free sha (view w K) new" and ob: "passive_observer view observer"
  shows "wp (publish_release_bundle sha kv K new observer)
    (\<lambda>r w'. result_holds sha K new (view w) r (view w'))
    (\<lambda>e w'. honest K (view w K) new (restored sha K (view w)) e (view w')) w"
proof -
  let ?J = "on_path K sha (view w K) new False"
  have "consistent_kv.vwp view (\<lambda>_. {}) ?J (publish_release_bundle sha kv K new observer)
      (result_holds sha K new (view w)) (honest K (view w K) new (restored sha K (view w))) (view w)"
  proof (rule consistent_kv.vwp_publish_release_bundle [OF kv, where ?v0.0 = "view w"])
    show "is_release_id (sha c)" for c by (rule digest.sha_id [OF sha])
    show "view w' = view v \<and> {} \<subseteq> insert (view w') {} \<and> (\<forall>e. r = Inl e \<longrightarrow> foreign e)"
      if "observer = Some f" "f c v = (r, w')" for f c v r w'
      using passive_observerD [OF ob that] by simp
  qed (rule cf)
  then show ?thesis
    by (auto simp: consistent_kv.vwp_def [OF kv] on_path_def elim: wp_mono)
qed

lemma publish_path:
  assumes kv: "consistent_kv kv view (\<lambda>_. {})" and sha: "digest sha"
    and cf: "collision_free sha (view w K) new" and ob: "passive_observer view observer"
    and run: "publish_release_bundle sha (watched view kv) K new (map_option (\<lambda>f c. beside (f c)) observer) (w, {})
      = (r, (w', passed))"
    and v: "v \<in> insert (view w') passed"
  shows "on_path K sha (view w K) new (inspect_view sha K (view w) \<noteq> ''inconsistent'') v"
proof -
  let ?J = "on_path K sha (view w K) new (inspect_view sha K (view w) \<noteq> ''inconsistent'')"
  let ?view = "\<lambda>(w, s). view w" and ?seen = "snd :: 'a \<times> store set \<Rightarrow> store set"
  have wkv: "consistent_kv (watched view kv) ?view ?seen" by (rule watched_consistent_kv [OF kv])
  have "consistent_kv.vwp ?view ?seen ?J
      (publish_release_bundle sha (watched view kv) K new (map_option (\<lambda>f c. beside (f c)) observer))
      (result_holds sha K new (view w)) (honest K (view w K) new (restored sha K (view w))) (view w)"
  proof (rule consistent_kv.vwp_publish_release_bundle [OF wkv, where ?v0.0 = "view w"])
    show "is_release_id (sha c)" for c by (rule digest.sha_id [OF sha])
    show "?view y' = ?view y \<and> ?seen y' \<subseteq> insert (?view y') (?seen y) \<and> (\<forall>e. r = Inl e \<longrightarrow> foreign e)"
      if o: "map_option (\<lambda>f c. beside (f c)) observer = Some f" and f: "f c y = (r, y')" for f c y r y'
    proof -
      obtain g where g: "observer = Some g" "f = (\<lambda>c. beside (g c))" using o by auto
      obtain a s where y: "y = (a, s)" by (cases y)
      obtain q b where q: "g c a = (q, b)" by fastforce
      have "view b = view a \<and> (\<forall>e. q = Inl e \<longrightarrow> foreign e)"
        using passive_observerD [OF ob g(1) q] .
      then show ?thesis using f g y q by (auto simp: beside_def)
    qed
  qed (rule cf)
  moreover have "?J (view w)" by (simp add: on_path_def)
  ultimately have "wp (publish_release_bundle sha (watched view kv) K new (map_option (\<lambda>f c. beside (f c)) observer))
      (\<lambda>r y. snd y \<subseteq> Collect ?J \<and> ?J (?view y) \<and> result_holds sha K new (view w) r (?view y))
      (\<lambda>e y. snd y \<subseteq> Collect ?J \<and> ?J (?view y) \<and> honest K (view w K) new (restored sha K (view w)) e (?view y)) (w, {})"
    unfolding consistent_kv.vwp_def [OF wkv] by simp
  then show ?thesis using run v by (auto simp: wp_def split: sum.splits)
qed






end
