(* ===== verification/BundleLiveness.thy ===== *)
theory BundleLiveness
  imports BundleProperties
begin

text \<open>
  Total success over a publisher that serves every call: \<open>goes m Q v\<close> says that every run of \<open>m\<close> from
  the store \<open>v\<close> returns, with \<open>Q\<close> of its value and final store.  From it: a release can always be
  published from a healthy state, a first-release state, and the state an interrupted commit leaves.
\<close>

section \<open>What has to be accepted\<close>

text \<open>The names of a production key and the documents the release layer writes.\<close>

definition accepts ::
  "(bytes \<Rightarrow> string) \<Rightarrow> string \<Rightarrow> (string \<Rightarrow> bool) \<Rightarrow> (bytes \<Rightarrow> bool) \<Rightarrow> bool" where
  "accepts sha K usable fits \<longleftrightarrow> usable K
     \<and> (\<forall>suffix \<in> {CURRENT_POINTER_SUFFIX, PREVIOUS_POINTER_SUFFIX, TRANSACTION_SUFFIX}.
          usable (auxiliary_state_key K suffix))
     \<and> (\<forall>i. is_release_id i \<longrightarrow> usable (release_config_key K i) \<and> usable (release_manifest_key K i))
     \<and> (\<forall>i. pred_option is_release_id i \<longrightarrow> fits (the (ptr i)))
     \<and> (\<forall>t. wf_transaction t \<longrightarrow> fits (transaction_text t))
     \<and> (\<forall>c. fits c \<longrightarrow> fits (manifest_text sha c))"

text \<open>No object of a release holds foreign bytes.\<close>

definition stageable :: "(bytes \<Rightarrow> string) \<Rightarrow> string \<Rightarrow> bytes \<Rightarrow> store \<Rightarrow> bool" where
  "stageable sha K c v \<longleftrightarrow> v (release_config_key K (sha c)) \<in> {None, Some c}
     \<and> v (release_manifest_key K (sha c)) \<in> {None, Some (manifest_text sha c)}"

lemma stageable_put [simp]: "stageable sha K c (put K v a b x d) = stageable sha K c v"
  by (simp add: stageable_def)

lemma stageable_stage: "stageable sha K c v \<Longrightarrow> sha c \<noteq> sha d \<Longrightarrow> stageable sha K c (stage sha K d v)"
  by (auto simp: stageable_def stage_def key_defs)

lemma stageable_stage_self [simp]: "stageable sha K c (stage sha K c v)"
  by (simp add: stageable_def stage_def)

lemma staged_stageable: "staged sha K c v \<Longrightarrow> stageable sha K c v"
  by (simp add: staged_def stageable_def)

context reliable_kv begin

definition goes :: "('w, kv_error, 'a) action \<Rightarrow> ('a \<Rightarrow> store \<Rightarrow> bool) \<Rightarrow> store \<Rightarrow> bool" where
  "goes m Q v \<longleftrightarrow> (\<forall>w. calm w \<and> view w = v \<longrightarrow>
     wp m (\<lambda>a w'. calm w' \<and> Q a (view w')) (\<lambda>_ _. False) w)"

lemma goes_return: "Q a v \<Longrightarrow> goes (return a) Q v"
  by (simp add: goes_def wp_return)

lemma goes_bind: "goes m (\<lambda>a. goes (k a) Q) v \<Longrightarrow> goes (bindA m k) Q v"
  by (auto simp: goes_def wp_bindA intro: wp_mono)

lemma goes_try: "goes m Q v \<Longrightarrow> goes (try_catch m h) Q v"
  by (auto simp: goes_def wp_try_catch intro: wp_mono)

lemma goes_lift: "r = Inr a \<Longrightarrow> Q a v \<Longrightarrow> goes (lift_sum r) Q v"
  by (simp add: goes_def wp_lift_sum)

lemma goes_if: "(b \<Longrightarrow> goes m Q v) \<Longrightarrow> (\<not> b \<Longrightarrow> goes m' Q v) \<Longrightarrow> goes (if b then m else m') Q v"
  by simp

lemma goes_mono: "goes m Q v \<Longrightarrow> (\<And>a v'. Q a v' \<Longrightarrow> Q' a v') \<Longrightarrow> goes m Q' v"
  unfolding goes_def by (blast intro: wp_mono)

lemma goes_on_unknown: "goes m Q v \<Longrightarrow> goes (on_unknown x c m) Q v"
  unfolding on_unknown_def by (rule goes_try)

lemma goes_open: "usable k \<Longrightarrow> Q () v \<Longrightarrow> goes (kv_open kv k) Q v"
  unfolding goes_def
proof (intro allI impI, elim conjE)
  fix w assume u: "usable k" and q: "Q () v" and w: "calm w" "view w = v"
  from open_ok [OF w(1) u] obtain w' where r: "kv_open kv k w = (Inr (), w')" "calm w'" by blast
  then show "wp (kv_open kv k) (\<lambda>a w'. calm w' \<and> Q a (view w')) (\<lambda>_ _. False) w"
    using open_view [OF r(1)] q w by (simp add: wp_def)
qed

lemma goes_read: "usable k \<Longrightarrow> Q (v k) v \<Longrightarrow> goes (kv_read kv k) Q v"
  unfolding goes_def
proof (intro allI impI, elim conjE)
  fix w assume u: "usable k" and q: "Q (v k) v" and w: "calm w" "view w = v"
  from read_ok [OF w(1) u] obtain x w' where r: "kv_read kv k w = (Inr x, w')" "calm w'" by blast
  then show "wp (kv_read kv k) (\<lambda>a w'. calm w' \<and> Q a (view w')) (\<lambda>_ _. False) w"
    using read_view [OF r(1)] read_value [OF r(1)] q w by (simp add: wp_def)
qed

lemma goes_publish: "usable k \<Longrightarrow> fits c \<Longrightarrow> (\<And>j. Q j (v(k \<mapsto> c))) \<Longrightarrow> goes (kv_publish kv k c) Q v"
  unfolding goes_def
proof (intro allI impI, elim conjE)
  fix w assume u: "usable k" "fits c" and q: "\<And>j. Q j (v(k \<mapsto> c))" and w: "calm w" "view w = v"
  from publish_ok [OF w(1) u] obtain j w' where r: "kv_publish kv k c w = (Inr j, w')" "calm w'" by blast
  then show "wp (kv_publish kv k c) (\<lambda>a w'. calm w' \<and> Q a (view w')) (\<lambda>_ _. False) w"
    using publish_accepted [OF r(1)] q w by (simp add: wp_def)
qed

lemma goes_safe_read: "usable k \<Longrightarrow> Q (v k) v \<Longrightarrow> goes (safe_read kv k) Q v"
  unfolding safe_read_def by (intro goes_bind goes_open goes_read)

lemma goes_read_back: "usable k \<Longrightarrow> Q (v k = Some c) v \<Longrightarrow> goes (read_back kv k c) Q v"
  unfolding read_back_def by (intro goes_try goes_bind goes_read goes_return)

lemma goes_matches: "usable k \<Longrightarrow> v k = Some c \<Longrightarrow> Q True v \<Longrightarrow> goes (matches_after_write kv k c) Q v"
  unfolding matches_after_write_def READ_BACK_DELAYS_def
  by (auto intro!: goes_bind goes_return goes_read_back)

lemma goes_publish_verified:
  "usable k \<Longrightarrow> fits c \<Longrightarrow> (\<And>j. Q j (v(k \<mapsto> c))) \<Longrightarrow> goes (publish_verified sha kv k c) Q v"
  unfolding publish_verified_def
  by (intro goes_bind goes_open goes_try goes_publish goes_return)
    (auto intro!: goes_bind goes_matches goes_return)

text \<open>The writes of the release layer, each ending with its value stored.\<close>

lemma goes_write_unit:
  "usable k \<Longrightarrow> fits c \<Longrightarrow> Q () (v(k \<mapsto> c)) \<Longrightarrow> goes (bindA (publish_verified sha kv k c) (\<lambda>_. return ())) Q v"
  by (intro goes_bind goes_publish_verified goes_return)

lemma goes_ensure_object:
  "usable k \<Longrightarrow> fits c \<Longrightarrow> v k \<in> {None, Some c} \<Longrightarrow> Q () (v(k \<mapsto> c)) \<Longrightarrow>
   goes (ensure_object sha kv k c (v k) m) Q v"
  unfolding ensure_object_def
  by (auto intro: goes_write_unit goes_return simp: fun_upd_idem split: option.splits)

lemma goes_restore_pointer:
  "usable k \<Longrightarrow> pred_option is_release_id i \<Longrightarrow> fits (the (ptr i)) \<Longrightarrow> Q () (v(k := ptr i)) \<Longrightarrow>
   goes (restore_pointer sha kv k i) Q v"
  unfolding restore_pointer_def
  by (cases i) (auto simp: ptr_def intro!: goes_bind goes_lift goes_publish_verified goes_return)

lemma accepts_simps:
  assumes "accepts sha K usable fits"
  shows "usable K" "usable (auxiliary_state_key K CURRENT_POINTER_SUFFIX)"
    "usable (auxiliary_state_key K PREVIOUS_POINTER_SUFFIX)" "usable (auxiliary_state_key K TRANSACTION_SUFFIX)"
    "is_release_id i \<Longrightarrow> usable (release_config_key K i)" "is_release_id i \<Longrightarrow> usable (release_manifest_key K i)"
    "pred_option is_release_id j \<Longrightarrow> fits (the (ptr j))" "fits EMPTY_POINTER"
    "wf_transaction t \<Longrightarrow> fits (transaction_text t)" "fits c \<Longrightarrow> fits (manifest_text sha c)"
  using assms by (auto simp: accepts_def ptr_def dest: spec [of _ "None :: string option"])

lemma goes_transaction_write:
  "accepts sha K usable fits \<Longrightarrow> fits c \<Longrightarrow> Q () (v(auxiliary_state_key K TRANSACTION_SUFFIX \<mapsto> c)) \<Longrightarrow>
   goes (transaction_write sha kv (release_keys_for K) c z) Q v"
  unfolding transaction_write_def by (intro goes_on_unknown goes_write_unit) (simp_all add: accepts_simps)

lemma goes_write_phase:
  assumes "accepts sha K usable fits" and "wf_transaction t" and "advance_release_transaction t p = Inr t'"
    and "Q () (v(auxiliary_state_key K TRANSACTION_SUFFIX \<mapsto> transaction_text t'))"
  shows "goes (write_phase sha kv (release_keys_for K) t p z) Q v"
  unfolding write_phase_def
  by (rule goes_bind, rule goes_lift, simp add: assms(3) serialize_wf [OF advance_wf [OF assms(2,3)]],
      rule goes_transaction_write)
    (use assms advance_wf [OF assms(2,3)] in \<open>simp_all add: accepts_simps\<close>)

lemma goes_write_phase_unless_reached:
  assumes a: "accepts sha K usable fits" and t: "wf_transaction t" and p: "phase_index p = Some b"
    and q: "\<And>x. x \<in> {v (auxiliary_state_key K TRANSACTION_SUFFIX), Some (transaction_text (t\<lparr>phase := p\<rparr>))} \<Longrightarrow>
      Q () (v(auxiliary_state_key K TRANSACTION_SUFFIX := x))"
  shows "goes (write_phase_unless_reached sha kv (release_keys_for K) t p) Q v"
proof -
  obtain i where i: "phase_index (phase t) = Some i" using t by (auto simp: wf_transaction_def)
  have r: "phase_reached t p = Inr (b \<le> i)" using i p by (simp add: phase_reached_def validate_phase_def)
  have "goes (write_phase sha kv (release_keys_for K) t p Changed) Q v" if "\<not> b \<le> i"
    by (rule goes_write_phase [OF a t advance_phase [OF t i p]]) (use that q in auto)
  then show ?thesis
    unfolding write_phase_unless_reached_def r
    using q [of "v (auxiliary_state_key K TRANSACTION_SUFFIX)"]
    by (intro goes_bind goes_lift goes_if goes_return) auto
qed

lemma goes_read_pointer:
  "usable k \<Longrightarrow> parse_release_pointer (v k) = Inr i \<Longrightarrow> Q i v \<Longrightarrow> goes (read_pointer kv k) Q v"
  unfolding read_pointer_def by (intro goes_bind goes_safe_read goes_lift)

lemma goes_pointer_differs:
  "usable k \<Longrightarrow> parse_release_pointer (v k) = Inr i \<Longrightarrow> Q (i \<noteq> j) v \<Longrightarrow> goes (pointer_differs kv k j) Q v"
  unfolding pointer_differs_def by (intro goes_bind goes_read_pointer goes_return)

lemma goes_value_differs: "usable k \<Longrightarrow> Q (v k \<noteq> Some c) v \<Longrightarrow> goes (value_differs kv k c) Q v"
  unfolding value_differs_def by (intro goes_bind goes_safe_read goes_return)

lemma goes_any_of_Cons: "goes m (\<lambda>b v'. \<not> b \<and> goes (any_of ms) Q v') v \<Longrightarrow> goes (any_of (m # ms)) Q v"
  unfolding any_of.simps by (rule goes_bind, erule goes_mono) simp

lemma goes_any_of_Nil: "Q False v \<Longrightarrow> goes (any_of []) Q v"
  unfolding any_of.simps by (rule goes_return)

lemma goes_verification:
  assumes "usable k" "usable k1" "usable k2" and "v k = Some c" "parse_release_pointer (v k1) = Inr i"
    "parse_release_pointer (v k2) = Inr j" and "Q False v"
  shows "goes (any_of [value_differs kv k c, pointer_differs kv k1 i, pointer_differs kv k2 j]) Q v"
  using assms
  by (intro goes_any_of_Cons goes_any_of_Nil goes_value_differs goes_pointer_differs conjI) auto

lemma goes_predecessor_check:
  assumes a: "accepts sha K usable fits"
    and i: "case from of None \<Rightarrow> True | Some i \<Rightarrow> is_release_id i \<and> (\<exists>c. c \<noteq> [] \<and> sha c = i \<and> staged sha K c v)"
    and q: "Q () v"
  shows "goes (predecessor_check sha kv (release_keys_for K) from) Q v"
proof (cases "from")
  case (Some i)
  then obtain c where id: "is_release_id i" and c: "c \<noteq> []" "sha c = i" "staged sha K c v" using i by auto
  have "goes (predecessor_unavailable sha kv (release_keys_for K) i) (\<lambda>b v'. \<not> b \<and> v' = v) v"
    unfolding predecessor_unavailable_def
    by (rule goes_bind, rule goes_lift, rule keys_config_simps(1) [OF id], rule goes_bind, rule goes_safe_read)
      (use a id c in \<open>auto simp: accepts_simps staged_def manifest_bytes_text
        intro!: goes_bind goes_lift goes_safe_read goes_return\<close>)
  then show ?thesis
    using Some q by (auto simp: predecessor_check_def intro!: goes_bind goes_return elim!: goes_mono)
qed (use q in \<open>simp add: predecessor_check_def goes_return\<close>)

lemma goes_ensure_immutable_release:
  assumes a: "accepts sha K usable fits" and id: "is_release_id (sha c)" and c: "c \<noteq> []" "fits c"
    and s: "stageable sha K c v" and q: "Q (sha c) (stage sha K c v)"
  shows "goes (ensure_immutable_release sha kv (release_keys_for K) c) Q v"
proof -
  let ?ck = "release_config_key K (sha c)" and ?mk = "release_manifest_key K (sha c)"
  have k: "?mk \<noteq> ?ck" by (simp add: key_defs)
  note steps = goes_bind goes_on_unknown goes_safe_read goes_ensure_object [of "release_config_key K (sha c)"]
    goes_lift [OF release_id_for_simps(1) [OF c(1)]]
    goes_lift [OF keys_config_simps(1) [OF id, of "release_keys_for K", unfolded release_keys_for_simps]]
    goes_lift [OF keys_config_simps(2) [OF id, of "release_keys_for K", unfolded release_keys_for_simps]] goes_lift [OF manifest_bytes_text [OF c(1)]]
  have m: "goes (ensure_object sha kv ?mk (manifest_text sha c) ((v(?ck \<mapsto> c)) ?mk) m) (\<lambda>_. Q (sha c)) (v(?ck \<mapsto> c))" for m
  proof (rule goes_ensure_object)
    show "Q (sha c) ((v(?ck \<mapsto> c))(?mk \<mapsto> manifest_text sha c))" using q unfolding stage_def .
  qed (use a id c s k in \<open>auto simp: accepts_simps stageable_def\<close>)
  show ?thesis
    unfolding ensure_immutable_release_def release_keys_for_simps
  proof (intro steps, goal_cases)
    case 1
    show ?case using a id by (simp add: accepts_simps)
  next
    case 2
    show ?case using a id by (simp add: accepts_simps)
  next
    case 4
    show ?case using s by (simp add: stageable_def)
  next
    case 5
    show ?case using a id by (simp add: accepts_simps)
  next
    case 6
    show ?case by (rule goes_mono [OF m goes_return])
  qed (rule c)
qed

subsection \<open>The operations on a release\<close>

lemma goes_finish_transaction:
  assumes a: "accepts sha K usable fits" and t: "wf_transaction t" "phase t = ''prepare''"
    and b: "parse_release_pointer b = Inr (Some (to_release_id t))" "parse_release_pointer c = Inr (from_release_id t)"
    and q: "Q () (put K v (Some new) b c (ptr None))"
  shows "goes (finish_transaction sha kv (release_keys_for K) new t m) Q (put K v (Some new) b c d)"
proof -
  have adv: "advance_release_transaction t p = Inr (t\<lparr>phase := p\<rparr>)" if "phase_index p \<noteq> None" for p
    using advance_phase [OF t(1)] t(2) that by auto
  have last: "goes (transaction_write sha kv (release_keys_for K) EMPTY_POINTER Changed) Q (put K v (Some new) b c d)" for d
    by (rule goes_transaction_write [OF a]) (use a q in \<open>simp_all add: accepts_simps ptr_simps\<close>)
  show ?thesis
    unfolding finish_transaction_def release_keys_for_simps
    by (intro goes_bind goes_write_phase [OF a t(1) adv] goes_verification goes_if)
      (use a b last in \<open>simp_all add: accepts_simps\<close>)
qed

lemma goes_resume_transaction:
  assumes a: "accepts sha K usable fits" and t: "wf_transaction t" "to_release_id t = sha new"
    and b: "parse_release_pointer b = Inr i" "parse_release_pointer c = Inr j"
    and q: "\<And>r b c. Q (Some r) (put K v (Some new) b c (ptr None))"
  shows "goes (resume_transaction sha kv (release_keys_for K) new i j t) Q (put K v (Some new) b c d)"
proof -
  have last: "goes (transaction_write sha kv (release_keys_for K) EMPTY_POINTER Changed)
      (\<lambda>_. goes (return (Some r)) Q) (put K v (Some new) b c d)" for b c d r
    by (rule goes_transaction_write [OF a])
      (use a q in \<open>simp_all add: accepts_simps ptr_simps goes_return\<close>)
  have verified: "goes (bindA (write_phase_unless_reached sha kv (release_keys_for K) t ''verify'') (\<lambda>_.
      bindA (any_of [value_differs kv (production (release_keys_for K)) new,
                     pointer_differs kv (previous_pointer (release_keys_for K)) (from_release_id t),
                     pointer_differs kv (current_pointer (release_keys_for K)) (Some (to_release_id t))]) (\<lambda>bad.
      if bad then raise (CommitUnknownError ''release transaction verification is incomplete'' ChangeUnknown)
      else bindA (write_phase_unless_reached sha kv (release_keys_for K) t ''finalize'') (\<lambda>_.
           bindA (transaction_write sha kv (release_keys_for K) EMPTY_POINTER Changed) (\<lambda>_. return (Some r)))))) Q
      (put K v (Some new) b c d)"
    if "parse_release_pointer b = Inr (Some (to_release_id t))" "parse_release_pointer c = Inr (from_release_id t)" for b c d r
    unfolding release_keys_for_simps
    by (intro goes_bind goes_write_phase_unless_reached [OF a t(1)] goes_verification goes_if)
      (use a that t last in \<open>auto simp: accepts_simps\<close>)
  have ids: "pred_option is_release_id (from_release_id t)" "is_release_id (sha new)"
    using wf_ids [OF t(1)] t(2) by simp_all
  have pt: "parse_release_pointer (ptr (Some (to_release_id t))) = Inr (Some (to_release_id t))"
    "parse_release_pointer (ptr (from_release_id t)) = Inr (from_release_id t)" using ids t by simp_all
  note verified = verified [unfolded release_keys_for_simps]
  show ?thesis
    unfolding resume_transaction_def Let_def release_keys_for_simps
  proof (rule goes_bind, rule goes_on_unknown, rule goes_bind, rule goes_if, rule goes_restore_pointer, goal_cases)
    case 4
    show ?case
      unfolding put_upd
    proof (rule goes_if, rule goes_restore_pointer, goal_cases)
      case 4
      show ?case unfolding put_upd by (rule verified [OF pt])
    next
      case 5
      then show ?case by (intro goes_return verified pt) (use b in simp)
    qed (use a ids t in \<open>simp_all add: accepts_simps\<close>)
  next
    case 5
    then have j: "parse_release_pointer c = Inr (from_release_id t)" using b by simp
    show ?case
    proof (rule goes_return, rule goes_if, rule goes_restore_pointer, goal_cases)
      case 4
      show ?case unfolding put_upd by (rule verified [OF pt(1) j])
    next
      case 5
      then show ?case by (intro goes_return verified j) (use b in simp)
    qed (use a ids t in \<open>simp_all add: accepts_simps\<close>)
  qed (use a ids in \<open>simp_all add: accepts_simps\<close>)
qed

lemma goes_publish_unchanged:
  assumes a: "accepts sha K usable fits" and "is_release_id (sha new)"
    and "\<And>x r. Q r (v(auxiliary_state_key K CURRENT_POINTER_SUFFIX := x))"
  shows "goes (publish_unchanged sha kv (release_keys_for K) new (sha new) i j) Q v"
proof -
  have "Q r v" for r using assms(3) [of r "v (auxiliary_state_key K CURRENT_POINTER_SUFFIX)"] by simp
  then show ?thesis
    unfolding publish_unchanged_def release_keys_for_simps
    by (intro goes_bind goes_if goes_on_unknown goes_restore_pointer goes_return)
      (use assms in \<open>simp_all add: accepts_simps goes_return\<close>)
qed

lemma goes_commit_step: "goes m (\<lambda>_. Q ()) v \<Longrightarrow> goes (commit_step sha kv ks c i j x z m) Q v"
  unfolding commit_step_def by (intro goes_try goes_bind) (auto intro: goes_return elim: goes_mono)

lemma goes_publish_replacement:
  assumes a: "accepts sha K usable fits" and ids: "is_release_id (sha old)" "is_release_id (sha new)" "sha old \<noteq> sha new"
    and f: "old \<noteq> []" "fits old" "fits new" and s: "stageable sha K old v" and prev: "pred_option is_release_id prev"
    and q: "\<And>r b c. Q r (put K (stage sha K old v) (Some new) b c (ptr None))"
  shows "goes (publish_replacement sha kv (release_keys_for K) new (sha new) old i prev) Q v"
proof -
  define t where "t = new_transaction (Some (sha old)) (sha new) prev"
  have t: "wf_transaction t" unfolding t_def by (rule wf_new_transaction) (use ids prev in auto)
  have tf: "phase t = ''prepare''" "to_release_id t = sha new" "from_release_id t = Some (sha old)"
    by (simp_all add: t_def)
  have adv: "advance_release_transaction t p = Inr (t\<lparr>phase := p\<rparr>)" if "phase_index p \<noteq> None" for p
    using advance_phase [OF t] tf(1) that by auto
  note steps = goes_bind goes_commit_step goes_publish_verified goes_restore_pointer goes_return
  obtain v0 b c d where v0: "stage sha K old v = put K v0 (v K) b c d" and v0_def: "v0 = stage sha K old v"
    using put_self [of "stage sha K old v" K] by auto
  show ?thesis
    unfolding publish_replacement_def Let_def t_def [symmetric]
  proof (rule goes_bind, rule goes_ensure_immutable_release [OF a ids(1) f(1,2) s],
      rule goes_bind, rule goes_lift, unfold t_def [symmetric], rule serialize_wf [OF t],
      rule goes_bind, rule goes_transaction_write [OF a], goal_cases)
    case 1
    show ?case using a t by (simp add: accepts_simps)
  next
    case 2
    show ?case
      unfolding v0 release_keys_for_simps put_upd
      by (intro steps goes_write_phase [OF a t adv])
        (use a f ids t tf q in \<open>auto simp: accepts_simps v0_def
          intro!: goes_finish_transaction [OF a t tf(1)] goes_return\<close>)
  qed
qed

lemma goes_publish_first:
  assumes a: "accepts sha K usable fits" and id: "is_release_id (sha new)" and f: "fits new"
    and prev: "parse_release_pointer (v (auxiliary_state_key K PREVIOUS_POINTER_SUFFIX)) = Inr None"
    and q: "\<And>r b c. Q r (put K v (Some new) b c (ptr None))"
  shows "goes (publish_first sha kv (release_keys_for K) new (sha new) i) Q v"
proof -
  define t where "t = new_transaction None (sha new) None"
  have t: "wf_transaction t" unfolding t_def by (rule wf_new_transaction) (use id in auto)
  have tf: "phase t = ''prepare''" "to_release_id t = sha new" "from_release_id t = None"
    by (simp_all add: t_def)
  have adv: "advance_release_transaction t p = Inr (t\<lparr>phase := p\<rparr>)" if "phase_index p \<noteq> None" for p
    using advance_phase [OF t] tf(1) that by auto
  obtain b c d where v: "v = put K v (v K) b c d" and c: "parse_release_pointer c = Inr None"
    using put_self [of v K] prev by auto
  define v0 where "v0 = v"
  have v0: "v = put K v0 (v K) b c d" using v by (simp add: v0_def)
  show ?thesis
    unfolding publish_first_def Let_def t_def [symmetric]
  proof (rule goes_bind, rule goes_lift, rule serialize_wf [OF t],
      rule goes_bind, rule goes_transaction_write [OF a], goal_cases)
    case 1
    show ?case using a t by (simp add: accepts_simps)
  next
    case 2
    show ?case
      unfolding activate_first_release_def release_keys_for_simps
      by (subst v0, unfold put_upd, intro goes_bind goes_try goes_on_unknown goes_restore_pointer
          goes_publish_verified goes_return goes_write_phase [OF a t adv])
        (use a f id t tf c q in \<open>auto simp: accepts_simps v0_def
          intro!: goes_finish_transaction [OF a t tf(1)] goes_return\<close>)
  qed
qed

lemma goes_publish_without_intent:
  assumes a: "accepts sha K usable fits" and sha: "digest sha" and f: "fits new"
    and b: "parse_release_pointer (v (auxiliary_state_key K CURRENT_POINTER_SUFFIX)) = Inr i"
      "parse_release_pointer (v (auxiliary_state_key K PREVIOUS_POINTER_SUFFIX)) = Inr j"
    and live: "case v K of None \<Rightarrow> i = None \<and> j = None
      | Some old \<Rightarrow> old \<noteq> [] \<and> fits old \<and> i \<in> {None, Some (sha old)}
         \<and> (old = new \<or> sha old \<noteq> sha new \<and> stageable sha K old v)"
  shows "goes (publish_without_intent sha kv (release_keys_for K) new (sha new) (v K) i j) (\<lambda>_ _. True) v"
proof -
  have id: "is_release_id (sha c)" for c by (rule digest.sha_id [OF sha])
  show ?thesis
  proof (cases "v K")
    case None
    then show ?thesis
      using live b goes_publish_first [OF a id f] by (simp add: publish_without_intent_def)
  next
    case (Some old)
    then have o: "old \<noteq> []" "fits old" "i \<in> {None, Some (sha old)}"
      "old = new \<or> sha old \<noteq> sha new \<and> stageable sha K old v" using live by auto
    have "goes (if old = new then publish_unchanged sha kv (release_keys_for K) new (sha new) i j
      else publish_replacement sha kv (release_keys_for K) new (sha new) old i j) (\<lambda>_ _. True) v"
      using o parse_pointer_pred [OF b(2)]
      by (intro goes_if goes_publish_unchanged [OF a id] goes_publish_replacement [OF a id id _ _ _ f]) auto
    then show ?thesis
      using Some o by (auto simp: publish_without_intent_def intro!: goes_bind goes_lift)
  qed
qed

end

section \<open>A release can be published\<close>

text \<open>The predecessor of an intent has both its immutable objects.\<close>

definition predecessor_stored :: "(bytes \<Rightarrow> string) \<Rightarrow> string \<Rightarrow> string option \<Rightarrow> store \<Rightarrow> bool" where
  "predecessor_stored sha K from v \<longleftrightarrow>
     (case from of None \<Rightarrow> True | Some i \<Rightarrow> \<exists>c. c \<noteq> [] \<and> sha c = i \<and> staged sha K c v)"

text \<open>
  The states from which a candidate can be published without manual reconciliation: no intent and a
  first-release or healthy state; the intent of an interrupted commit of this candidate; or the intent
  of a commit of the live release that is complete but for the clearing of the intent.
\<close>

definition intent_settled :: "(bytes \<Rightarrow> string) \<Rightarrow> string \<Rightarrow> bytes \<Rightarrow> store \<Rightarrow> bool" where
  "intent_settled sha K new v \<longleftrightarrow>
     (case parse_release_transaction (v (auxiliary_state_key K TRANSACTION_SUFFIX)) of
        Inl e \<Rightarrow> False
      | Inr None \<Rightarrow> inspect_view sha K v \<in> {''first_release'', ''healthy''}
      | Inr (Some t) \<Rightarrow> inspect_view sha K v = ''recoverable_interrupted_commit''
          \<and> predecessor_stored sha K (from_release_id t) v
          \<and> (to_release_id t = sha new
             \<or> parse_release_pointer (v (auxiliary_state_key K CURRENT_POINTER_SUFFIX)) = Inr (Some (to_release_id t))
               \<and> parse_release_pointer (v (auxiliary_state_key K PREVIOUS_POINTER_SUFFIX)) = Inr (from_release_id t)
               \<and> (\<exists>c. v K = Some c \<and> staged sha K c v)))"

text \<open>The candidate and the live release are acceptable values whose object names hold no other bytes.\<close>

definition contents_ok :: "(bytes \<Rightarrow> string) \<Rightarrow> string \<Rightarrow> (bytes \<Rightarrow> bool) \<Rightarrow> bytes \<Rightarrow> store \<Rightarrow> bool" where
  "contents_ok sha K fits new v \<longleftrightarrow> new \<noteq> [] \<and> fits new \<and> stageable sha K new v
     \<and> (\<forall>old. v K = Some old \<longrightarrow> old \<noteq> [] \<and> fits old \<and> stageable sha K old v \<and> (sha old = sha new \<longrightarrow> old = new))"

lemma intent_settled_cases:
  assumes "intent_settled sha K new v"
  obtains i j txn where
    "parse_release_pointer (v (auxiliary_state_key K CURRENT_POINTER_SUFFIX)) = Inr i"
    "parse_release_pointer (v (auxiliary_state_key K PREVIOUS_POINTER_SUFFIX)) = Inr j"
    "parse_release_transaction (v (auxiliary_state_key K TRANSACTION_SUFFIX)) = Inr txn"
    "inspect_view sha K v = inspect_release_state (map_option sha (v K)) i j txn"
proof -
  have "inspect_view sha K v \<noteq> ''inconsistent''"
    using assms by (auto simp: intent_settled_def split: sum.splits option.splits)
  then show ?thesis using that by (auto simp: inspect_view_def split: sum.splits)
qed

context reliable_kv begin

lemma goes_retire_intent:
  assumes a: "accepts sha K usable fits" and t: "wf_transaction t" and c: "v K = Some c" "c \<noteq> []" "sha c = to_release_id t"
    and st: "staged sha K c v" and pre: "predecessor_stored sha K (from_release_id t) v"
    and b: "parse_release_pointer (v (auxiliary_state_key K CURRENT_POINTER_SUFFIX)) = Inr (Some (to_release_id t))"
      "parse_release_pointer (v (auxiliary_state_key K PREVIOUS_POINTER_SUFFIX)) = Inr (from_release_id t)"
    and q: "Q () (v(auxiliary_state_key K TRANSACTION_SUFFIX := ptr None))"
  shows "goes (retire_intent sha kv (release_keys_for K) t) Q v"
proof -
  have id: "is_release_id (to_release_id t)" "pred_option is_release_id (from_release_id t)" using wf_ids [OF t] by simp_all
  have "goes (committed_state_unproven sha kv (release_keys_for K) t) (\<lambda>b v'. \<not> b \<and> v' = v) v"
    unfolding committed_state_unproven_def release_keys_for_simps
  proof (rule goes_bind, rule goes_safe_read, goal_cases)
    case 2
    show ?case
      unfolding c(1) option.case
      by (intro goes_any_of_Cons goes_any_of_Nil goes_bind goes_pointer_differs goes_value_differs
          goes_lift [OF release_id_for_simps(1) [OF c(2)]] goes_lift [OF keys_config_simps(1) [OF id(1)]]
          goes_lift [OF keys_config_simps(2) [OF id(1)]] goes_return goes_safe_read
          goes_lift [OF manifest_bytes_text [OF c(2)]] conjI)
        (use a id c st b in \<open>auto simp: accepts_simps staged_def\<close>)
  qed (use a in \<open>simp add: accepts_simps\<close>)
  moreover have "goes (bindA (predecessor_check sha kv (release_keys_for K) (from_release_id t)) (\<lambda>_.
      transaction_write sha kv (release_keys_for K) EMPTY_POINTER NotChanged)) Q v"
  proof (rule goes_bind, rule goes_predecessor_check [OF a], goal_cases)
    case 1
    show ?case using pre id by (auto simp: predecessor_stored_def split: option.splits)
  next
    case 2
    show ?case
      by (rule goes_transaction_write [OF a]) (use a q in \<open>simp_all add: accepts_simps ptr_simps\<close>)
  qed
  ultimately show ?thesis
    unfolding retire_intent_def by (intro goes_bind) (auto elim!: goes_mono)
qed

text \<open>What the run has to recover after the observed intent is settled.\<close>

definition resumable :: "(bytes \<Rightarrow> string) \<Rightarrow> string \<Rightarrow> bytes \<Rightarrow> release_transaction option \<Rightarrow> store \<Rightarrow> bool" where
  "resumable sha K new observed v \<longleftrightarrow> (case observed of
     None \<Rightarrow> parse_release_transaction (v (auxiliary_state_key K TRANSACTION_SUFFIX)) = Inr None
       \<and> inspect_view sha K v \<in> {''first_release'', ''healthy''}
   | Some t \<Rightarrow> wf_transaction t \<and> to_release_id t = sha new \<and> predecessor_stored sha K (from_release_id t) v
       \<and> (\<exists>i j. parse_release_pointer (v (auxiliary_state_key K CURRENT_POINTER_SUFFIX)) = Inr i
          \<and> parse_release_pointer (v (auxiliary_state_key K PREVIOUS_POINTER_SUFFIX)) = Inr j
          \<and> i \<in> {None, from_release_id t, Some (sha new)} \<and> j \<in> {previous_release_id t, from_release_id t})
       \<and> v K = Some new)"

lemma goes_settle_observed:
  assumes a: "accepts sha K usable fits" and ok: "contents_ok sha K fits new v" and s: "intent_settled sha K new v"
    and txn: "parse_release_transaction (v (auxiliary_state_key K TRANSACTION_SUFFIX)) = Inr txn"
    and q: "\<And>o' x. resumable sha K new o' (v(auxiliary_state_key K TRANSACTION_SUFFIX := x)) \<Longrightarrow>
      Q o' (v(auxiliary_state_key K TRANSACTION_SUFFIX := x))"
  shows "goes (settle_observed sha kv (release_keys_for K) new txn) Q v"
proof (cases txn)
  case None
  then have "resumable sha K new None v" using s txn by (simp add: intent_settled_def resumable_def)
  then show ?thesis
    using None q [of None "v (auxiliary_state_key K TRANSACTION_SUFFIX)"] by (simp add: settle_observed_def goes_return)
next
  case (Some t)
  have t: "wf_transaction t" using txn Some by (simp add: parse_release_transaction_wf)
  have new: "new \<noteq> []" using ok by (simp add: contents_ok_def)
  obtain i j where ij: "parse_release_pointer (v (auxiliary_state_key K CURRENT_POINTER_SUFFIX)) = Inr i"
    "parse_release_pointer (v (auxiliary_state_key K PREVIOUS_POINTER_SUFFIX)) = Inr j"
    "inspect_release_state (map_option sha (v K)) i j (Some t) = ''recoverable_interrupted_commit''"
  proof (rule intent_settled_cases [OF s], goal_cases)
    case (1 i j txn')
    then show ?case using s txn Some by (intro 1(1)) (auto simp: intent_settled_def)
  qed
  then obtain c where c: "v K = Some c" "sha c = to_release_id t"
    "i \<in> {None, from_release_id t, Some (to_release_id t)}" "j \<in> {previous_release_id t, from_release_id t}"
    by (auto simp: inspect_release_state_def split: if_splits)
  have cn: "c \<noteq> []" "sha c = sha new \<Longrightarrow> c = new" using ok c by (auto simp: contents_ok_def)
  have pre: "predecessor_stored sha K (from_release_id t) v" using s txn Some by (simp add: intent_settled_def)
  show ?thesis
  proof (cases "to_release_id t = sha new")
    case True
    then have "resumable sha K new (Some t) v" using t c cn ij pre by (simp add: resumable_def)
    then show ?thesis
      using Some True new q [of "Some t" "v (auxiliary_state_key K TRANSACTION_SUFFIX)"]
      by (auto simp: settle_observed_def intro!: goes_bind goes_lift goes_return)
  next
    case False
    let ?v = "v(auxiliary_state_key K TRANSACTION_SUFFIX := ptr None)"
    from False have st: "staged sha K c v" "i = Some (to_release_id t)" "j = from_release_id t"
      using s txn Some ij c by (auto simp: intent_settled_def)
    have "resumable sha K new None ?v"
      using ij c st wf_ids(4) [OF t] by (simp add: resumable_def inspect_view_def inspect_release_state_def)
    then have "goes (retire_intent sha kv (release_keys_for K) t) (\<lambda>_. goes (return None) Q) v"
      using q ij st c by (intro goes_retire_intent [OF a t c(1) cn(1) c(2) st(1) pre] goes_return) simp_all
    then show ?thesis
      using Some False new by (auto simp: settle_observed_def intro!: goes_bind goes_lift)
  qed
qed

lemma resumable_stage:
  "resumable sha K new observed v \<Longrightarrow> resumable sha K new observed (stage sha K new v)"
proof -
  have st: "staged sha K c v \<Longrightarrow> sha c \<noteq> sha new \<Longrightarrow> staged sha K c (stage sha K new v)" for c
    by (rule staged_stage_other) auto
  have "inspect_view sha K (stage sha K new v) = inspect_view sha K v" unfolding inspect_view_def stage_sel ..
  moreover have "predecessor_stored sha K (from_release_id t) (stage sha K new v)"
    if "predecessor_stored sha K (from_release_id t) v" "wf_transaction t" "to_release_id t = sha new" for t
    using that wf_ids(4) [OF that(2)] st by (fastforce simp: predecessor_stored_def split: option.splits)
  ultimately show "resumable sha K new observed v \<Longrightarrow> resumable sha K new observed (stage sha K new v)"
    by (auto simp: resumable_def split: option.splits)
qed

lemma goes_after_staging:
  assumes a: "accepts sha K usable fits" and sha: "digest sha" and ok: "contents_ok sha K fits new v"
    and r: "resumable sha K new observed v"
    and b: "parse_release_pointer (v (auxiliary_state_key K CURRENT_POINTER_SUFFIX)) = Inr i"
      "parse_release_pointer (v (auxiliary_state_key K PREVIOUS_POINTER_SUFFIX)) = Inr j"
  shows "goes (bindA (recover_transaction sha kv (release_keys_for K) new (v K) i j observed)
       (\<lambda>recovered. case recovered of
          Some result \<Rightarrow> return result
        | None \<Rightarrow> publish_without_intent sha kv (release_keys_for K) new (sha new) (v K) i j)) (\<lambda>_ _. True) v"
proof (cases observed)
  case None
  have txn: "parse_release_transaction (v (auxiliary_state_key K TRANSACTION_SUFFIX)) = Inr None"
    and live: "inspect_release_state (map_option sha (v K)) i j None \<in> {''first_release'', ''healthy''}"
    using r None b by (auto simp: resumable_def inspect_view_def)
  have pub: "goes (publish_without_intent sha kv (release_keys_for K) new (sha new) (v K) i j) (\<lambda>_ _. True) v"
  proof (rule goes_publish_without_intent [OF a sha _ b])
    show "fits new" using ok by (simp add: contents_ok_def)
    show "case v K of None \<Rightarrow> i = None \<and> j = None
      | Some old \<Rightarrow> old \<noteq> [] \<and> fits old \<and> i \<in> {None, Some (sha old)}
         \<and> (old = new \<or> sha old \<noteq> sha new \<and> stageable sha K old v)"
      using live ok by (auto simp: inspect_release_state_def contents_ok_def split: option.splits if_splits)
  qed
  show ?thesis
    unfolding recover_transaction_def None option.case
    by (intro goes_bind, unfold release_keys_for_simps, rule goes_safe_read, use a in \<open>simp add: accepts_simps\<close>,
        rule goes_lift [OF txn]) (simp add: goes_return pub)
next
  case (Some t)
  have t: "wf_transaction t" "to_release_id t = sha new" "predecessor_stored sha K (from_release_id t) v"
      "i \<in> {None, from_release_id t, Some (sha new)}" "j \<in> {previous_release_id t, from_release_id t}"
    and live: "v K = Some new" and new: "new \<noteq> []"
    using r Some b ok by (auto simp: resumable_def contents_ok_def)
  obtain b' c' d' where v: "v = put K v (Some new) b' c' d'"
    and b': "parse_release_pointer b' = Inr i" "parse_release_pointer c' = Inr j"
    using put_self [of v K] live b by metis
  have res: "goes (resume_transaction sha kv (release_keys_for K) new i j t) (\<lambda>r _. \<exists>x. r = Some x) v"
    by (subst v, rule goes_resume_transaction [OF a t(1,2) b']) simp
  have pre: "case from_release_id t of None \<Rightarrow> True
      | Some i \<Rightarrow> is_release_id i \<and> (\<exists>c. c \<noteq> [] \<and> sha c = i \<and> staged sha K c v)"
    using t(3) wf_ids(2) [OF t(1)] by (auto simp: predecessor_stored_def split: option.splits)
  show ?thesis
    unfolding recover_transaction_def Some live option.case
  proof (rule goes_bind, rule goes_bind, rule goes_return, unfold option.case,
      rule goes_bind, rule goes_lift [OF release_id_for_simps(1) [OF new]], rule goes_if, goal_cases)
    case 2
    show ?case
    proof (rule goes_bind, rule goes_bind, rule goes_lift [OF release_id_for_simps(1) [OF new]], rule goes_return,
        rule goes_if, goal_cases)
      case 2
      show ?case
      proof (rule goes_if, goal_cases)
        case 2
        show ?case
          by (rule goes_bind, rule goes_predecessor_check [OF a pre], rule goes_mono [OF res]) (auto intro: goes_return)
      qed (use t in auto)
    qed (use t in auto)
  qed (use t in auto)
qed

lemma goes_publish_release_bundle:
  assumes a: "accepts sha K usable fits" and sha: "digest sha" and K: "K \<noteq> []" "length K \<le> 427"
    and ok: "contents_ok sha K fits new v" and s: "intent_settled sha K new v"
  shows "goes (publish_release_bundle sha kv K new None) (\<lambda>_ _. True) v"
proof (rule intent_settled_cases [OF s])
  fix i j txn
  assume b: "parse_release_pointer (v (auxiliary_state_key K CURRENT_POINTER_SUFFIX)) = Inr i"
    "parse_release_pointer (v (auxiliary_state_key K PREVIOUS_POINTER_SUFFIX)) = Inr j"
    and txn: "parse_release_transaction (v (auxiliary_state_key K TRANSACTION_SUFFIX)) = Inr txn"
  have keys: "release_keys K = Inr (release_keys_for K)" using K by (simp add: release_keys_Inr)
  have id: "is_release_id (sha new)" by (rule digest.sha_id [OF sha])
  have new: "new \<noteq> []" "fits new" using ok by (simp_all add: contents_ok_def)
  define ready where "ready = (\<lambda>observed v'. resumable sha K new observed v' \<and> contents_ok sha K fits new v'
    \<and> parse_release_pointer (v' (auxiliary_state_key K CURRENT_POINTER_SUFFIX)) = Inr i
    \<and> parse_release_pointer (v' (auxiliary_state_key K PREVIOUS_POINTER_SUFFIX)) = Inr j)"
  have settle: "goes (settle_observed sha kv (release_keys_for K) new txn) ready v"
    by (rule goes_settle_observed [OF a ok s txn])
      (use ok b in \<open>simp add: ready_def contents_ok_def stageable_def\<close>)
  have rest: "goes (bindA (ensure_immutable_release sha kv (release_keys_for K) new) (\<lambda>new_release_id.
     bindA (safe_read kv (production (release_keys_for K))) (\<lambda>current_content.
     bindA (read_pointer kv (current_pointer (release_keys_for K))) (\<lambda>current_before.
     bindA (read_pointer kv (previous_pointer (release_keys_for K))) (\<lambda>previous_before.
     bindA (case None of None \<Rightarrow> return () | Some f \<Rightarrow> f current_content) (\<lambda>_.
     bindA (recover_transaction sha kv (release_keys_for K) new current_content current_before previous_before observed)
       (\<lambda>recovered. case recovered of
          Some result \<Rightarrow> return result
        | None \<Rightarrow> publish_without_intent sha kv (release_keys_for K) new new_release_id current_content
                    current_before previous_before))))))) (\<lambda>_ _. True) v'"
    if r: "ready observed v'" for observed v'
  proof -
    let ?v = "stage sha K new v'"
    have st: "stageable sha K new v'" using r by (simp add: ready_def contents_ok_def)
    have "contents_ok sha K fits new ?v"
      unfolding contents_ok_def
    proof (intro conjI allI impI, goal_cases)
      case (6 old)
      then show ?case using r stageable_stage [of sha K old v' new]
        by (cases "sha old = sha new") (auto simp: ready_def contents_ok_def)
    qed (use r in \<open>auto simp: ready_def contents_ok_def\<close>)
    with r have v: "contents_ok sha K fits new ?v" "resumable sha K new observed ?v"
      "parse_release_pointer (?v (auxiliary_state_key K CURRENT_POINTER_SUFFIX)) = Inr i"
      "parse_release_pointer (?v (auxiliary_state_key K PREVIOUS_POINTER_SUFFIX)) = Inr j"
      by (auto simp: ready_def resumable_stage)
    show ?thesis
      unfolding release_keys_for_simps option.case
      by (rule goes_bind, rule goes_ensure_immutable_release [OF a id new st], rule goes_bind, rule goes_safe_read,
          use a in \<open>simp add: accepts_simps\<close>, rule goes_bind, rule goes_read_pointer,
          use a in \<open>simp add: accepts_simps\<close>, rule v(3), rule goes_bind, rule goes_read_pointer,
          use a in \<open>simp add: accepts_simps\<close>, rule v(4), rule goes_bind, rule goes_return, rule goes_after_staging [OF a sha v])
  qed
  show ?thesis
    unfolding publish_release_bundle_def
    by (rule goes_bind, rule goes_lift [OF keys], rule goes_bind, rule goes_bind, rule goes_safe_read,
        use a in \<open>simp add: accepts_simps\<close>, unfold release_keys_for_simps, rule goes_lift [OF txn],
        rule goes_bind, rule goes_mono [OF settle], rule rest [unfolded release_keys_for_simps])
qed

end


end
