(* ===== verification/CloudflareKv.thy ===== *)
theory CloudflareKv
  imports BundleProperties
begin

text \<open>
  \<^verbatim>\<open>src/clash_relay/publishers/cloudflare_kv.py\<close> over a remote that is a parameter: a function from a
  request and a world to a reply.  The locale \<open>kv_remote\<close> states the documented behaviour of the
  Workers KV endpoints for the requests this publisher builds, and the publisher is shown to be a
  \<open>consistent_kv\<close> over it.
\<close>

section \<open>Requests and replies\<close>

record http_request =
  http_method :: string
  http_url :: string
  http_headers :: "(string \<times> string) list"
  http_data :: "bytes option"

text \<open>\<open>Unreachable\<close> covers \<^verbatim>\<open>URLError\<close>, \<^verbatim>\<open>OSError\<close> and \<^verbatim>\<open>http.client.HTTPException\<close>.\<close>

datatype http_reply = Body bytes | HttpStatus int | Unreachable

record 'w remote =
  send :: "http_request \<Rightarrow> 'w \<Rightarrow> http_reply \<times> 'w"
  token_hex :: "'w \<Rightarrow> string \<times> 'w"
  sleep :: "rat \<Rightarrow> 'w \<Rightarrow> 'w"

definition API_ROOT :: string where "API_ROOT = ''https://api.cloudflare.com/client/v4''"
definition MAX_VALUE_BYTES :: nat where "MAX_VALUE_BYTES = 25 * 1024 * 1024"
definition MAX_NAMESPACE_PAGES :: nat where "MAX_NAMESPACE_PAGES = 100"
definition MAX_KEY_PAGES :: nat where "MAX_KEY_PAGES = 100"

definition http_write_outcome_is_ambiguous :: "int \<Rightarrow> bool" where
  "http_write_outcome_is_ambiguous status \<longleftrightarrow> 500 \<le> status \<or> status \<in> {408, 425, 429}"

text \<open>
  What \<^verbatim>\<open>_request_json\<close> makes of a reply.  \<^verbatim>\<open>json.loads\<close> raises a plain \<^verbatim>\<open>ValueError\<close>, which the
  handler does not name, on an integer beyond the digit limit.
\<close>

definition classify_reply :: "bool \<Rightarrow> http_reply \<Rightarrow> kv_error + json dict" where
  "classify_reply unknown_on_unverified reply = (case reply of
     HttpStatus code \<Rightarrow>
       if unknown_on_unverified \<and> http_write_outcome_is_ambiguous code
       then Inl (commit_unknown (''Cloudflare API write outcome is unknown after HTTP '' @ int_text code))
       else Inl (PublicationError (''Cloudflare API request failed with HTTP '' @ int_text code))
   | Unreachable \<Rightarrow>
       if unknown_on_unverified then Inl (commit_unknown ''Cloudflare API write response was not received'')
       else Inl (PublicationError ''Cloudflare API request failed'')
   | Body payload \<Rightarrow>
       (let unverified =
          (if unknown_on_unverified then Inl (commit_unknown ''Cloudflare API write response could not be verified'')
           else Inl (PublicationError ''Cloudflare API returned an invalid response'')) in
        if \<not> valid_utf8 payload then unverified
        else (case json_loads payload of
            Inl IntTooLong \<Rightarrow> Inl (EscapedError ''ValueError'')
          | Inl _ \<Rightarrow> unverified
          | Inr (JObj document) \<Rightarrow>
              (case map_of document ''success'' of
                 Some (JBool True) \<Rightarrow> Inr document
               | Some (JBool False) \<Rightarrow> Inl (PublicationError ''Cloudflare API rejected the request'')
               | _ \<Rightarrow> unverified)
          | Inr _ \<Rightarrow> unverified)))"

definition request_json ::
  "'w remote \<Rightarrow> http_request \<Rightarrow> bool \<Rightarrow> ('w, kv_error, json dict) action" where
  "request_json remote request unknown_on_unverified = (\<lambda>w. case send remote request w of
     (reply, w') \<Rightarrow> (classify_reply unknown_on_unverified reply, w'))"

section \<open>Names and URLs\<close>

text \<open>\<^verbatim>\<open>str.isspace\<close> of one code point.\<close>

definition point_isspace :: "nat \<Rightarrow> bool" where
  "point_isspace p \<longleftrightarrow> (9 \<le> p \<and> p \<le> 13) \<or> (28 \<le> p \<and> p \<le> 32) \<or> p \<in> {133, 160, 5760, 8232, 8233, 8239, 8287, 12288}
     \<or> (8192 \<le> p \<and> p \<le> 8202)"

definition points :: "string \<Rightarrow> nat list" where
  "points s = (case utf8_points s of Some ps \<Rightarrow> ps | None \<Rightarrow> [])"

definition validate_key_name :: "string \<Rightarrow> kv_error + unit" where
  "validate_key_name key_name =
     (if key_name = [] \<or> key_name \<in> {''.'', ''..''}
        then Inl (PublicationError ''Cloudflare KV key must be a non-empty ordinary key'')
      else if list_ex point_isspace (points key_name)
        then Inl (PublicationError ''Cloudflare KV key must not contain whitespace'')
      else if \<not> valid_utf8 key_name then Inl (EscapedError ''UnicodeEncodeError'')
      else if 512 < length key_name then Inl (PublicationError ''Cloudflare KV key exceeds the 512-byte limit'')
      else Inr ())"

definition unreserved :: "char \<Rightarrow> bool" where
  "unreserved c \<longleftrightarrow> is_digit c \<or> is_lower c \<or> is_upper c \<or> c \<in> set ''_.-~''"

definition upper_hex :: "nat \<Rightarrow> char" where
  "upper_hex n = (if n < 10 then char_of (48 + n) else char_of (55 + n))"

text \<open>\<^verbatim>\<open>urllib.parse.quote(s, safe="")\<close>\<close>

fun url_quote :: "string \<Rightarrow> string" where
  "url_quote [] = []"
| "url_quote (c # s) =
     (if unreserved c then c # url_quote s
      else CHR ''%'' # upper_hex (of_char c div 16) # upper_hex (of_char c mod 16) # url_quote s)"

text \<open>\<^verbatim>\<open>quote_plus\<close>, as \<^verbatim>\<open>urlencode\<close> applies it to keys and values.\<close>

fun url_quote_plus :: "string \<Rightarrow> string" where
  "url_quote_plus [] = []"
| "url_quote_plus (c # s) =
     (if c = CHR '' '' then CHR ''+'' # url_quote_plus s
      else if unreserved c then c # url_quote_plus s
      else CHR ''%'' # upper_hex (of_char c div 16) # upper_hex (of_char c mod 16) # url_quote_plus s)"

definition urlencode :: "(string \<times> string) list \<Rightarrow> string" where
  "urlencode query = join_with ''&'' (map (\<lambda>(k, v). url_quote_plus k @ ''='' @ url_quote_plus v) query)"

section \<open>The publisher\<close>

record cf_config =
  cf_token :: string
  cf_account :: string
  cf_title :: string

definition cf_init :: "cf_config \<Rightarrow> string \<Rightarrow> kv_error + unit" where
  "cf_init cfg key_name =
     (if cf_token cfg = [] then Inl (PublicationError ''Cloudflare API token is required'')
      else if cf_account cfg = [] then Inl (PublicationError ''Cloudflare account ID is required'')
      else if list_all point_isspace (points (cf_title cfg))
        then Inl (PublicationError ''Cloudflare KV namespace title is required'')
      else validate_key_name key_name)"

definition cf_headers :: "cf_config \<Rightarrow> (string \<times> string) list" where
  "cf_headers cfg = [(''Accept'', ''application/json''), (''Authorization'', ''Bearer '' @ cf_token cfg),
     (''User-Agent'', ''clash-relay/0.1'')]"

definition namespaces_url :: "cf_config \<Rightarrow> nat \<Rightarrow> string" where
  "namespaces_url cfg page = API_ROOT @ ''/accounts/'' @ url_quote (cf_account cfg) @ ''/storage/kv/namespaces?''
     @ urlencode [(''page'', nat_digits page), (''per_page'', ''100''), (''direction'', ''asc'')]"

text \<open>The identifiers on one page whose title is the configured one.\<close>

definition namespace_matches :: "cf_config \<Rightarrow> json list \<Rightarrow> string list" where
  "namespace_matches cfg items = concat (map (\<lambda>item. case item of
     JObj d \<Rightarrow>
       (if map_of d ''title'' = Some (JStr (cf_title cfg))
        then (case map_of d ''id'' of Some (JStr i) \<Rightarrow> if i \<noteq> [] then [i] else [] | _ \<Rightarrow> [])
        else [])
   | _ \<Rightarrow> []) items)"

text \<open>\<^verbatim>\<open>isinstance(total_count, int)\<close>, for which a JSON boolean counts.\<close>

definition result_total :: "json dict \<Rightarrow> int option" where
  "result_total document = (case map_of document ''result_info'' of
     Some (JObj info) \<Rightarrow> (case map_of info ''total_count'' of
         Some (JInt n) \<Rightarrow> Some n | Some (JBool b) \<Rightarrow> Some (if b then 1 else 0) | _ \<Rightarrow> None)
   | _ \<Rightarrow> None)"

text \<open>The page loop; the first argument counts the pages still allowed.\<close>

fun namespace_pages ::
  "'w remote \<Rightarrow> cf_config \<Rightarrow> nat \<Rightarrow> nat \<Rightarrow> string list \<Rightarrow> ('w, kv_error, string list) action" where
  "namespace_pages remote cfg 0 page found =
     raise (PublicationError ''Cloudflare namespace listing exceeded the safety page limit'')"
| "namespace_pages remote cfg (Suc left) page found =
     bindA (request_json remote \<lparr>http_method = ''GET'', http_url = namespaces_url cfg page,
         http_headers = cf_headers cfg, http_data = None\<rparr> False) (\<lambda>document.
     case map_of document ''result'' of
       Some (JList items) \<Rightarrow>
         (let found' = found @ namespace_matches cfg items in
          if (case result_total document of Some n \<Rightarrow> n \<le> int page * 100 | None \<Rightarrow> False)
             \<or> length items < 100
          then return found'
          else namespace_pages remote cfg left (page + 1) found')
     | _ \<Rightarrow> raise (PublicationError ''Cloudflare namespace listing returned an invalid result''))"

definition resolve_namespace_id :: "'w remote \<Rightarrow> cf_config \<Rightarrow> ('w, kv_error, string) action" where
  "resolve_namespace_id remote cfg =
     bindA (namespace_pages remote cfg MAX_NAMESPACE_PAGES 1 []) (\<lambda>found.
     case found of [i] \<Rightarrow> return i
     | _ \<Rightarrow> raise (PublicationError ''Cloudflare KV namespace title must resolve to exactly one namespace''))"

definition keys_url :: "cf_config \<Rightarrow> string \<Rightarrow> string \<Rightarrow> string \<Rightarrow> string" where
  "keys_url cfg namespace prefix cursor =
     API_ROOT @ ''/accounts/'' @ url_quote (cf_account cfg) @ ''/storage/kv/namespaces/'' @ url_quote namespace
     @ ''/keys?'' @ urlencode ([(''prefix'', prefix), (''limit'', ''1000'')]
         @ (if cursor = [] then [] else [(''cursor'', cursor)]))"

definition listed_name :: "string \<Rightarrow> json \<Rightarrow> kv_error + string" where
  "listed_name prefix item =
     (let escaped = Inl (PublicationError ''Cloudflare KV key listing escaped the requested prefix'') in
      case item of
        JObj d \<Rightarrow> (case map_of d ''name'' of
            Some (JStr name) \<Rightarrow> if take (length prefix) name = prefix then Inr name else escaped
          | _ \<Rightarrow> escaped)
      | _ \<Rightarrow> escaped)"

definition next_cursor :: "json dict \<Rightarrow> json" where
  "next_cursor document = (case map_of document ''result_info'' of
     Some (JObj info) \<Rightarrow> (case map_of info ''cursor'' of Some c \<Rightarrow> c | None \<Rightarrow> JNull) | _ \<Rightarrow> JNull)"

fun key_pages ::
  "'w remote \<Rightarrow> cf_config \<Rightarrow> string \<Rightarrow> string \<Rightarrow> nat \<Rightarrow> string \<Rightarrow> string list \<Rightarrow> string list \<Rightarrow>
   ('w, kv_error, string list) action" where
  "key_pages remote cfg namespace prefix 0 cursor seen_cursors names =
     raise (PublicationError ''Cloudflare KV key listing exceeded the safety page limit'')"
| "key_pages remote cfg namespace prefix (Suc left) cursor seen_cursors names =
     bindA (request_json remote \<lparr>http_method = ''GET'', http_url = keys_url cfg namespace prefix cursor,
         http_headers = cf_headers cfg, http_data = None\<rparr> False) (\<lambda>document.
     case map_of document ''result'' of
       Some (JList items) \<Rightarrow>
         bindA (lift_sum (mapE (listed_name prefix) items)) (\<lambda>page_names.
         (let names' = names @ page_names in
          case next_cursor document of
            JNull \<Rightarrow> return names'
          | JStr c \<Rightarrow>
              if c = [] then return names'
              else if c \<in> set seen_cursors
                then raise (PublicationError ''Cloudflare KV key listing returned an invalid cursor'')
              else key_pages remote cfg namespace prefix left c (c # seen_cursors) names'
          | _ \<Rightarrow> raise (PublicationError ''Cloudflare KV key listing returned an invalid cursor'')))
     | _ \<Rightarrow> raise (PublicationError ''Cloudflare KV key listing returned an invalid result''))"

definition list_keys ::
  "'w remote \<Rightarrow> cf_config \<Rightarrow> string \<Rightarrow> string \<Rightarrow> ('w, kv_error, string list) action" where
  "list_keys remote cfg namespace prefix =
     (if prefix = [] \<or> 512 < length prefix
      then raise (PublicationError ''Cloudflare KV key prefix is invalid'')
      else key_pages remote cfg namespace prefix MAX_KEY_PAGES [] [] [])"

definition value_url :: "cf_config \<Rightarrow> string \<Rightarrow> string \<Rightarrow> string" where
  "value_url cfg namespace key = API_ROOT @ ''/accounts/'' @ url_quote (cf_account cfg)
     @ ''/storage/kv/namespaces/'' @ url_quote namespace @ ''/values/'' @ url_quote key"

definition get_request :: "cf_config \<Rightarrow> string \<Rightarrow> string \<Rightarrow> http_request" where
  "get_request cfg namespace key = \<lparr>http_method = ''GET'', http_url = value_url cfg namespace key,
     http_headers = cf_headers cfg, http_data = None\<rparr>"

definition cf_read :: "'w remote \<Rightarrow> cf_config \<Rightarrow> string \<Rightarrow> string \<Rightarrow> ('w, kv_error, bytes option) action" where
  "cf_read remote cfg namespace key = (\<lambda>w. case send remote (get_request cfg namespace key) w of
     (reply, w') \<Rightarrow> ((case reply of
        HttpStatus code \<Rightarrow>
          if code = 404 then Inr None
          else Inl (PublicationError (''Cloudflare API request failed with HTTP '' @ int_text code))
      | Unreachable \<Rightarrow> Inl (PublicationError ''Cloudflare API request failed'')
      | Body payload \<Rightarrow>
          (let content = take (MAX_VALUE_BYTES + 1) payload in
           if MAX_VALUE_BYTES < length content
           then Inl (PublicationError ''Cloudflare KV value exceeds the 25 MiB safety limit'')
           else Inr (Some content))), w'))"

definition CRLF :: string where "CRLF = [CHR 0x0D, CHR 0x0A]"

definition part_prefix :: "string \<Rightarrow> bytes" where
  "part_prefix boundary = ''--'' @ boundary @ CRLF
     @ ''Content-Disposition: form-data; name='' @ [CHR 0x22] @ ''value'' @ [CHR 0x22] @ ''; filename=''
     @ [CHR 0x22] @ ''value.bin'' @ [CHR 0x22] @ CRLF
     @ ''Content-Type: application/octet-stream'' @ CRLF @ CRLF"

definition part_suffix :: "string \<Rightarrow> bytes" where
  "part_suffix boundary = CRLF @ ''--'' @ boundary @ ''--'' @ CRLF"

definition put_request :: "cf_config \<Rightarrow> string \<Rightarrow> string \<Rightarrow> string \<Rightarrow> bytes \<Rightarrow> http_request" where
  "put_request cfg namespace boundary key content = \<lparr>http_method = ''PUT'',
     http_url = value_url cfg namespace key,
     http_headers = cf_headers cfg @ [(''Content-Type'', ''multipart/form-data; boundary='' @ boundary)],
     http_data = Some (part_prefix boundary @ content @ part_suffix boundary)\<rparr>"

definition cf_publish ::
  "(bytes \<Rightarrow> string) \<Rightarrow> 'w remote \<Rightarrow> cf_config \<Rightarrow> string \<Rightarrow> string \<Rightarrow> bytes \<Rightarrow> ('w, kv_error, json) action" where
  "cf_publish sha remote cfg namespace key content =
     (if content = [] then raise (PublicationError ''refusing to publish an empty Cloudflare KV value'')
      else if MAX_VALUE_BYTES < length content
        then raise (PublicationError ''generated config exceeds Cloudflare KV's 25 MiB value limit'')
      else (\<lambda>w. case token_hex remote w of (token, w1) \<Rightarrow>
        bindA (request_json remote (put_request cfg namespace (''clash-relay-'' @ token) key content) True)
          (\<lambda>_. return (JObj [(''backend'', JStr ''cloudflare_kv''), (''namespace_title'', JStr (cf_title cfg)),
             (''key'', JStr key), (''bytes'', JInt (int (length content))), (''sha256'', JStr (sha content))])) w1))"

definition cf_delete :: "'w remote \<Rightarrow> cf_config \<Rightarrow> string \<Rightarrow> string \<Rightarrow> ('w, kv_error, json) action" where
  "cf_delete remote cfg namespace key =
     bindA (request_json remote \<lparr>http_method = ''DELETE'', http_url = value_url cfg namespace key,
         http_headers = cf_headers cfg, http_data = None\<rparr> True)
       (\<lambda>_. return (JObj [(''backend'', JStr ''cloudflare_kv''), (''namespace_title'', JStr (cf_title cfg)),
          (''key'', JStr key)]))"

text \<open>
  \<^verbatim>\<open>_keyed_publisher\<close> of \<^verbatim>\<open>production_application.py\<close>: the publishers of one entry point share the
  namespace it resolved, so a publisher object carries no state of its own.
\<close>

definition keyed_publisher :: "(bytes \<Rightarrow> string) \<Rightarrow> 'w remote \<Rightarrow> cf_config \<Rightarrow> string \<Rightarrow> 'w kv" where
  "keyed_publisher sha remote cfg namespace = \<lparr>
     kv_open = (\<lambda>key. lift_sum (cf_init cfg key)),
     kv_read = cf_read remote cfg namespace,
     kv_publish = cf_publish sha remote cfg namespace,
     kv_wait = sleep remote\<rparr>"

end
