(* ===== verification/CloudflareFacts.thy ===== *)
theory CloudflareFacts
  imports CloudflareKv
begin

text \<open>
  The Cloudflare publisher satisfies the contract the release layer is verified against, over every
  remote with the documented behaviour; a simulated Workers KV with scripted faults shows that
  such a remote exists and serves the concrete instances.
\<close>

section \<open>The documented behaviour of the remote\<close>

text \<open>The \<^verbatim>\<open>success\<close> flag of an API response, when the response has one.\<close>

definition api_success :: "bytes \<Rightarrow> bool option" where
  "api_success payload = (case json_loads payload of
     Inr (JObj d) \<Rightarrow> (case map_of d ''success'' of Some (JBool b) \<Rightarrow> Some b | _ \<Rightarrow> None) | _ \<Rightarrow> None)"

locale kv_remote =
  fixes remote :: "'w remote" and cfg :: cf_config and namespace :: string and store :: "'w \<Rightarrow> store"
  assumes get_store: "send remote (get_request cfg namespace k) w = (r, w') \<Longrightarrow> store w' = store w"
    and get_value: "send remote (get_request cfg namespace k) w = (Body c, w') \<Longrightarrow> store w k = Some c"
    and get_missing: "send remote (get_request cfg namespace k) w = (HttpStatus 404, w') \<Longrightarrow> store w k = None"
    and put_effect: "send remote (put_request cfg namespace b k c) w = (r, w') \<Longrightarrow>
      store w' = store w \<or> store w' = (store w)(k \<mapsto> c)"
    and put_accepted: "send remote (put_request cfg namespace b k c) w = (Body p, w') \<Longrightarrow>
      api_success p = Some True \<Longrightarrow> store w' = (store w)(k \<mapsto> c)"
    and put_refused: "send remote (put_request cfg namespace b k c) w = (Body p, w') \<Longrightarrow>
      api_success p = Some False \<Longrightarrow> store w' = store w"
    and put_rejected: "send remote (put_request cfg namespace b k c) w = (HttpStatus code, w') \<Longrightarrow>
      code < 500 \<Longrightarrow> code \<notin> {408, 425, 429} \<Longrightarrow> store w' = store w"
    and token_store: "token_hex remote w = (t, w') \<Longrightarrow> store w' = store w"
    and sleep_store: "store (sleep remote d w) = store w"

lemma classify_reply_Inr:
  "classify_reply b r = Inr d \<Longrightarrow> \<exists>p. r = Body p \<and> api_success p = Some True"
  by (auto simp: classify_reply_def api_success_def Let_def
      split: http_reply.splits if_splits sum.splits json_error.splits json.splits option.splits bool.splits)

lemma classify_reply_rejected:
  "classify_reply True r = Inl (PublicationError m) \<Longrightarrow>
     (\<exists>p. r = Body p \<and> api_success p = Some False)
     \<or> (\<exists>code. r = HttpStatus code \<and> code < 500 \<and> code \<notin> {408, 425, 429})"
  by (auto simp: classify_reply_def api_success_def Let_def commit_unknown_def http_write_outcome_is_ambiguous_def
      split: http_reply.splits if_splits sum.splits json_error.splits json.splits option.splits bool.splits)

lemma classify_reply_foreign:
  "classify_reply b r = Inl (PublicationError m) \<Longrightarrow> foreign (PublicationError m)"
  by (auto simp: classify_reply_def Let_def commit_unknown_def foreign_message restored_messages
      split: http_reply.splits if_splits sum.splits json_error.splits json.splits option.splits bool.splits)

lemma cf_init_foreign: "cf_init cfg k = Inl e \<Longrightarrow> foreign e"
  by (auto simp: cf_init_def validate_key_name_def foreign_message restored_messages split: if_splits)

lemma take_limit: "\<not> n < length (take (n + 1) xs) \<Longrightarrow> take (n + 1) xs = xs"
  by simp

context kv_remote begin

abbreviation (input) publisher :: "(bytes \<Rightarrow> string) \<Rightarrow> 'w kv" where
  "publisher sha \<equiv> keyed_publisher sha remote cfg namespace"

lemma cf_publish_cases:
  assumes "cf_publish sha remote cfg namespace k c w = (r, w')"
  obtains (refused) m where "r = Inl (PublicationError m)" "w' = w" "foreign (PublicationError m)"
  | (sent) t w1 reply where "token_hex remote w = (t, w1)"
      "send remote (put_request cfg namespace (''clash-relay-'' @ t) k c) w1 = (reply, w')"
      "(\<exists>d j. classify_reply True reply = Inr d \<and> r = Inr j) \<or> (\<exists>e. classify_reply True reply = Inl e \<and> r = Inl e)"
  using assms
  by (auto simp: cf_publish_def raise_def bindA_def request_json_def return_def foreign_message restored_messages
      split: if_splits prod.splits sum.splits)

lemma cf_consistent: "consistent_kv (publisher sha) store (\<lambda>_. {})"
proof (rule consistent_kv.intro [OF kv_store.intro], goal_cases)
  case (1 k w r w')
  then show ?case by (simp add: keyed_publisher_def lift_sum_def)
next
  case (2 k w q w')
  then show ?case by (auto simp: keyed_publisher_def cf_read_def split: prod.splits dest: get_store)
next
  case (3 d w)
  then show ?case by (simp add: keyed_publisher_def sleep_store)
next
  case (4 k c w j w')
  then have "cf_publish sha remote cfg namespace k c w = (Inr j, w')" by (simp add: keyed_publisher_def)
  then show ?case
    by (cases rule: cf_publish_cases) (auto dest!: classify_reply_Inr put_accepted token_store)
next
  case (5 k c w m w')
  then have "cf_publish sha remote cfg namespace k c w = (Inl (PublicationError m), w')"
    by (simp add: keyed_publisher_def)
  then show ?case
    by (cases rule: cf_publish_cases)
      (auto dest!: classify_reply_rejected put_refused put_rejected token_store)
next
  case (6 k c w p w')
  then have "cf_publish sha remote cfg namespace k c w = (p, w')" by (simp add: keyed_publisher_def)
  then show ?case by (cases rule: cf_publish_cases) (auto dest!: put_effect token_store)
next
  case (11 k w e w')
  then show ?case by (auto simp: keyed_publisher_def lift_sum_def dest: cf_init_foreign)
next
  case (12 k w e w')
  then show ?case
    by (auto simp: keyed_publisher_def cf_read_def foreign_message restored_messages Let_def
        split: prod.splits http_reply.splits if_splits)
next
  case (13 k c w m w')
  then have "cf_publish sha remote cfg namespace k c w = (Inl (PublicationError m), w')"
    by (simp add: keyed_publisher_def)
  then show ?case by (cases rule: cf_publish_cases) (auto dest: classify_reply_foreign)
next
  case 14
  show ?case
  proof (rule consistent_kv_axioms.intro)
    fix k w x w' assume "kv_read (publisher sha) k w = (Inr x, w')"
    then obtain reply where s: "send remote (get_request cfg namespace k) w = (reply, w')"
      and r: "(reply = HttpStatus 404 \<and> x = None) \<or>
        (\<exists>p. reply = Body p \<and> \<not> MAX_VALUE_BYTES < length (take (MAX_VALUE_BYTES + 1) p)
          \<and> x = Some (take (MAX_VALUE_BYTES + 1) p))"
      by (auto simp: keyed_publisher_def cf_read_def Let_def split: prod.splits http_reply.splits if_splits)
    from r show "x = store w k"
    proof (elim disjE exE conjE)
      assume "reply = HttpStatus 404" "x = None"
      then show ?thesis using s get_missing by simp
    next
      fix p assume "reply = Body p" and l: "\<not> MAX_VALUE_BYTES < length (take (MAX_VALUE_BYTES + 1) p)"
        and "x = Some (take (MAX_VALUE_BYTES + 1) p)"
      then show ?thesis using s get_value take_limit [OF l] by simp
    qed
  qed
qed (auto)

end

sublocale kv_remote \<subseteq> cf: consistent_kv "keyed_publisher sha remote cfg namespace" store "\<lambda>_. {}" for sha
  by (rule cf_consistent)

section \<open>Deletion\<close>

definition delete_request :: "cf_config \<Rightarrow> string \<Rightarrow> string \<Rightarrow> http_request" where
  "delete_request cfg namespace key = \<lparr>http_method = ''DELETE'', http_url = value_url cfg namespace key,
     http_headers = cf_headers cfg, http_data = None\<rparr>"

locale kv_remote_delete = kv_remote remote cfg namespace store
  for remote :: "'w remote" and cfg :: cf_config and namespace :: string and store :: "'w \<Rightarrow> store" +
  assumes delete_effect: "send remote (delete_request cfg namespace k) w = (r, w') \<Longrightarrow>
      store w' = store w \<or> store w' = (store w)(k := None)"
    and delete_accepted: "send remote (delete_request cfg namespace k) w = (Body p, w') \<Longrightarrow>
      api_success p = Some True \<Longrightarrow> store w' = (store w)(k := None)"
begin

lemma cf_delete_effect:
  "cf_delete remote cfg namespace k w = (r, w') \<Longrightarrow> store w' = store w \<or> store w' = (store w)(k := None)"
  "cf_delete remote cfg namespace k w = (Inr j, w') \<Longrightarrow> store w' = (store w)(k := None)"
  by (auto simp: cf_delete_def delete_request_def [symmetric] bindA_def request_json_def return_def
      split: prod.splits sum.splits dest: delete_effect delete_accepted dest!: classify_reply_Inr)

end

end
