(* ===== verification/SimulatedKv.thy ===== *)
theory SimulatedKv
  imports CloudflareFacts
begin

text \<open>
  A Workers KV with a script of faults, reached through the requests of the publisher, and the
  interpretations of the publisher locales on it.  It decodes the URL and the multipart body of a
  request, so what it stores is what the publisher really sent.
\<close>

datatype fault = Serve | Lost | LostAfterWrite | Refuse | ServerError

record sim =
  sim_store :: store
  sim_script :: "fault list"

text \<open>\<open>urllib.parse.unquote\<close> of an ASCII path segment.\<close>

fun url_unquote :: "string \<Rightarrow> string" where
  "url_unquote [] = []"
| "url_unquote [c] = [c]"
| "url_unquote [c, d] = [c, d]"
| "url_unquote (c # a # b # s) =
     (if c = CHR ''%'' then
        (case (hex_value a, hex_value b) of
           (Some x, Some y) \<Rightarrow> char_of (16 * x + y) # url_unquote s
         | _ \<Rightarrow> c # url_unquote (a # b # s))
      else c # url_unquote (a # b # s))"

lemma url_unquote_plain: "c \<noteq> CHR ''%'' \<Longrightarrow> url_unquote (c # s) = c # url_unquote s"
  by (cases s; cases "tl s") simp_all

lemma hex_value_upper: "n < 16 \<Longrightarrow> hex_value (upper_hex n) = Some n"
  by (auto simp: hex_value_def upper_hex_def Let_def)

lemma unreserved_percent: "\<not> unreserved CHR ''%''"
  by (simp add: unreserved_def is_digit_def is_lower_def is_upper_def char_le_iff)

lemma url_unquote_quote: "url_unquote (url_quote s) = s"
proof (induction s)
  case (Cons c s)
  have "(of_char c :: nat) div 16 < 16" by (simp add: less_mult_imp_div_less)
  moreover have "16 * ((of_char c :: nat) div 16) + of_char c mod 16 = of_char c" by simp
  moreover have "unreserved c \<Longrightarrow> c \<noteq> CHR ''%''" using unreserved_percent by auto
  ultimately show ?case
    using Cons by (auto simp: url_unquote_plain hex_value_upper)
qed simp

definition ok_body :: bytes where
  "ok_body = json_dumps (JObj [(''success'', JBool True)])"

definition boundary_of :: "http_request \<Rightarrow> string" where
  "boundary_of req = drop (length ''multipart/form-data; boundary='') (snd (last (http_headers req)))"

definition part_of :: "http_request \<Rightarrow> bytes" where
  "part_of req = (let b = boundary_of req; d = the (http_data req) in
     drop (length (part_prefix b)) (take (length d - length (part_suffix b)) d))"

definition key_of :: "cf_config \<Rightarrow> string \<Rightarrow> http_request \<Rightarrow> string" where
  "key_of cfg namespace req = url_unquote (drop (length (value_url cfg namespace [])) (http_url req))"

definition sim_send :: "cf_config \<Rightarrow> string \<Rightarrow> http_request \<Rightarrow> sim \<Rightarrow> http_reply \<times> sim" where
  "sim_send cfg namespace req w =
     (let fault = (case sim_script w of [] \<Rightarrow> Serve | f # _ \<Rightarrow> f);
          w1 = w\<lparr>sim_script := tl (sim_script w)\<rparr>;
          k = key_of cfg namespace req in
      if http_method req = ''GET'' then
        (case fault of
           Serve \<Rightarrow> (case sim_store w k of None \<Rightarrow> HttpStatus 404 | Some c \<Rightarrow> Body c, w1)
         | ServerError \<Rightarrow> (HttpStatus 503, w1)
         | _ \<Rightarrow> (Unreachable, w1))
      else
        (let w2 = w1\<lparr>sim_store := (sim_store w)
               (k := (if http_method req = ''DELETE'' then None else Some (part_of req)))\<rparr> in
         case fault of
           Serve \<Rightarrow> (Body ok_body, w2)
         | Lost \<Rightarrow> (Unreachable, w1)
         | LostAfterWrite \<Rightarrow> (Unreachable, w2)
         | Refuse \<Rightarrow> (HttpStatus 403, w1)
         | ServerError \<Rightarrow> (HttpStatus 503, w1)))"

definition sim_remote :: "cf_config \<Rightarrow> string \<Rightarrow> sim remote" where
  "sim_remote cfg namespace = \<lparr>send = sim_send cfg namespace, token_hex = (\<lambda>w. (''00'', w)), sleep = (\<lambda>_ w. w)\<rparr>"

lemma key_of_url: "http_url req = value_url cfg namespace k \<Longrightarrow> key_of cfg namespace req = k"
proof -
  have "value_url cfg namespace k = value_url cfg namespace [] @ url_quote k"
    by (simp add: value_url_def)
  then show "http_url req = value_url cfg namespace k \<Longrightarrow> key_of cfg namespace req = k"
    unfolding key_of_def by (simp add: url_unquote_quote)
qed

lemma key_of_requests [simp]:
  "key_of cfg namespace (get_request cfg namespace k) = k"
  "key_of cfg namespace (put_request cfg namespace b k c) = k"
  by (simp_all add: key_of_url get_request_def put_request_def)

lemma part_of_put [simp]: "part_of (put_request cfg namespace b k c) = c"
  by (simp add: part_of_def boundary_of_def put_request_def Let_def)

lemma request_methods [simp]:
  "http_method (get_request cfg namespace k) = ''GET''"
  "http_method (put_request cfg namespace b k c) = ''PUT''"
  by (simp_all add: get_request_def put_request_def)

lemma api_success_ok: "api_success ok_body = Some True"
  by (simp add: api_success_def ok_body_def json_loads_dumps)

interpretation sim: kv_remote "sim_remote cfg namespace" cfg namespace sim_store for cfg namespace
proof (unfold_locales, goal_cases)
  case (1 k w r w')
  then show ?case
    by (auto simp: sim_remote_def sim_send_def Let_def split: list.splits fault.splits option.splits)
next
  case (2 k w c w')
  then show ?case
    by (auto simp: sim_remote_def sim_send_def Let_def split: list.splits fault.splits option.splits)
next
  case (3 k w w')
  then show ?case
    by (auto simp: sim_remote_def sim_send_def Let_def split: list.splits fault.splits option.splits)
next
  case (4 b k c w r w')
  then show ?case
    by (auto simp: sim_remote_def sim_send_def Let_def split: list.splits fault.splits)
next
  case (5 b k c w p w')
  then show ?case
    by (auto simp: sim_remote_def sim_send_def Let_def split: list.splits fault.splits)
next
  case (6 b k c w p w')
  then show ?case
    by (auto simp: sim_remote_def sim_send_def Let_def api_success_ok split: list.splits fault.splits)
next
  case (7 b k c w code w')
  then show ?case
    by (auto simp: sim_remote_def sim_send_def Let_def split: list.splits fault.splits)
next
  case (8 w t w')
  then show ?case by (simp add: sim_remote_def)
next
  case (9 d w)
  then show ?case by (simp add: sim_remote_def)
qed

lemma key_of_delete [simp]: "key_of cfg namespace (delete_request cfg namespace k) = k"
  by (simp add: key_of_url delete_request_def)

interpretation sim: kv_remote_delete "sim_remote cfg namespace" cfg namespace sim_store for cfg namespace
proof (unfold_locales, goal_cases)
  case (1 k w r w')
  then show ?case
    by (auto simp: sim_remote_def sim_send_def Let_def delete_request_def split: list.splits fault.splits)
      (auto simp: delete_request_def [symmetric])
next
  case (2 k w p w')
  then have "sim_store w' = (sim_store w)(key_of cfg namespace (delete_request cfg namespace k) := None)"
    by (auto simp: sim_remote_def sim_send_def Let_def delete_request_def split: list.splits fault.splits)
  then show ?case by simp
qed

section \<open>Concrete instances\<close>

definition demo_cfg :: cf_config where
  "demo_cfg = \<lparr>cf_token = ''t'', cf_account = ''a'', cf_title = ''n''\<rparr>"

text \<open>A digest for evaluation: the decimal digits of a checksum, padded to 64 characters.\<close>

definition demo_sha :: "bytes \<Rightarrow> string" where
  "demo_sha c = (let d = nat_digits (foldl (\<lambda>h x. (h * 31 + of_char x) mod 1000003) 7 c) in
     replicate (64 - length d) CHR ''0'' @ d)"

definition demo_kv :: "sim kv" where
  "demo_kv = keyed_publisher demo_sha (sim_remote demo_cfg ''ns'') demo_cfg ''ns''"

interpretation demo: digest demo_sha
proof
  fix c :: bytes
  define h :: nat where "h = foldl (\<lambda>h x. (h * 31 + of_char x) mod 1000003) 7 c"
  have "h < 10 ^ Suc 6" by (cases c rule: rev_cases) (simp_all add: h_def order.strict_trans [OF mod_less_divisor])
  then have "length (nat_digits h) \<le> 7" by (rule length_nat_digits [THEN order.trans]) simp
  moreover have "list_all is_lower_hex (nat_digits h)"
    using nat_digits_digit [of h] by (auto simp: list_all_iff is_lower_hex_def)
  ultimately show "is_release_id (demo_sha c)"
    by (simp add: is_release_id_def demo_sha_def h_def [symmetric] Let_def list_all_iff is_lower_hex_def is_digit_def)
qed

lemma demo_consistent: "consistent_kv demo_kv sim_store (\<lambda>_. {})"
  unfolding demo_kv_def by (rule sim.cf_consistent)

interpretation demo: consistent_kv demo_kv sim_store "\<lambda>_. {}"
  by (rule demo_consistent)

end
