(* ===== verification/CalmKv.thy ===== *)
theory CalmKv
  imports SimulatedKv BundleLiveness
begin

text \<open>
  A Workers KV that serves its requests makes the Cloudflare publisher a \<open>reliable_kv\<close>: the locale
  \<open>calm_remote\<close> states what is asked of the remote, the simulated KV without faults provides it,
  and the documents of the release layer stay within the value limit.
\<close>

section \<open>Sizes of the written documents\<close>

lemma length_escape_point: "length (escape_point p) \<le> 12"
  by (simp add: escape_point_def u_escape_def)

lemma length_quote: "ascii_text s \<Longrightarrow> length (quote s) \<le> 2 + 12 * length s"
proof -
  have "length (concat (map escape_point ps)) \<le> 12 * length ps" for ps
    using length_escape_point by (induction ps) (auto intro: add_mono)
  from this [of "map of_char s"] show "ascii_text s \<Longrightarrow> length (quote s) \<le> 2 + 12 * length s"
    by (simp add: quote_ascii)
qed

lemma length_quote_id: "is_release_id i \<Longrightarrow> length (quote i) \<le> 770"
  using length_quote [of i] release_id_ascii [of i] by (simp add: is_release_id_def)

lemma length_quote_phase: "phase_index p \<noteq> None \<Longrightarrow> length (quote p) \<le> 98"
proof -
  assume p: "phase_index p \<noteq> None"
  then have "length p \<le> 8" by (auto simp: phase_index_eq split: if_splits)
  then show ?thesis using length_quote [OF phase_ascii [OF p]] by simp
qed

lemma length_id_json: "pred_option is_release_id i \<Longrightarrow> length (jtext (id_json i)) \<le> 770"
  by (cases i) (simp_all add: id_json_def length_quote_id)

lemma length_digits: "n \<le> 26214400 \<Longrightarrow> length (int_text (int n)) \<le> 8"
  using length_nat_digits [of n 7] by (simp add: int_text_def)

lemma sorted_transaction: "jsort (transaction_document t) = JObj
    [(''from_release_id'', id_json (from_release_id t)), (''phase'', JStr (phase t)),
     (''previous_release_id'', id_json (previous_release_id t)), (''to_release_id'', JStr (to_release_id t)),
     (''version'', JInt 2)]"
  by (simp add: transaction_document_def jsort_id_json sort_key_def)

lemma length_transaction_text: "wf_transaction t \<Longrightarrow> length (transaction_text t) \<le> 5000"
proof -
  assume t: "wf_transaction t"
  have q: "length (quote ''from_release_id'') = 17" "length (quote ''phase'') = 7"
    "length (quote ''previous_release_id'') = 21" "length (quote ''to_release_id'') = 15"
    "length (quote ''version'') = 9" by code_simp+
  have n: "length (int_text 2) = 1" by (simp add: int_text_def nat_digits.simps)
  show ?thesis
    using length_id_json [of "from_release_id t"] length_id_json [of "previous_release_id t"]
      length_quote_id [of "to_release_id t"] length_quote_phase [of "phase t"] t
    unfolding transaction_text_def json_dumps_def sorted_transaction
    by (simp add: q n wf_transaction_def)
qed

lemma length_manifest_text:
  assumes "is_release_id (sha c)" and "length c \<le> 26214400"
  shows "length (manifest_text sha c) \<le> 5000"
proof -
  have q: "length (quote ''bytes'') = 7" "length (quote ''release_id'') = 12"
    "length (quote ''schema_version'') = 16" "length (quote ''sha256'') = 8" by code_simp+
  have n: "length (int_text 1) = 1" by (simp add: int_text_def nat_digits.simps)
  have "jsort (manifest_document sha c) = JObj
     [(''bytes'', JInt (int (length c))), (''release_id'', JStr (sha c)), (''schema_version'', JInt 1),
      (''sha256'', JStr (sha c))]"
    by (simp add: manifest_document_def sort_key_def)
  then show ?thesis
    using length_quote_id [OF assms(1)] length_digits [OF assms(2)]
    by (simp add: manifest_text_def json_dumps_def q n)
qed

section \<open>A remote that serves\<close>

locale calm_remote = kv_remote remote cfg namespace store
  for remote :: "'w remote" and cfg :: cf_config and namespace :: string and store :: "'w \<Rightarrow> store" +
  fixes calm :: "'w \<Rightarrow> bool"
  assumes get_served: "calm w \<Longrightarrow> \<exists>w'. calm w' \<and> send remote (get_request cfg namespace k) w
      = (case store w k of None \<Rightarrow> HttpStatus 404 | Some c \<Rightarrow> Body c, w')"
    and put_served: "calm w \<Longrightarrow> length c \<le> MAX_VALUE_BYTES \<Longrightarrow> \<exists>p w'. calm w' \<and> valid_utf8 p
      \<and> api_success p = Some True \<and> send remote (put_request cfg namespace b k c) w = (Body p, w')"
    and token_calm: "calm w \<Longrightarrow> token_hex remote w = (t, w') \<Longrightarrow> calm w'"
    and stored_fit: "calm w \<Longrightarrow> store w k = Some c \<Longrightarrow> length c \<le> MAX_VALUE_BYTES"
begin

lemma accepted_reply: "valid_utf8 p \<Longrightarrow> api_success p = Some True \<Longrightarrow> \<exists>d. classify_reply True (Body p) = Inr d"
  by (auto simp: classify_reply_def api_success_def split: sum.splits json.splits option.splits bool.splits)

lemma cf_reliable: "reliable_kv (keyed_publisher sha remote cfg namespace) store (\<lambda>_. {}) calm
    (\<lambda>k. cf_init cfg k = Inr ()) (\<lambda>c. c \<noteq> [] \<and> length c \<le> MAX_VALUE_BYTES)"
proof (rule reliable_kv.intro [OF cf_consistent reliable_kv_axioms.intro], goal_cases)
  case (1 w k)
  then show ?case by (simp add: keyed_publisher_def lift_sum_def)
next
  case (2 w k)
  from get_served [OF 2(1), of k] obtain w' where w': "calm w'" "send remote (get_request cfg namespace k) w
      = (case store w k of None \<Rightarrow> HttpStatus 404 | Some c \<Rightarrow> Body c, w')" by blast
  show ?case
  proof (cases "store w k")
    case (Some c)
    then have "length c \<le> MAX_VALUE_BYTES" by (rule stored_fit [OF 2(1)])
    then show ?thesis using w' Some by (simp add: keyed_publisher_def cf_read_def)
  qed (use w' in \<open>simp add: keyed_publisher_def cf_read_def\<close>)
next
  case (3 w k c)
  obtain t w1 where t: "token_hex remote w = (t, w1)" by fastforce
  from put_served [OF token_calm [OF 3(1) t], of c "''clash-relay-'' @ t" k] 3(3) obtain p w' where
    p: "calm w'" "valid_utf8 p" "api_success p = Some True"
      "send remote (put_request cfg namespace (''clash-relay-'' @ t) k c) w1 = (Body p, w')" by blast
  from accepted_reply [OF p(2,3)] obtain d where "classify_reply True (Body p) = Inr d" by blast
  then show ?case
    using 3(3) p t by (simp add: keyed_publisher_def cf_publish_def request_json_def bindA_def return_def)
qed

end

section \<open>The simulated remote without faults\<close>

definition sim_calm :: "sim \<Rightarrow> bool" where
  "sim_calm w \<longleftrightarrow> sim_script w = [] \<and> (\<forall>k c. sim_store w k = Some c \<longrightarrow> length c \<le> MAX_VALUE_BYTES)"

lemma valid_ok_body: "valid_utf8 ok_body"
  by (rule valid_utf8_ascii) (simp add: ok_body_def ascii_json_dumps is_ascii_def)

interpretation sim: calm_remote "sim_remote cfg namespace" cfg namespace sim_store sim_calm for cfg namespace
proof (unfold_locales, goal_cases)
  case (1 w k)
  then show ?case
    by (intro exI [of _ "w\<lparr>sim_script := tl (sim_script w)\<rparr>"])
      (simp add: sim_remote_def sim_send_def sim_calm_def Let_def)
next
  case (2 w c b k)
  let ?w' = "w\<lparr>sim_script := tl (sim_script w), sim_store := (sim_store w)(k \<mapsto> c)\<rparr>"
  have "send (sim_remote cfg namespace) (put_request cfg namespace b k c) w = (Body ok_body, ?w')"
    using 2 by (simp add: sim_remote_def sim_send_def sim_calm_def)
  moreover have "sim_calm ?w'" using 2 by (simp add: sim_calm_def)
  ultimately show ?case using valid_ok_body api_success_ok by blast
next
  case (3 w t w')
  then show ?case by (simp add: sim_remote_def)
next
  case (4 w k c)
  then show ?case by (simp add: sim_calm_def)
qed

interpretation demo: reliable_kv demo_kv sim_store "\<lambda>_. {}" sim_calm "\<lambda>k. cf_init demo_cfg k = Inr ()"
    "\<lambda>c. c \<noteq> [] \<and> length c \<le> MAX_VALUE_BYTES"
  unfolding demo_kv_def by (rule sim.cf_reliable)

lemma lower_hex_not_point_space: "is_lower_hex c \<Longrightarrow> \<not> point_isspace (of_char c)"
  by (auto simp: is_lower_hex_def is_digit_def char_le_iff point_isspace_def)

lemma demo_usable:
  assumes "ascii_text k" and "\<not> list_ex point_isspace (map of_char k)" and "k \<notin> {[], ''.'', ''..''}"
    and "length k \<le> 512"
  shows "cf_init demo_cfg k = Inr ()"
proof -
  have t: "\<not> list_all point_isspace (points ''n'')"
    by (simp add: points_def utf8_points_ascii is_ascii_def point_isspace_def)
  have "validate_key_name k = Inr ()"
    using assms by (simp add: validate_key_name_def points_def utf8_points_ascii valid_utf8_ascii)
  then show ?thesis using t by (simp add: cf_init_def demo_cfg_def)
qed

lemma demo_name_usable:
  "suffix \<in> {[], ''.current-release-v1'', ''.previous-release-v1'', ''.release-transaction-v1''} \<Longrightarrow> cf_init demo_cfg (''p'' @ suffix) = Inr ()"
  by (rule demo_usable) (auto simp: is_ascii_def point_isspace_def)

lemma demo_object_usable:
  assumes "is_release_id i"
  shows "cf_init demo_cfg (release_config_key ''p'' i) = Inr ()" "cf_init demo_cfg (release_manifest_key ''p'' i) = Inr ()"
proof -
  have i: "ascii_text i" "length i = 64" "list_all (\<lambda>c. \<not> point_isspace (of_char c)) i"
    using assms release_id_ascii lower_hex_not_point_space by (auto simp: is_release_id_def list_all_iff)
  have s: "\<not> list_ex point_isspace (map of_char i)" using i(3) by (simp add: list_all_iff list_ex_iff)
  show "cf_init demo_cfg (release_config_key ''p'' i) = Inr ()" "cf_init demo_cfg (release_manifest_key ''p'' i) = Inr ()"
    using i s by (auto intro!: demo_usable simp: key_defs is_ascii_def point_isspace_def)
qed

lemma demo_accepts:
  "accepts demo_sha ''p'' (\<lambda>k. cf_init demo_cfg k = Inr ()) (\<lambda>c. c \<noteq> [] \<and> length c \<le> MAX_VALUE_BYTES)"
  unfolding accepts_def
proof (intro conjI allI impI ballI, goal_cases)
  case 1
  show ?case using demo_name_usable [of "[]"] by simp
next
  case (2 suffix)
  then show ?case using demo_name_usable [of suffix] by (auto simp: key_defs)
next
  case (3 i)
  then show ?case by (rule demo_object_usable)
next
  case (4 i)
  then show ?case by (rule demo_object_usable)
next
  case (5 i)
  then show ?case by (cases i) (simp_all add: ptr_def EMPTY_POINTER_def)
next
  case (6 i)
  then show ?case
    by (cases i) (simp_all add: ptr_def EMPTY_POINTER_def is_release_id_def MAX_VALUE_BYTES_def)
next
  case (7 t)
  show ?case by (simp add: transaction_text_def)
next
  case (8 t)
  then show ?case using length_transaction_text [of t] by (simp add: MAX_VALUE_BYTES_def)
next
  case (9 c)
  show ?case by (simp add: manifest_text_def)
next
  case (10 c)
  then show ?case using length_manifest_text [of demo_sha c] demo.sha_id by (simp add: MAX_VALUE_BYTES_def)
qed

text \<open>A healthy release with a candidate that differs, on the remote without faults.\<close>

definition demo_healthy :: sim where
  "demo_healthy = \<lparr>sim_store = (\<lambda>_. None)(''p'' \<mapsto> ''old'',
       auxiliary_state_key ''p'' CURRENT_POINTER_SUFFIX \<mapsto> demo_sha ''old'' @ [CHR 0x0A]),
     sim_script = []\<rparr>"

lemma demo_healthy_facts:
  "sim_calm demo_healthy"
  "contents_ok demo_sha ''p'' (\<lambda>c. c \<noteq> [] \<and> length c \<le> MAX_VALUE_BYTES) ''new'' (sim_store demo_healthy)"
  "intent_settled demo_sha ''p'' ''new'' (sim_store demo_healthy)"
proof -
  have id: "length (demo_sha c) = 64" for c using demo.sha_id [of c] by (simp add: is_release_id_def)
  show "sim_calm demo_healthy"
    by (auto simp: sim_calm_def demo_healthy_def MAX_VALUE_BYTES_def id split: if_splits)
  have "demo_sha ''old'' \<noteq> demo_sha ''new''" by (simp add: demo_sha_def Let_def nat_digits.simps)
  then show "contents_ok demo_sha ''p'' (\<lambda>c. c \<noteq> [] \<and> length c \<le> MAX_VALUE_BYTES) ''new'' (sim_store demo_healthy)"
    by (auto simp: contents_ok_def stageable_def demo_healthy_def MAX_VALUE_BYTES_def split: if_splits)
  show "intent_settled demo_sha ''p'' ''new'' (sim_store demo_healthy)"
    using parse_pointer_bytes [OF demo.sha_id, of "''old''"]
    by (simp add: intent_settled_def inspect_view_def demo_healthy_def inspect_release_state_def)
qed


end
