(* ===== verification/BundleTrace.thy ===== *)
theory BundleTrace
  imports ReleaseBundle
begin

text \<open>
  Ordering of writes in \<^verbatim>\<open>release_bundle.py\<close>, for every publisher whatever it answers: an automaton
  reads the trace of a run and accepts it when each write follows only writes that were definitely
  rejected or whose exact bytes were read back.
\<close>

section \<open>The automaton\<close>

definition write_step :: "(string \<times> bytes) option \<Rightarrow> kv_event \<Rightarrow> (string \<times> bytes) option option" where
  "write_step open_write ev = (case ev of
     Read k r \<Rightarrow> (case (open_write, r) of
         (Some (k', c), Inr (Some c')) \<Rightarrow> if k' = k \<and> c' = c then Some None else Some open_write
       | _ \<Rightarrow> Some open_write)
   | Publish k c r \<Rightarrow>
       if open_write \<noteq> None then None
       else (case r of Inl (PublicationError _) \<Rightarrow> Some None | _ \<Rightarrow> Some (Some (k, c))))"

text \<open>
  The write whose outcome is open after a trace, or \<open>None\<close> when some write was made while another was
  open.
\<close>

fun open_write_after :: "(string \<times> bytes) option \<Rightarrow> kv_event list \<Rightarrow> (string \<times> bytes) option option" where
  "open_write_after s [] = Some s"
| "open_write_after s (ev # evs) =
     (case write_step s ev of None \<Rightarrow> None | Some s' \<Rightarrow> open_write_after s' evs)"

lemma open_write_snoc:
  "open_write_after s (evs @ [ev]) =
     (case open_write_after s evs of None \<Rightarrow> None | Some s' \<Rightarrow> write_step s' ev)"
  by (induction evs arbitrary: s) (auto split: option.splits)

section \<open>Actions that write only when nothing is open\<close>

definition open_is :: "(string \<times> bytes) option \<Rightarrow> 'w \<times> kv_event list \<Rightarrow> bool" where
  "open_is s w \<longleftrightarrow> open_write_after None (snd w) = Some s"

definition fault :: "kv_error \<Rightarrow> 'w \<times> kv_event list \<Rightarrow> bool" where
  "fault e w \<longleftrightarrow> (case e of PublicationError _ \<Rightarrow> open_is None w | _ \<Rightarrow> (\<exists>s. open_is s w))"

definition careful :: "('w \<times> kv_event list, kv_error, 'a) action \<Rightarrow> bool" where
  "careful m \<longleftrightarrow> triple (open_is None) m (\<lambda>_. open_is None) fault"

named_theorems careful_intros \<open>compositional rules for careful actions\<close>

lemma fault_calm: "open_is None w \<Longrightarrow> fault e w"
  by (auto simp: fault_def split: kv_error.splits)

lemma careful_return [careful_intros]: "careful (return a)"
  by (simp add: careful_def triple_return)

lemma careful_raise [careful_intros]: "careful (raise e)"
  by (simp add: careful_def triple_raise fault_calm)

lemma careful_lift_sum [careful_intros]: "careful (lift_sum r)"
  by (simp add: careful_def triple_lift_sum fault_calm)

lemma careful_bind [careful_intros]: "careful m \<Longrightarrow> (\<And>a. careful (k a)) \<Longrightarrow> careful (bindA m k)"
  unfolding careful_def by (rule triple_bind)

lemma careful_if [careful_intros]:
  "(b \<Longrightarrow> careful m) \<Longrightarrow> (\<not> b \<Longrightarrow> careful m') \<Longrightarrow> careful (if b then m else m')"
  by simp

lemma careful_option [careful_intros]:
  "careful m \<Longrightarrow> (\<And>a. careful (k a)) \<Longrightarrow> careful (case x of None \<Rightarrow> m | Some a \<Rightarrow> k a)"
  by (cases x) simp_all

text \<open>A handler may go on after a definite rejection; any other error it passes on as one.\<close>

lemma careful_try [careful_intros]:
  assumes "careful m" and "\<And>x. careful (h (PublicationError x))"
    and "\<And>x c. \<exists>e. h (CommitUnknownError x c) = raise e \<and> (\<forall>y. e \<noteq> PublicationError y)"
    and "\<And>x. \<exists>e. h (EscapedError x) = raise e \<and> (\<forall>y. e \<noteq> PublicationError y)"
  shows "careful (try_catch m h)"
  unfolding careful_def
proof (rule triple_try [OF assms(1) [unfolded careful_def]])
  fix e
  show "triple (fault e) (h e) (\<lambda>_. open_is None) fault"
  proof (cases e)
    case (PublicationError x)
    with assms(2) show ?thesis by (simp add: careful_def fault_def triple_def)
  next
    case (CommitUnknownError x c)
    with assms(3) [of x c] show ?thesis
      by (auto simp: triple_def wp_raise fault_def split: kv_error.splits)
  next
    case (EscapedError x)
    with assms(4) [of x] show ?thesis
      by (auto simp: triple_def wp_raise fault_def split: kv_error.splits)
  qed
qed

section \<open>The publisher calls\<close>

lemma careful_open [careful_intros]: "careful (kv_open (traced kv) k)"
  by (auto simp: careful_def triple_def wp_def traced_def fault_calm open_is_def split: prod.splits sum.splits)

lemma read_keeps_open:
  "kv_read (traced kv) k w = (r, w') \<Longrightarrow> open_is None w \<Longrightarrow> open_is None w'"
  by (cases w) (auto simp: traced_def open_is_def open_write_snoc write_step_def
      split: prod.splits option.splits)

lemma careful_read [careful_intros]: "careful (kv_read (traced kv) k)"
  by (auto simp: careful_def triple_def intro!: wpI fault_calm dest: read_keeps_open)

lemma careful_safe_read [careful_intros]: "careful (safe_read (traced kv) k)"
  unfolding safe_read_def by (intro careful_intros)

lemma read_back_open:
  assumes "s \<in> {None, Some (k, c)}"
  shows "triple (open_is s) (read_back (traced kv) k c)
    (\<lambda>b. open_is (if b then None else s)) (\<lambda>e w. (\<exists>x. e = EscapedError x) \<and> open_is s w)"
  unfolding read_back_def
proof (rule triple_try [where F = "\<lambda>e. open_is s"])
  show "triple (open_is s) (bindA (kv_read (traced kv) k) (\<lambda>x. return (x = Some c)))
      (\<lambda>b. open_is (if b then None else s)) (\<lambda>e. open_is s)"
  proof (rule triple_bind)
    show "triple (open_is s) (kv_read (traced kv) k) (\<lambda>x. open_is (if x = Some c then None else s))
        (\<lambda>e. open_is s)"
      using assms
      by (auto simp: triple_def wp_def traced_def open_is_def open_write_snoc write_step_def
          split: prod.splits sum.splits option.splits)
  qed (auto intro!: triple_return)
qed (auto simp: triple_def wp_raise wp_return split: kv_error.splits)

lemma read_back_loop_open:
  assumes "s \<in> {None, Some (k, c)}"
  shows "triple (open_is s) (read_back_loop (traced kv) k c ds)
    (\<lambda>b. open_is (if b then None else s)) (\<lambda>e w. (\<exists>x. e = EscapedError x) \<and> open_is s w)"
proof (induction ds)
  case Nil
  show ?case by (simp add: triple_return)
next
  case (Cons d ds)
  have w: "triple (open_is s) (if d \<noteq> 0 then wait_between_read_backs (traced kv) d else return ())
      (\<lambda>_. open_is s) (\<lambda>e w. (\<exists>x. e = EscapedError x) \<and> open_is s w)"
    by (auto simp: triple_def wp_def wait_between_read_backs_def return_def traced_def open_is_def)
  show ?case
    unfolding read_back_loop.simps
    by (intro triple_bind [OF w] triple_bind [OF read_back_open [OF assms]] triple_if)
      (auto intro: triple_return Cons.IH)
qed

lemma matches_after_write_open:
  assumes "s \<in> {None, Some (k, c)}"
  shows "triple (open_is s) (matches_after_write (traced kv) k c)
    (\<lambda>b. open_is (if b then None else s)) (\<lambda>e w. (\<exists>x. e = EscapedError x) \<and> open_is s w)"
  unfolding matches_after_write_def by (rule read_back_loop_open [OF assms])

lemma publish_opens:
  "triple (open_is None) (kv_publish (traced kv) k c) (\<lambda>_. open_is (Some (k, c)))
     (\<lambda>e. open_is (case e of PublicationError _ \<Rightarrow> None | _ \<Rightarrow> Some (k, c)))"
  by (auto simp: triple_def wp_def traced_def open_is_def open_write_snoc write_step_def
      split: prod.splits sum.splits kv_error.splits)

lemma careful_publish_verified [careful_intros]: "careful (publish_verified sha (traced kv) k c)"
proof -
  let ?h = "\<lambda>e. case e of EscapedError _ \<Rightarrow> raise e
        | _ \<Rightarrow> bindA (matches_after_write (traced kv) k c) (\<lambda>match.
            if match then return (recovered_write_result sha k c, True) else raise e)"
  have esc: "(\<exists>x. e = EscapedError x) \<and> open_is s w \<Longrightarrow> fault e w" for e s and w :: "'a \<times> kv_event list"
    by (auto simp: fault_def)
  have handler: "triple (open_is (case e of PublicationError _ \<Rightarrow> None | _ \<Rightarrow> Some (k, c))) (?h e)
      (\<lambda>(r, b). open_is (if b then None else Some (k, c))) fault" for e
  proof (cases e)
    case (PublicationError x)
    have "triple (open_is None) (matches_after_write (traced kv) k c) (\<lambda>b. open_is None) fault"
      by (rule triple_weaken [OF matches_after_write_open [of None k c]]) (auto intro: esc)
    then show ?thesis
      using PublicationError
      by (auto intro!: triple_bind triple_if triple_return triple_raise simp: fault_def)
  next
    case (CommitUnknownError x z)
    have "triple (open_is (Some (k, c))) (matches_after_write (traced kv) k c)
        (\<lambda>b. open_is (if b then None else Some (k, c))) fault"
      by (rule triple_weaken [OF matches_after_write_open [of "Some (k, c)" k c]]) (auto intro: esc)
    then show ?thesis
      using CommitUnknownError
      by (auto intro!: triple_bind triple_if triple_return triple_raise simp: fault_def)
  next
    case (EscapedError x)
    then show ?thesis by (auto intro!: triple_raise simp: fault_def)
  qed
  have confirm: "triple (open_is (Some (k, c)))
      (bindA (matches_after_write (traced kv) k c) (\<lambda>match. if match then return r
         else raise (commit_unknown ''remote publication state is unknown after read-back verification'')))
      (\<lambda>_. open_is None) fault" for r :: json
  proof (rule triple_bind)
    show "triple (open_is (Some (k, c))) (matches_after_write (traced kv) k c)
        (\<lambda>b. open_is (if b then None else Some (k, c))) fault"
      by (rule triple_weaken [OF matches_after_write_open [of "Some (k, c)" k c]]) (auto intro: esc)
  qed (auto intro!: triple_if triple_return triple_raise simp: fault_def commit_unknown_def)
  show ?thesis
    unfolding publish_verified_def
  proof (rule careful_bind [OF careful_open], unfold careful_def)
    show "triple (open_is None)
      (bindA (try_catch (bindA (kv_publish (traced kv) k c) (\<lambda>result. return (result, False))) ?h)
        (\<lambda>(result, verified). if verified then return result
          else bindA (matches_after_write (traced kv) k c) (\<lambda>match. if match then return result
            else raise (commit_unknown ''remote publication state is unknown after read-back verification''))))
      (\<lambda>_. open_is None) fault"
    proof (rule triple_bind)
      show "triple (open_is None)
        (try_catch (bindA (kv_publish (traced kv) k c) (\<lambda>result. return (result, False))) ?h)
        (\<lambda>(r, b). open_is (if b then None else Some (k, c))) fault"
        by (rule triple_try [OF triple_bind [OF publish_opens] handler]) (auto intro: triple_return)
    qed (auto intro!: triple_return confirm split: prod.splits)
  qed
qed

section \<open>The release operations\<close>

lemma careful_on_unknown [careful_intros]: "careful m \<Longrightarrow> careful (on_unknown x c m)"
  unfolding on_unknown_def by (intro careful_try) (auto intro: careful_intros)

lemma careful_attempt [careful_intros]: "careful m \<Longrightarrow> careful (attempt x c label m)"
  unfolding attempt_def by (intro careful_try careful_bind) (auto intro: careful_intros)

lemma careful_any_of [careful_intros]: "list_all careful ms \<Longrightarrow> careful (any_of ms)"
  by (induction ms) (auto intro!: careful_intros)

lemma careful_ensure_object [careful_intros]: "careful (ensure_object sha (traced kv) k c x m)"
  unfolding ensure_object_def by (intro careful_intros)

lemma careful_ensure_immutable_release [careful_intros]:
  "careful (ensure_immutable_release sha (traced kv) keys c)"
  unfolding ensure_immutable_release_def by (intro careful_intros)

lemma careful_restore_pointer [careful_intros]: "careful (restore_pointer sha (traced kv) k i)"
  unfolding restore_pointer_def by (intro careful_intros)

lemma careful_transaction_write [careful_intros]: "careful (transaction_write sha (traced kv) keys t c)"
  unfolding transaction_write_def by (intro careful_intros)

lemma careful_write_phase [careful_intros]: "careful (write_phase sha (traced kv) keys t p c)"
  unfolding write_phase_def by (intro careful_intros)

lemma careful_write_phase_unless_reached [careful_intros]:
  "careful (write_phase_unless_reached sha (traced kv) keys t p)"
  unfolding write_phase_unless_reached_def by (intro careful_intros)

lemma careful_checks [careful_intros]:
  "careful (read_pointer (traced kv) k)" "careful (value_differs (traced kv) k c)"
  "careful (pointer_differs (traced kv) k i)"
  unfolding read_pointer_def value_differs_def pointer_differs_def by (intro careful_intros)+

lemma careful_predecessor_check [careful_intros]: "careful (predecessor_check sha (traced kv) keys i)"
  unfolding predecessor_check_def predecessor_unavailable_def by (intro careful_intros)

lemma careful_resume_transaction [careful_intros]:
  "careful (resume_transaction sha (traced kv) keys c i j t)"
  unfolding resume_transaction_def Let_def by (intro careful_intros) (auto intro!: careful_intros)

lemma careful_recover_transaction [careful_intros]:
  "careful (recover_transaction sha (traced kv) keys c live i j t)"
  unfolding recover_transaction_def by (intro careful_intros)

lemma careful_restore_after_failed_commit [careful_intros]:
  "careful (restore_after_failed_commit sha (traced kv) keys c i j)"
  unfolding restore_after_failed_commit_def Let_def by (intro careful_intros)

lemma careful_activate_first_release [careful_intros]:
  "careful (activate_first_release sha (traced kv) keys c i j)"
  unfolding activate_first_release_def by (intro careful_intros) (auto intro!: careful_intros)

lemma careful_commit_step [careful_intros]:
  "careful m \<Longrightarrow> careful (commit_step sha (traced kv) keys c i j x z m)"
  unfolding commit_step_def by (intro careful_try careful_bind) (auto intro!: careful_intros)

lemma careful_retire_intent [careful_intros]: "careful (retire_intent sha (traced kv) keys t)"
  unfolding retire_intent_def committed_state_unproven_def
  by (intro careful_intros) (auto intro!: careful_intros)

lemma careful_settle_observed [careful_intros]: "careful (settle_observed sha (traced kv) keys c t)"
  unfolding settle_observed_def by (intro careful_intros)

lemma careful_finish_transaction [careful_intros]:
  "careful (finish_transaction sha (traced kv) keys c t m)"
  unfolding finish_transaction_def by (intro careful_intros) (auto intro!: careful_intros)

lemma careful_publish_first [careful_intros]: "careful (publish_first sha (traced kv) keys c i j)"
  unfolding publish_first_def Let_def
  by (intro careful_intros) (auto intro!: careful_intros)

lemma careful_publish_replacement [careful_intros]:
  "careful (publish_replacement sha (traced kv) keys c i old j k)"
  unfolding publish_replacement_def Let_def by (intro careful_intros)

lemma careful_publish_without_intent [careful_intros]:
  "careful (publish_without_intent sha (traced kv) keys c i x j k)"
  unfolding publish_without_intent_def publish_unchanged_def by (intro careful_intros)

lemma careful_beside [careful_intros]: "careful (beside m)"
  by (auto simp: careful_def triple_def wp_def beside_def fault_calm open_is_def split: prod.splits sum.splits)

lemma careful_publish_release_bundle:
  "careful (publish_release_bundle sha (traced kv) k c (map_option (\<lambda>f x. beside (f x)) observer))"
  unfolding publish_release_bundle_def
  by (cases observer) (simp_all, (intro careful_intros)+)

text \<open>
  C1. For every publisher, whatever its calls answer or do: a run of \<open>publish_release_bundle\<close> makes no
  write while the outcome of an earlier write is open (every earlier one was definitely rejected or its
  exact bytes were read back), and a run that ends with a result or a definite \<open>PublicationError\<close>
  leaves no open write behind.
\<close>

theorem publish_never_writes_after_ambiguity:
  fixes kv :: "'w kv"
  shows "case publish_release_bundle sha (traced kv) key content
      (map_option (\<lambda>f x. beside (f x)) observer) (w, []) of
    (r, (w', trace)) \<Rightarrow> (case r of
        Inr result \<Rightarrow> open_write_after None trace = Some None
      | Inl (PublicationError m) \<Rightarrow> open_write_after None trace = Some None
      | Inl e \<Rightarrow> open_write_after None trace \<noteq> None)"
proof -
  have "open_is None (w, [])" by (simp add: open_is_def)
  from tripleD [OF careful_publish_release_bundle [unfolded careful_def] this]
  have "wp (publish_release_bundle sha (traced kv) key content
      (map_option (\<lambda>f x. beside (f x)) observer)) (\<lambda>_. open_is None) fault (w, [])" .
  then show ?thesis
    by (auto simp: wp_def open_is_def fault_def split: prod.splits sum.splits kv_error.splits)
qed

end
