(* ===== verification/JsonValues.thy ===== *)
theory JsonValues
  imports JsonFacts
begin

text \<open>
  How the program inspects decoded documents: \<^verbatim>\<open>isinstance(x, int)\<close>, which a boolean satisfies,
  \<^verbatim>\<open>type(x) is int\<close>, comparison with a literal, and \<^verbatim>\<open>dict.get\<close>.
\<close>

text \<open>\<^verbatim>\<open>isinstance(x, int)\<close> with the integer it stands for.\<close>

definition as_int :: "json \<Rightarrow> int option" where
  "as_int j = (case j of JInt n \<Rightarrow> Some n | JBool b \<Rightarrow> Some (if b then 1 else 0) | _ \<Rightarrow> None)"

text \<open>\<^verbatim>\<open>x == n\<close> for an integer literal.\<close>

definition eq_int :: "json \<Rightarrow> int \<Rightarrow> bool" where
  "eq_int j n = (case j of JInt m \<Rightarrow> m = n | JBool b \<Rightarrow> (if b then 1 else 0) = n
     | JFloat (Fin q) \<Rightarrow> q = of_int n | _ \<Rightarrow> False)"

text \<open>\<^verbatim>\<open>d.get(k)\<close>\<close>

definition json_get :: "json dict \<Rightarrow> string \<Rightarrow> json" where
  "json_get d k = (case map_of d k of Some v \<Rightarrow> v | None \<Rightarrow> JNull)"

lemma as_int_simps [simp]:
  "as_int (JInt n) = Some n" "as_int (JBool b) = Some (if b then 1 else 0)" "as_int JNull = None"
  "as_int (JStr s) = None" "as_int (JFloat f) = None" "as_int (JList xs) = None" "as_int (JObj d) = None"
  by (simp_all add: as_int_def)

lemma eq_int_JInt [simp]: "eq_int (JInt m) n \<longleftrightarrow> m = n"
  by (simp add: eq_int_def)

text \<open>The truth value of a decoded value.\<close>

fun truthy :: "json \<Rightarrow> bool" where
  "truthy JNull = False"
| "truthy (JBool b) = b"
| "truthy (JInt n) = (n \<noteq> 0)"
| "truthy (JFloat f) = (f \<noteq> Fin 0)"
| "truthy (JStr s) = (s \<noteq> [])"
| "truthy (JList xs) = (xs \<noteq> [])"
| "truthy (JObj d) = (d \<noteq> [])"

text \<open>The text of a document read as \<^verbatim>\<open>json.loads(content.decode("utf-8"))\<close>, every \<^verbatim>\<open>ValueError\<close> caught.\<close>

definition decode_document :: "bytes \<Rightarrow> json option" where
  "decode_document content =
     (if valid_utf8 content then (case json_loads content of Inr j \<Rightarrow> Some j | Inl _ \<Rightarrow> None) else None)"

lemma decode_dumps:
  assumes "plain j"
  shows "decode_document (json_dumps j @ [CHR 0x0A]) = Some (jsort j)"
proof -
  have "ascii_text (json_dumps j @ [CHR 0x0A])" using assms by (simp add: ascii_json_dumps is_ascii_def)
  then show ?thesis using json_loads_dumps(2) [OF assms] by (simp add: decode_document_def valid_utf8_ascii)
qed

text \<open>A dictionary sorted by its keys.\<close>

definition sort_dict :: "'v dict \<Rightarrow> 'v dict" where
  "sort_dict d = sort_key fst d"

lemma sort_dict_simps [simp]:
  "set (sort_dict d) = set d" "length (sort_dict d) = length d" "sort_dict [] = []"
  by (simp_all add: sort_dict_def)

lemma distinct_sort_dict [simp]: "distinct (map fst (sort_dict d)) = distinct (map fst d)"
  by (simp add: sort_dict_def distinct_map)

lemma map_of_sort_dict [simp]: "distinct (map fst d) \<Longrightarrow> map_of (sort_dict d) = map_of d"
  by (subst map_of_inject_set) simp_all

lemma sort_key_map: "sort_key f (map g xs) = map g (sort_key (\<lambda>x. f (g x)) xs)"
proof -
  have i: "insort_key f (g x) (map g ys) = map g (insort_key (\<lambda>x. f (g x)) x ys)" for x ys
    by (induction ys) simp_all
  show ?thesis by (induction xs) (simp_all add: i)
qed

lemma jsort_dict: "jsort (JObj (map (\<lambda>(k, v). (k, f v)) d)) = JObj (map (\<lambda>(k, v). (k, jsort (f v))) (sort_dict d))"
  by (simp add: sort_dict_def sort_key_map comp_def case_prod_beta)

lemma sort_dict_sorted: "sort_dict (sort_dict d) = sort_dict d"
  by (simp add: sort_dict_def sorted_sort_id sort_key_id_if_sorted)

lemma map_fst_values [simp]: "map (fst \<circ> (\<lambda>(k, v). (k, f v))) d = map fst d"
  by (simp add: comp_def case_prod_beta)

end
