(* ===== verification/ReleaseJournal.thy ===== *)
theory ReleaseJournal
  imports JsonValues ReleaseTransaction
begin

text \<open>
  \<^verbatim>\<open>src/clash_relay/release_journal.py\<close> and \<^verbatim>\<open>release_inventory.py\<close>: the journal of observed
  releases, the retention plan drawn from it, and the classification of one listing of the stored
  release objects.  A journal is the dictionary its JSON form decodes to; the clock is an argument.
\<close>

section \<open>Reading a journal\<close>

definition MAX_RECORDS :: nat where "MAX_RECORDS = 4096"

text \<open>\<^verbatim>\<open>int(_MAX_RECORDS * 0.875)\<close>, a product that is exact in binary64.\<close>

definition WARNING_RECORDS :: nat where "WARNING_RECORDS = 3584"

datatype journal_status = Missing | Invalid | Loaded

text \<open>The cleaned records: release identifier and first-seen epoch, as the document had it.\<close>

type_synonym releases = "json dict"

definition journal_dict :: "releases \<Rightarrow> json dict" where
  "journal_dict rs = [(''version'', JInt 1),
     (''releases'', JObj (map (\<lambda>(i, t). (i, JObj [(''first_seen_epoch'', t)])) rs))]"

definition empty_release_journal :: "json dict" where
  "empty_release_journal = journal_dict []"

definition clean_record :: "string \<times> json \<Rightarrow> unit + string \<times> json" where
  "clean_record item = (case item of (release_id, record) \<Rightarrow>
     (case record of
        JObj d \<Rightarrow>
          if \<not> is_release_id release_id then Inl ()
          else (case as_int (json_get d ''first_seen_epoch'') of
              Some n \<Rightarrow> if n < 0 then Inl () else Inr (release_id, json_get d ''first_seen_epoch'')
            | None \<Rightarrow> Inl ())
      | _ \<Rightarrow> Inl ()))"

definition parse_release_journal :: "bytes option \<Rightarrow> releases \<times> journal_status" where
  "parse_release_journal content = (case content of
     None \<Rightarrow> ([], Missing)
   | Some text \<Rightarrow>
       if text = [] then ([], Missing)
       else (case decode_document text of
           Some (JObj document) \<Rightarrow>
             if \<not> eq_int (json_get document ''version'') 1 then ([], Invalid)
             else (case json_get document ''releases'' of
                 JObj releases \<Rightarrow>
                   (case mapE clean_record releases of
                      Inl _ \<Rightarrow> ([], Invalid)
                    | Inr clean \<Rightarrow> if MAX_RECORDS < length clean then ([], Invalid) else (clean, Loaded))
               | _ \<Rightarrow> ([], Invalid))
         | _ \<Rightarrow> ([], Invalid)))"

definition encode_journal :: "json dict \<Rightarrow> bytes" where
  "encode_journal document = json_dumps (JObj document) @ [CHR 0x0A]"

text \<open>\<^verbatim>\<open>parse_release_journal(_encode(journal))\<close> followed by the check of its status.\<close>

definition checked_releases :: "json dict \<Rightarrow> kv_error + releases" where
  "checked_releases doc = (case parse_release_journal (Some (encode_journal doc)) of
     (releases, Invalid) \<Rightarrow> Inl (PublicationError ''release journal is invalid'')
   | (releases, _) \<Rightarrow> Inr releases)"

definition release_journal_summary :: "json dict \<Rightarrow> kv_error + json dict" where
  "release_journal_summary doc = bindE (checked_releases doc) (\<lambda>releases.
     Inr [(''records'', JInt (int (length releases))), (''capacity'', JInt (int MAX_RECORDS)),
       (''capacity_status'', JStr (if WARNING_RECORDS \<le> length releases then ''warning'' else ''healthy''))])"

section \<open>Changing a journal\<close>

definition record_release_observation :: "json dict \<Rightarrow> string \<Rightarrow> int \<Rightarrow> kv_error + json dict" where
  "record_release_observation doc release_id now =
     bindE (validate_release_id release_id) (\<lambda>_.
     bindE (checked_releases doc) (\<lambda>releases.
     if release_id \<notin> fst ` set releases then
       (if MAX_RECORDS \<le> length releases
        then Inl (PublicationError ''release journal record limit reached'')
        else Inr (journal_dict (dict_set release_id (JInt now) releases)))
     else Inr (journal_dict releases)))"

definition remove_release_observations :: "json dict \<Rightarrow> string set \<Rightarrow> kv_error + json dict" where
  "remove_release_observations doc release_ids =
     bindE (checked_releases doc) (\<lambda>releases.
     Inr (journal_dict (filter (\<lambda>(i, t). i \<notin> release_ids) releases)))"

definition serialize_release_journal :: "json dict \<Rightarrow> kv_error + bytes" where
  "serialize_release_journal doc =
     bindE (checked_releases doc) (\<lambda>releases. Inr (encode_journal (journal_dict releases)))"

section \<open>The retention plan\<close>

record retention_plan =
  retention_seconds :: int
  protected_release_ids :: "string list"
  deletion_candidate_ids :: "string list"
  retained_by_window :: nat
  invalid_records :: nat

definition plan_id :: "(bytes \<Rightarrow> string) \<Rightarrow> retention_plan \<Rightarrow> string" where
  "plan_id sha p = sha (json_dumps (JObj
     [(''retention_seconds'', JInt (retention_seconds p)),
      (''protected_release_ids'', JList (map JStr (protected_release_ids p))),
      (''deletion_candidate_ids'', JList (map JStr (deletion_candidate_ids p)))]))"

definition retention_plan_to_dict :: "(bytes \<Rightarrow> string) \<Rightarrow> retention_plan \<Rightarrow> json dict" where
  "retention_plan_to_dict sha p =
     [(''status'', JStr ''planned''), (''plan_id'', JStr (plan_id sha p)),
      (''retention_seconds'', JInt (retention_seconds p)),
      (''protected_release_ids'', JList (map JStr (protected_release_ids p))),
      (''deletion_candidate_ids'', JList (map JStr (deletion_candidate_ids p))),
      (''retained_by_window'', JInt (int (retained_by_window p))),
      (''invalid_records'', JInt (int (invalid_records p))), (''mutation'', JStr ''none'')]"

definition option_list :: "'a option \<Rightarrow> 'a list" where
  "option_list x = (case x of None \<Rightarrow> [] | Some a \<Rightarrow> [a])"

text \<open>The loop over the records: the number kept by the window and the expired identifiers.\<close>

fun retention_scan :: "string list \<Rightarrow> int \<Rightarrow> releases \<Rightarrow> nat \<times> string list" where
  "retention_scan protected cutoff [] = (0, [])"
| "retention_scan protected cutoff ((i, t) # rs) =
     (case retention_scan protected cutoff rs of (kept, candidates) \<Rightarrow>
        if i \<in> set protected then (kept, candidates)
        else if cutoff \<le> the (as_int t) then (Suc kept, candidates)
        else (kept, i # candidates))"

definition plan_release_retention ::
  "json dict \<Rightarrow> string option \<Rightarrow> string option \<Rightarrow> string option \<Rightarrow> string list \<Rightarrow> int \<Rightarrow> int \<Rightarrow>
   kv_error + retention_plan" where
  "plan_release_retention doc current previous live_id transaction_ids retain_seconds now =
     (if retain_seconds < 0 then Inl (PublicationError ''release retention duration must not be negative'')
      else bindE (checked_releases doc) (\<lambda>releases.
        (let protected = sorted_set (option_list current @ option_list previous @ option_list live_id @ transaction_ids) in
         bindE (mapE validate_release_id protected) (\<lambda>_.
         (case retention_scan protected (now - retain_seconds) releases of (kept, candidates) \<Rightarrow>
            Inr \<lparr>retention_seconds = retain_seconds, protected_release_ids = protected,
              deletion_candidate_ids = sort candidates, retained_by_window = kept, invalid_records = 0\<rparr>)))))"

section \<open>The inventory of stored objects\<close>

text \<open>\<^verbatim>\<open>_OBJECT.fullmatch\<close> on the rest of a name: the identifier and the kind of the object.\<close>

definition object_match :: "string \<Rightarrow> (string \<times> string) option" where
  "object_match rest = (let i = take 64 rest; kind = drop 64 rest in
     if is_release_id i \<and> kind = ''.config'' then Some (i, ''config'')
     else if is_release_id i \<and> kind = ''.manifest'' then Some (i, ''manifest'') else None)"

definition listed_object :: "string \<Rightarrow> string \<Rightarrow> (string \<times> string) option" where
  "listed_object production_key name = (let prefix = production_key @ ''.release-v1.'' in
     if take (length prefix) name = prefix then object_match (drop (length prefix) name) else None)"

text \<open>\<open>objects\<close>: for each identifier seen, the set of kinds seen with it.\<close>

definition inventory_objects :: "string \<Rightarrow> string list \<Rightarrow> (string \<times> string) list" where
  "inventory_objects production_key names = remdups (List.map_filter (listed_object production_key) names)"

record inventory =
  inv_protected :: "string list"
  inv_journaled :: "string list"
  inv_unrecorded :: "string list"
  inv_unrecorded_unprotected :: "string list"
  inv_incomplete :: "string list"
  inv_unlisted :: "string list"
  inv_objects :: nat

definition plan_release_inventory ::
  "string \<Rightarrow> string list \<Rightarrow> string list \<Rightarrow> string option \<Rightarrow> string option \<Rightarrow> string option \<Rightarrow> string list \<Rightarrow>
   kv_error + inventory" where
  "plan_release_inventory production_key names journal_ids current previous live_id transaction_ids =
     bindE (release_keys production_key) (\<lambda>_.
     (let objects = inventory_objects production_key names;
          protected = sorted_set (option_list current @ option_list previous @ option_list live_id @ transaction_ids);
          observed = sorted_set (map fst objects) in
      Inr \<lparr>inv_protected = protected,
        inv_journaled = sorted_set journal_ids,
        inv_unrecorded = filter (\<lambda>i. i \<notin> set journal_ids) observed,
        inv_unrecorded_unprotected = filter (\<lambda>i. i \<notin> set journal_ids \<and> i \<notin> set protected) observed,
        inv_incomplete = filter (\<lambda>i. \<not> ((i, ''config'') \<in> set objects \<and> (i, ''manifest'') \<in> set objects)) observed,
        inv_unlisted = filter (\<lambda>i. i \<notin> set observed) (sorted_set journal_ids),
        inv_objects = length objects\<rparr>))"

section \<open>Facts\<close>

text \<open>The records a journal may hold, each an identifier with a non-negative first-seen epoch.\<close>

definition wf_releases :: "releases \<Rightarrow> bool" where
  "wf_releases rs \<longleftrightarrow> dict_wf rs \<and> length rs \<le> MAX_RECORDS
     \<and> list_all (\<lambda>(i, t). is_release_id i \<and> (\<exists>n. as_int t = Some n \<and> 0 \<le> n) \<and> plain t) rs"

lemma as_int_plain: "plain t \<Longrightarrow> as_int t = Some n \<Longrightarrow> jsort t = t"
  by (cases t) simp_all

lemma plain_journal:
  assumes "wf_releases rs"
  shows "plain (JObj (journal_dict rs))"
proof -
  have "ascii_text i \<and> plain t" if "(i, t) \<in> set rs" for i t
    using assms that by (auto simp: wf_releases_def list_all_iff intro: release_id_ascii [unfolded list_all_iff, rule_format])
  then show ?thesis
    using assms by (auto simp: journal_dict_def wf_releases_def list_all_iff nat_digits.simps is_ascii_def)
qed

lemma wf_sort_releases: "wf_releases rs \<Longrightarrow> wf_releases (sort_dict rs)"
  by (simp add: wf_releases_def list_all_iff)

lemma jsort_journal:
  assumes "wf_releases rs"
  shows "jsort (JObj (journal_dict rs)) = JObj
    [(''releases'', JObj (map (\<lambda>(i, t). (i, JObj [(''first_seen_epoch'', t)])) (sort_dict rs))), (''version'', JInt 1)]"
proof -
  have "jsort t = t" if "(i, t) \<in> set (sort_dict rs)" for i t
    using assms that by (auto simp: wf_releases_def list_all_iff intro: as_int_plain)
  then have "map (\<lambda>(k, v). (k, jsort (JObj [(''first_seen_epoch'', v)]))) (sort_dict rs)
      = map (\<lambda>(i, t). (i, JObj [(''first_seen_epoch'', t)])) (sort_dict rs)"
    by (auto simp: sort_key_def)
  then show ?thesis
    using jsort_dict [of "\<lambda>t. JObj [(''first_seen_epoch'', t)]" rs]
    by (simp add: journal_dict_def sort_key_def)
qed

lemma clean_journal:
  "list_all (\<lambda>(i, t). is_release_id i \<and> (\<exists>n. as_int t = Some n \<and> 0 \<le> n) \<and> plain t) rs \<Longrightarrow>
   mapE clean_record (map (\<lambda>(i, t). (i, JObj [(''first_seen_epoch'', t)])) rs) = Inr rs"
  by (induction rs) (auto simp: clean_record_def json_get_def)

lemma parse_encoded:
  assumes "wf_releases rs"
  shows "parse_release_journal (Some (encode_journal (journal_dict rs))) = (sort_dict rs, Loaded)"
proof -
  have c: "mapE clean_record (map (\<lambda>(i, t). (i, JObj [(''first_seen_epoch'', t)])) (sort_dict rs)) = Inr (sort_dict rs)"
    using wf_sort_releases [OF assms] by (intro clean_journal) (simp add: wf_releases_def)
  have "encode_journal (journal_dict rs) \<noteq> []" by (simp add: encode_journal_def)
  then show ?thesis
    using decode_dumps [OF plain_journal [OF assms]] c assms
    by (simp add: parse_release_journal_def encode_journal_def jsort_journal json_get_def wf_releases_def
        del: jsort.simps)
qed

lemma checked_journal: "wf_releases rs \<Longrightarrow> checked_releases (journal_dict rs) = Inr (sort_dict rs)"
  by (simp add: checked_releases_def parse_encoded)

lemma mapE_Inr_list_all:
  "mapE f xs = Inr ys \<Longrightarrow> (\<And>x y. f x = Inr y \<Longrightarrow> P y) \<Longrightarrow> list_all P ys"
  by (induction xs arbitrary: ys) (auto split: sum.splits)

lemma mapE_clean_keys: "mapE clean_record kvs = Inr ys \<Longrightarrow> map fst ys = map fst kvs"
  by (induction kvs arbitrary: ys)
    (auto simp: clean_record_def split: sum.splits json.splits if_splits option.splits prod.splits)

text \<open>Whatever bytes are read, the cleaned records are identifiers with non-negative epochs, at most the limit.\<close>

lemma parse_journal_sound:
  assumes "parse_release_journal content = (rs, st)"
  shows "length rs \<le> MAX_RECORDS" "list_all (\<lambda>(i, t). is_release_id i \<and> (\<exists>n. as_int t = Some n \<and> 0 \<le> n)) rs"
    "st \<noteq> Loaded \<Longrightarrow> rs = []"
proof -
  have c: "clean_record x = Inr y \<Longrightarrow> (\<lambda>(i, t). is_release_id i \<and> (\<exists>n. as_int t = Some n \<and> 0 \<le> n)) y" for x y
    by (auto simp: clean_record_def split: prod.splits json.splits if_splits option.splits)
  show "length rs \<le> MAX_RECORDS" "list_all (\<lambda>(i, t). is_release_id i \<and> (\<exists>n. as_int t = Some n \<and> 0 \<le> n)) rs"
    "st \<noteq> Loaded \<Longrightarrow> rs = []"
    using assms mapE_Inr_list_all [OF _ c]
    by (auto simp: parse_release_journal_def split: option.splits if_splits json.splits sum.splits)
qed

section \<open>Properties\<close>

text \<open>
  C17. Journals survive storage: a journal within its limits is written, and what is written reads back
  as the same records.
\<close>

theorem journal_roundtrip:
  assumes "wf_releases rs"
  shows "\<exists>raw. serialize_release_journal (journal_dict rs) = Inr raw
    \<and> parse_release_journal (Some raw) = (sort_dict rs, Loaded) \<and> map_of (sort_dict rs) = map_of rs"
  using parse_encoded [OF wf_sort_releases [OF assms]] assms
  by (simp add: serialize_release_journal_def checked_journal sort_dict_sorted wf_releases_def)

lemma demo_journal_wf:
  "wf_releases [(replicate 64 CHR ''b'', JInt 5), (replicate 64 CHR ''a'', JInt 100)]"
proof -
  have "replicate 64 CHR ''b'' \<noteq> replicate 64 CHR ''a''" by simp
  then show ?thesis by (simp add: wf_releases_def MAX_RECORDS_def demo_ids nat_digits.simps)
qed

theorem journal_roundtrip_witness:
  "\<exists>raw. serialize_release_journal (journal_dict [(replicate 64 CHR ''b'', JInt 5), (replicate 64 CHR ''a'', JInt 100)])
      = Inr raw
    \<and> parse_release_journal (Some raw)
      = (sort_dict [(replicate 64 CHR ''b'', JInt 5), (replicate 64 CHR ''a'', JInt 100)], Loaded)
    \<and> map_of (sort_dict [(replicate 64 CHR ''b'', JInt 5), (replicate 64 CHR ''a'', JInt 100)])
      = map_of [(replicate 64 CHR ''b'', JInt 5), (replicate 64 CHR ''a'', JInt 100)]"
  by (rule journal_roundtrip [OF demo_journal_wf])

text \<open>
  Recording an observation keeps the journal well formed and every earlier first-seen time: a known
  release keeps its own, a new one gets the clock, and the only refusal is the capacity limit.
\<close>

theorem record_keeps_first_seen:
  assumes "wf_releases rs" and "is_release_id i" and "0 \<le> now" and "length (nat_digits (nat now)) \<le> 4300"
  shows "case record_release_observation (journal_dict rs) i now of
      Inl e \<Rightarrow> i \<notin> dom (map_of rs) \<and> length rs = MAX_RECORDS
    | Inr doc \<Rightarrow> \<exists>rs'. doc = journal_dict rs' \<and> wf_releases rs'
        \<and> map_of rs' = (if i \<in> dom (map_of rs) then map_of rs else (map_of rs)(i \<mapsto> JInt now))"
proof -
  have keys: "fst ` set rs = dom (map_of rs)" by (rule dom_map_of_conv_image_fst [symmetric])
  have v: "validate_release_id i = Inr ()" using assms by (simp add: validate_release_id_def)
  show ?thesis
  proof (cases "i \<in> dom (map_of rs)")
    case True
    then show ?thesis
      using wf_sort_releases [OF assms(1)] assms(1)
      by (auto simp: record_release_observation_def v checked_journal keys wf_releases_def intro!: exI [of _ "sort_dict rs"])
  next
    case False
    have "wf_releases (dict_set i (JInt now) (sort_dict rs))" if "length rs < MAX_RECORDS"
    proof -
      have "i \<notin> fst ` set (sort_dict rs)" using False keys by simp
      then show ?thesis
        using that assms by (auto simp: wf_releases_def list_all_iff length_dict_set dict_set_fresh)
    qed
    moreover have "length rs \<le> MAX_RECORDS" using assms(1) by (simp add: wf_releases_def)
    ultimately show ?thesis
      using False assms(1)
      by (auto simp: record_release_observation_def v checked_journal keys wf_releases_def
          intro!: exI [of _ "dict_set i (JInt now) (sort_dict rs)"])
  qed
qed

theorem record_keeps_first_seen_witness:
  "case record_release_observation (journal_dict [(replicate 64 CHR ''b'', JInt 5), (replicate 64 CHR ''a'', JInt 100)])
      (replicate 64 CHR ''a'') 7 of
      Inl e \<Rightarrow> replicate 64 CHR ''a''
          \<notin> dom (map_of [(replicate 64 CHR ''b'', JInt 5), (replicate 64 CHR ''a'', JInt 100)])
        \<and> length [(replicate 64 CHR ''b'', JInt 5), (replicate 64 CHR ''a'', JInt 100)] = MAX_RECORDS
    | Inr doc \<Rightarrow> \<exists>rs'. doc = journal_dict rs' \<and> wf_releases rs'
        \<and> map_of rs' = (if replicate 64 CHR ''a''
              \<in> dom (map_of [(replicate 64 CHR ''b'', JInt 5), (replicate 64 CHR ''a'', JInt 100)])
            then map_of [(replicate 64 CHR ''b'', JInt 5), (replicate 64 CHR ''a'', JInt 100)]
            else (map_of [(replicate 64 CHR ''b'', JInt 5), (replicate 64 CHR ''a'', JInt 100)])
              (replicate 64 CHR ''a'' \<mapsto> JInt 7))"
  by (rule record_keeps_first_seen [OF demo_journal_wf demo_ids(1)]) (simp_all add: nat_digits.simps)

lemma retention_scan_filter:
  "retention_scan protected cutoff rs =
     (length (filter (\<lambda>(i, t). i \<notin> set protected \<and> cutoff \<le> the (as_int t)) rs),
      map fst (filter (\<lambda>(i, t). i \<notin> set protected \<and> the (as_int t) < cutoff) rs))"
  by (induction protected cutoff rs rule: retention_scan.induct) auto

lemma retention_partition:
  "length rs = length (filter (\<lambda>(i, t). i \<notin> P \<and> the (as_int t) < c) rs)
     + length (filter (\<lambda>(i, t). i \<notin> P \<and> c \<le> the (as_int t)) rs) + length (filter (\<lambda>(i, t). i \<in> P) rs)"
  by (induction rs) auto

lemma length_filter_sort_dict [simp]: "length (filter P (sort_dict rs)) = length (filter P rs)"
  by (simp add: sort_dict_def filter_sort)

text \<open>
  C18. The retention plan deletes exactly the journalled releases that are older than the window and
  referenced by nothing: no protected release is ever a candidate, and every record is protected,
  kept by the window, or a candidate.
\<close>

theorem retention_plan_exact:
  assumes "wf_releases rs"
    and "plan_release_retention (journal_dict rs) current previous live_id transaction_ids retain now = Inr p"
  shows "set (protected_release_ids p) = set_option current \<union> set_option previous \<union> set_option live_id \<union> set transaction_ids
    \<and> set (deletion_candidate_ids p) = {i. i \<notin> set (protected_release_ids p)
        \<and> (\<exists>t. map_of rs i = Some t \<and> the (as_int t) < now - retain)}
    \<and> distinct (deletion_candidate_ids p)
    \<and> length rs = length (deletion_candidate_ids p) + retained_by_window p
        + length (filter (\<lambda>(i, t). i \<in> set (protected_release_ids p)) rs)"
proof -
  define P where "P = sorted_set (option_list current @ option_list previous @ option_list live_id @ transaction_ids)"
  have wf: "dict_wf rs" using assms(1) by (simp add: wf_releases_def)
  have p: "p = \<lparr>retention_seconds = retain, protected_release_ids = P,
      deletion_candidate_ids = sort (map fst (filter (\<lambda>(i, t). i \<notin> set P \<and> the (as_int t) < now - retain) (sort_dict rs))),
      retained_by_window = length (filter (\<lambda>(i, t). i \<notin> set P \<and> now - retain \<le> the (as_int t)) rs),
      invalid_records = 0\<rparr>"
    using assms(2) by (auto simp: plan_release_retention_def checked_journal [OF assms(1)] Let_def
        retention_scan_filter P_def bindE_Inr_iff split: if_splits)
  have o: "set (option_list x) = set_option x" for x :: "string option"
    by (cases x) (simp_all add: option_list_def)
  have m: "(i, t) \<in> set rs \<longleftrightarrow> map_of rs i = Some t" for i t using wf by simp
  have d: "distinct (map fst (filter Q (sort_dict rs)))" for Q
    using wf by (simp add: distinct_map_filter)
  have c: "fst ` set (filter (\<lambda>(i, t). i \<notin> set P \<and> the (as_int t) < now - retain) (sort_dict rs))
      = {i. i \<notin> set P \<and> (\<exists>t. map_of rs i = Some t \<and> the (as_int t) < now - retain)}"
    unfolding m [symmetric] by force
  have s: "set P = set_option current \<union> set_option previous \<union> set_option live_id \<union> set transaction_ids"
    by (simp add: P_def o Un_assoc)
  show ?thesis
    unfolding p retention_plan.select_convs set_sort set_map c s [symmetric]
    using retention_partition [of rs "set P" "now - retain"] d by simp
qed

theorem retention_plan_exact_witness:
  "\<exists>p. plan_release_retention (journal_dict [(replicate 64 CHR ''b'', JInt 5), (replicate 64 CHR ''a'', JInt 100)])
      None None None [] 50 100 = Inr p
    \<and> set (deletion_candidate_ids p) = {i. i \<notin> set (protected_release_ids p)
        \<and> (\<exists>t. map_of [(replicate 64 CHR ''b'', JInt 5), (replicate 64 CHR ''a'', JInt 100)] i = Some t
            \<and> the (as_int t) < 100 - 50)}"
proof -
  have "\<exists>p. plan_release_retention (journal_dict [(replicate 64 CHR ''b'', JInt 5), (replicate 64 CHR ''a'', JInt 100)])
      None None None [] 50 100 = Inr p"
    by (simp add: plan_release_retention_def checked_journal [OF demo_journal_wf] retention_scan_filter
        option_list_def sorted_set_def)
  then show ?thesis using retention_plan_exact [OF demo_journal_wf] by blast
qed

end
