(* ===== verification/Reconciliation.thy ===== *)
theory Reconciliation
  imports SimulatedKv
begin

text \<open>
  \<^verbatim>\<open>src/clash_relay/release_reconciliation.py\<close>: the read-only verdict on an ambiguous release commit,
  with its soundness over a consistent publisher and for any publisher the fact that it never writes.
\<close>

section \<open>The verdict\<close>

datatype reconciliation_status = COMMITTED | NOT_COMMITTED | INDETERMINATE | UNKNOWN

record reconciliation =
  rec_status :: reconciliation_status
  rec_production_changed :: changed
  rec_release_id :: string
  rec_reason :: string
  rec_production_matches :: "bool option"
  rec_current :: "string option"
  rec_previous :: "string option"
  rec_freshness :: "string option"

definition reconciliation_status_text :: "reconciliation_status \<Rightarrow> string" where
  "reconciliation_status_text s = (case s of COMMITTED \<Rightarrow> ''committed'' | NOT_COMMITTED \<Rightarrow> ''not_committed''
     | INDETERMINATE \<Rightarrow> ''indeterminate'' | UNKNOWN \<Rightarrow> ''unknown'')"

definition changed_json :: "changed \<Rightarrow> json" where
  "changed_json c = (case c of Changed \<Rightarrow> JBool True | NotChanged \<Rightarrow> JBool False | ChangeUnknown \<Rightarrow> JStr ''unknown'')"

definition reconciliation_to_dict :: "reconciliation \<Rightarrow> json dict" where
  "reconciliation_to_dict r =
     [(''status'', JStr (reconciliation_status_text (rec_status r))),
      (''production_changed'', changed_json (rec_production_changed r)),
      (''release_id'', JStr (rec_release_id r)), (''reason'', JStr (rec_reason r)),
      (''production_matches_candidate'', case rec_production_matches r of None \<Rightarrow> JNull | Some b \<Rightarrow> JBool b),
      (''current_release_id'', id_json (rec_current r)), (''previous_release_id'', id_json (rec_previous r)),
      (''observation_freshness'', id_json (rec_freshness r)),
      (''requires_manual_action'', JBool (rec_status r \<in> {INDETERMINATE, UNKNOWN}))]"

definition unknown_verdict ::
  "string \<Rightarrow> string \<Rightarrow> changed \<Rightarrow> bool option \<Rightarrow> string option \<Rightarrow> string option \<Rightarrow> reconciliation" where
  "unknown_verdict release_id reason c matches current previous =
     \<lparr>rec_status = UNKNOWN, rec_production_changed = c, rec_release_id = release_id, rec_reason = reason,
      rec_production_matches = matches, rec_current = current, rec_previous = previous, rec_freshness = None\<rparr>"

definition committed_verdict :: "string \<Rightarrow> string \<Rightarrow> changed \<Rightarrow> string option \<Rightarrow> reconciliation" where
  "committed_verdict release_id reason c previous =
     \<lparr>rec_status = COMMITTED, rec_production_changed = c, rec_release_id = release_id, rec_reason = reason,
      rec_production_matches = Some True, rec_current = Some release_id, rec_previous = previous,
      rec_freshness = None\<rparr>"

text \<open>The classification of one observation whose pointers and intent parsed.\<close>

definition classify_observation ::
  "string \<Rightarrow> string option \<Rightarrow> bytes \<Rightarrow> bytes option \<Rightarrow> bool \<Rightarrow>
   bytes option \<Rightarrow> string option \<Rightarrow> string option \<Rightarrow> release_transaction option \<Rightarrow> reconciliation" where
  "classify_observation candidate_id previous_id candidate previous fresh live current observed_previous txn =
     (let matches = (live = Some candidate); current_matches = (current = Some candidate_id);
          unknown = (\<lambda>reason c. unknown_verdict candidate_id reason c (Some matches) current observed_previous) in
      if (case txn of None \<Rightarrow> False
          | Some t \<Rightarrow> to_release_id t \<noteq> candidate_id \<or> from_release_id t \<noteq> previous_id)
        then unknown ''transaction_targets_another_release'' ChangeUnknown
      else if txn \<noteq> None \<and> (\<not> matches \<or> \<not> current_matches \<or> observed_previous \<noteq> previous_id)
        then unknown ''transaction_incomplete_or_not_yet_visible'' ChangeUnknown
      else if matches \<and> current_matches then
        (if previous = Some candidate
           then committed_verdict candidate_id ''candidate_already_live'' NotChanged observed_previous
         else if previous = None then
           (if observed_previous = None
              then committed_verdict candidate_id ''first_release_fully_visible'' Changed None
            else unknown ''candidate_live_with_unexpected_previous_pointer'' Changed)
         else if observed_previous = previous_id
           then committed_verdict candidate_id ''release_transaction_fully_visible'' Changed observed_previous
         else unknown ''candidate_live_with_incomplete_pointer_transaction'' Changed)
      else if live = previous \<and> \<not> current_matches then
        \<lparr>rec_status = (if fresh then NOT_COMMITTED else INDETERMINATE),
         rec_production_changed = (if fresh then NotChanged else ChangeUnknown),
         rec_release_id = candidate_id, rec_reason = ''pre_attempt_production_still_live'',
         rec_production_matches = Some False, rec_current = current, rec_previous = observed_previous,
         rec_freshness = Some (if fresh then ''fresh'' else ''unsupported'')\<rparr>
      else unknown ''observable_state_is_contradictory_or_unrelated'' ChangeUnknown)"

text \<open>\<^verbatim>\<open>try: m except PublicationError: return x\<close>, which catches the commit-unknown subclass too.\<close>

definition or_else :: "('w, kv_error, 'a) action \<Rightarrow> 'a \<Rightarrow> ('w, kv_error, 'a) action" where
  "or_else m x = try_catch m (\<lambda>e. case e of EscapedError _ \<Rightarrow> raise e | _ \<Rightarrow> return x)"

definition parse_observation ::
  "bytes option \<Rightarrow> bytes option \<Rightarrow> bytes option \<Rightarrow> kv_error + string option \<times> string option \<times> release_transaction option" where
  "parse_observation current_raw previous_raw transaction_raw =
     bindE (parse_release_pointer current_raw) (\<lambda>c. bindE (parse_release_pointer previous_raw) (\<lambda>p.
     bindE (parse_release_transaction transaction_raw) (\<lambda>t. Inr (c, p, t))))"

definition reconcile_release_bundle ::
  "(bytes \<Rightarrow> string) \<Rightarrow> 'w kv \<Rightarrow> string \<Rightarrow> bytes \<Rightarrow> bytes option \<Rightarrow> bool \<Rightarrow> ('w, kv_error, reconciliation) action" where
  "reconcile_release_bundle sha kv production_key candidate previous fresh =
     bindA (lift_sum (release_id_for sha candidate)) (\<lambda>candidate_id.
     bindA (lift_sum (case previous of None \<Rightarrow> Inr None
       | Some p \<Rightarrow> bindE (release_id_for sha p) (\<lambda>i. Inr (Some i)))) (\<lambda>previous_id.
     bindA (lift_sum (release_keys production_key)) (\<lambda>keys.
     bindA (or_else
       (bindA (safe_read kv (production keys)) (\<lambda>live.
        bindA (safe_read kv (current_pointer keys)) (\<lambda>current_raw.
        bindA (safe_read kv (previous_pointer keys)) (\<lambda>previous_raw.
        bindA (safe_read kv (transaction keys)) (\<lambda>transaction_raw.
        return (Some (live, current_raw, previous_raw, transaction_raw)))))))
       None) (\<lambda>observation.
     return (case observation of
         None \<Rightarrow> unknown_verdict candidate_id ''read_failed'' ChangeUnknown None None None
       | Some (live, current_raw, previous_raw, transaction_raw) \<Rightarrow>
           (case parse_observation current_raw previous_raw transaction_raw of
              Inl _ \<Rightarrow> unknown_verdict candidate_id ''invalid_pointer'' ChangeUnknown
                 (Some (live = Some candidate)) None None
            | Inr (current, observed_previous, txn) \<Rightarrow>
                classify_observation candidate_id previous_id candidate previous fresh
                  live current observed_previous txn))))))"

section \<open>Facts\<close>

text \<open>
  Since parse errors are publication errors, catching \<^verbatim>\<open>PublicationError\<close> around the parsers
  catches every error they raise.
\<close>

lemma parse_observation_Inl: "parse_observation a b c = Inl e \<Longrightarrow> \<exists>m. e = PublicationError m"
  by (auto simp: parse_observation_def bindE_Inl_iff
      dest: parse_release_pointer_Inl parse_release_transaction_Inl)

text \<open>Read-only: whatever the publisher, no \<open>Publish\<close> event.\<close>

definition no_writes :: "kv_event list \<Rightarrow> bool" where
  "no_writes tr \<longleftrightarrow> list_all (\<lambda>ev. case ev of Publish _ _ _ \<Rightarrow> False | Read _ _ \<Rightarrow> True) tr"

definition quiet :: "('w \<times> kv_event list, 'e, 'a) action \<Rightarrow> bool" where
  "quiet m \<longleftrightarrow> triple (\<lambda>w. no_writes (snd w)) m (\<lambda>_ w. no_writes (snd w)) (\<lambda>_ w. no_writes (snd w))"

lemma quiet_intros:
  "quiet (return a)" "quiet (raise e)" "quiet (lift_sum r)"
  "quiet m \<Longrightarrow> (\<And>a. quiet (k a)) \<Longrightarrow> quiet (bindA m k)"
  "quiet m \<Longrightarrow> (\<And>e. quiet (h e)) \<Longrightarrow> quiet (try_catch m h)"
  unfolding quiet_def by (auto intro: triple_return triple_raise triple_lift_sum triple_bind triple_try)

lemma quiet_reads: "quiet (safe_read (traced kv) k)"
proof -
  have "quiet (kv_open (traced kv) k)"
    by (auto simp: quiet_def triple_def wp_def traced_def split: prod.splits sum.splits)
  moreover have "quiet (kv_read (traced kv) k)"
    by (auto simp: quiet_def triple_def wp_def traced_def no_writes_def split: prod.splits sum.splits)
  ultimately show ?thesis unfolding safe_read_def by (intro quiet_intros)
qed

lemma quiet_reconcile: "quiet (reconcile_release_bundle sha (traced kv) K c p f)"
proof -
  have h: "quiet (case e of EscapedError _ \<Rightarrow> raise e | _ \<Rightarrow> return x)" for e :: kv_error and x
    by (cases e) (simp_all add: quiet_intros)
  show ?thesis
    unfolding reconcile_release_bundle_def or_else_def
    by (intro quiet_intros quiet_reads h)
qed

text \<open>
  Reconciliation is read-only for every publisher: no run of it publishes anything.
\<close>

theorem reconcile_never_writes:
  "case reconcile_release_bundle sha (traced kv) K candidate previous fresh (w, []) of
     (r, (w', trace)) \<Rightarrow> no_writes trace"
proof -
  have "wp (reconcile_release_bundle sha (traced kv) K candidate previous fresh)
      (\<lambda>_ w. no_writes (snd w)) (\<lambda>_ w. no_writes (snd w)) (w, [])"
    using quiet_reconcile unfolding quiet_def by (rule tripleD) (simp add: no_writes_def)
  then show ?thesis
    unfolding wp_def by (cases "reconcile_release_bundle sha (traced kv) K candidate previous fresh (w, [])")
      (auto split: sum.splits)
qed

text \<open>What a conclusive verdict claims of the store it was read from.\<close>

definition verdict_holds ::
  "(bytes \<Rightarrow> string) \<Rightarrow> string \<Rightarrow> bytes \<Rightarrow> bytes option \<Rightarrow> reconciliation \<Rightarrow> store \<Rightarrow> bool" where
  "verdict_holds sha K candidate previous r v \<longleftrightarrow> (case rec_status r of
     COMMITTED \<Rightarrow> v K = Some candidate
       \<and> parse_release_pointer (v (auxiliary_state_key K CURRENT_POINTER_SUFFIX)) = Inr (Some (sha candidate))
       \<and> (if previous = Some candidate then rec_production_changed r = NotChanged
          else rec_production_changed r = Changed
            \<and> parse_release_pointer (v (auxiliary_state_key K PREVIOUS_POINTER_SUFFIX)) = Inr (map_option sha previous))
       \<and> (case parse_release_transaction (v (auxiliary_state_key K TRANSACTION_SUFFIX)) of
            Inr None \<Rightarrow> True
          | Inr (Some t) \<Rightarrow> to_release_id t = sha candidate \<and> from_release_id t = map_option sha previous
          | Inl _ \<Rightarrow> False)
   | NOT_COMMITTED \<Rightarrow> v K = previous \<and> rec_production_changed r = NotChanged
       \<and> parse_release_transaction (v (auxiliary_state_key K TRANSACTION_SUFFIX)) = Inr None
       \<and> parse_release_pointer (v (auxiliary_state_key K CURRENT_POINTER_SUFFIX)) \<noteq> Inr (Some (sha candidate))
   | INDETERMINATE \<Rightarrow> rec_production_changed r = ChangeUnknown
   | UNKNOWN \<Rightarrow> rec_production_changed r \<noteq> NotChanged)"

lemma classify_observation_holds:
  assumes "parse_observation (v (auxiliary_state_key K CURRENT_POINTER_SUFFIX))
      (v (auxiliary_state_key K PREVIOUS_POINTER_SUFFIX)) (v (auxiliary_state_key K TRANSACTION_SUFFIX))
      = Inr (c, p, t)"
  shows "verdict_holds sha K candidate previous
    (classify_observation (sha candidate) (map_option sha previous) candidate previous fresh (v K) c p t) v"
  using assms
  by (auto simp: parse_observation_def bindE_Inr_iff classify_observation_def verdict_holds_def Let_def
      unknown_verdict_def committed_verdict_def split: option.splits)

context consistent_kv begin

lemma vwp_or_else:
  "vwp J m Q (\<lambda>e v'. (\<forall>s. e = EscapedError s \<longrightarrow> E e v') \<and> ((\<forall>s. e \<noteq> EscapedError s) \<longrightarrow> Q x v')) v \<Longrightarrow>
   vwp J (or_else m x) Q E v"
  unfolding or_else_def
  by (rule vwp_try, erule vwp_mono) (auto split: kv_error.splits intro: vwp_return vwp_raise)

lemma vwp_reconcile:
  "vwp J (reconcile_release_bundle sha kv K candidate previous fresh)
     (\<lambda>r v'. v' = v \<and> verdict_holds sha K candidate previous r v) (\<lambda>_ v'. v' = v) v"
proof -
  let ?post = "\<lambda>r v'. v' = v \<and> verdict_holds sha K candidate previous r v"
  have unknown: "verdict_holds sha K candidate previous (unknown_verdict i m ChangeUnknown a b c) v" for i m a b c
    by (simp add: verdict_holds_def unknown_verdict_def)
  have tail: "vwp J (return (case obs of
         None \<Rightarrow> unknown_verdict (sha candidate) ''read_failed'' ChangeUnknown None None None
       | Some (live, c, p, t) \<Rightarrow>
           (case parse_observation c p t of
              Inl _ \<Rightarrow> unknown_verdict (sha candidate) ''invalid_pointer'' ChangeUnknown
                 (Some (live = Some candidate)) None None
            | Inr (current, observed_previous, txn) \<Rightarrow>
                classify_observation (sha candidate) (map_option sha previous) candidate previous fresh
                  live current observed_previous txn))) ?post (\<lambda>_ v'. v' = v) v"
    if "obs = None \<or> obs = Some (v K, v (auxiliary_state_key K CURRENT_POINTER_SUFFIX),
        v (auxiliary_state_key K PREVIOUS_POINTER_SUFFIX), v (auxiliary_state_key K TRANSACTION_SUFFIX))" for obs
    using that
    by (intro vwp_return) (auto simp: unknown classify_observation_holds split: sum.splits)
  have read: "vwp J (or_else
       (bindA (safe_read kv (production (release_keys_for K))) (\<lambda>live.
        bindA (safe_read kv (current_pointer (release_keys_for K))) (\<lambda>current_raw.
        bindA (safe_read kv (previous_pointer (release_keys_for K))) (\<lambda>previous_raw.
        bindA (safe_read kv (transaction (release_keys_for K))) (\<lambda>transaction_raw.
        return (Some (live, current_raw, previous_raw, transaction_raw))))))) None)
     (\<lambda>obs v'. v' = v \<and> (obs = None \<or> obs = Some (v K, v (auxiliary_state_key K CURRENT_POINTER_SUFFIX),
        v (auxiliary_state_key K PREVIOUS_POINTER_SUFFIX), v (auxiliary_state_key K TRANSACTION_SUFFIX))))
     (\<lambda>_ v'. v' = v) v"
    by (intro vwp_or_else vwp_bind vwp_safe_read vwp_return) auto
  have prev: "(case previous of None \<Rightarrow> Inr None | Some p \<Rightarrow> bindE (release_id_for sha p) (\<lambda>i. Inr (Some i)))
      = Inr pid \<Longrightarrow> pid = map_option sha previous" for pid :: "string option"
    by (auto simp: bindE_Inr_iff release_id_for_def split: option.splits if_splits)
  show ?thesis
    unfolding reconcile_release_bundle_def
  proof (rule vwp_bind, rule vwp_lift, rule vwp_bind, rule vwp_lift, rule vwp_bind, rule vwp_lift, rule vwp_bind,
      goal_cases)
    case (1 i pid keys)
    then have x: "i = sha candidate" "pid = map_option sha previous" "keys = release_keys_for K"
      using prev by (auto simp: release_keys_Inr)
    show ?case unfolding x by (rule vwp_mono [OF read]) (auto intro: tail)
  qed auto
qed

lemma reconcile_run:
  "seen w = {} \<Longrightarrow> wp (reconcile_release_bundle sha kv K candidate previous fresh)
     (\<lambda>r w'. view w' = view w \<and> verdict_holds sha K candidate previous r (view w)) (\<lambda>_ w'. view w' = view w) w"
  using vwp_reconcile [of "\<lambda>_. True" sha K candidate previous fresh "view w"]
  by (auto simp: vwp_def elim: wp_mono)

end



end
