(* ===== verification/ReleaseOperations.thy ===== *)
theory ReleaseOperations
  imports ReleaseJournal Reconciliation
begin

text \<open>
  The release operations of \<^verbatim>\<open>src/clash_relay/production_application.py\<close> around the publisher: the
  journal kept beside a publication, the audit of the release state, the retention plan and its
  application, and reconciliation from stored identities.  Credentials and the resolution of the
  namespace happen before: an operation starts from the publisher for the resolved namespace.
\<close>

text \<open>The publisher with deletion, key listing and the clock of \<^verbatim>\<open>time.time()\<close> in whole seconds.\<close>

record 'w admin_kv = "'w kv" +
  kv_delete :: "string \<Rightarrow> ('w, kv_error, json) action"
  kv_list :: "string \<Rightarrow> ('w, kv_error, string list) action"
  kv_clock :: "'w \<Rightarrow> int \<times> 'w"

abbreviation base :: "'w admin_kv \<Rightarrow> 'w kv" where
  "base akv \<equiv> kv.truncate akv"

text \<open>The factory of the application with the deletion and listing of the same publisher class.\<close>

definition admin_publisher ::
  "(bytes \<Rightarrow> string) \<Rightarrow> 'w remote \<Rightarrow> cf_config \<Rightarrow> string \<Rightarrow> ('w \<Rightarrow> int \<times> 'w) \<Rightarrow> 'w admin_kv" where
  "admin_publisher sha remote cfg namespace time = kv.extend (keyed_publisher sha remote cfg namespace)
     (admin_kv.fields (cf_delete remote cfg namespace) (list_keys remote cfg namespace) time)"

lemma admin_publisher_sel [simp]:
  "base (admin_publisher sha remote cfg namespace time) = keyed_publisher sha remote cfg namespace"
  "kv_delete (admin_publisher sha remote cfg namespace time) = cf_delete remote cfg namespace"
  "kv_list (admin_publisher sha remote cfg namespace time) = list_keys remote cfg namespace"
  "kv_clock (admin_publisher sha remote cfg namespace time) = time"
  by (simp_all add: admin_publisher_def kv.defs admin_kv.defs keyed_publisher_def)

definition clock :: "'w admin_kv \<Rightarrow> ('w, kv_error, int) action" where
  "clock akv = (\<lambda>w. case kv_clock akv w of (t, w') \<Rightarrow> (Inr t, w'))"

definition safe_delete :: "'w admin_kv \<Rightarrow> string \<Rightarrow> ('w, kv_error, unit) action" where
  "safe_delete akv key = bindA (kv_open (base akv) key) (\<lambda>_. bindA (kv_delete akv key) (\<lambda>_. return ()))"

section \<open>Publication with its journal entry\<close>

definition journal_entry ::
  "'w admin_kv \<Rightarrow> release_keys \<Rightarrow> string \<Rightarrow> ('w, kv_error, json dict) action" where
  "journal_entry akv keys release_id =
     bindA (safe_read (base akv) (journal keys)) (\<lambda>raw.
     (case parse_release_journal raw of (releases, status) \<Rightarrow>
       if status = Invalid then raise (PublicationError ''release journal is invalid'')
       else bindA (clock akv) (\<lambda>now.
            bindA (lift_sum (record_release_observation (journal_dict releases) release_id now)) (\<lambda>updated.
            bindA (kv_open (base akv) (journal keys)) (\<lambda>_.
            bindA (lift_sum (serialize_release_journal updated)) (\<lambda>content.
            bindA (kv_publish (base akv) (journal keys) content) (\<lambda>_.
            lift_sum (release_journal_summary updated))))))))"

text \<open>The result of the release, and the journal summary when the entry was written.\<close>

definition publish_and_journal ::
  "(bytes \<Rightarrow> string) \<Rightarrow> 'w admin_kv \<Rightarrow> string \<Rightarrow> bytes \<Rightarrow> (bytes option \<Rightarrow> ('w, kv_error, unit) action) option \<Rightarrow>
   ('w, kv_error, release_result \<times> json dict option) action" where
  "publish_and_journal sha akv production_key content observer =
     bindA (publish_release_bundle sha (base akv) production_key content observer) (\<lambda>result.
     bindA (lift_sum (release_keys production_key)) (\<lambda>keys.
     bindA (or_else (bindA (journal_entry akv keys (res_release_id result)) (\<lambda>s. return (Some s))) None) (\<lambda>entry.
     return (result, entry))))"

section \<open>The audit of the release state\<close>

record release_audit =
  aud_status :: string
  aud_matches_current :: bool
  aud_current_available :: bool
  aud_previous_available :: bool
  aud_pending :: bool
  aud_referenced :: "string set"

definition release_available ::
  "(bytes \<Rightarrow> string) \<Rightarrow> 'w kv \<Rightarrow> release_keys \<Rightarrow> string option \<Rightarrow> ('w, kv_error, bool) action" where
  "release_available sha kv keys pointer = (case pointer of
     None \<Rightarrow> return False
   | Some i \<Rightarrow>
       bindA (lift_sum (keys_config keys i)) (\<lambda>config_key.
       bindA (safe_read kv config_key) (\<lambda>found. case found of
         None \<Rightarrow> return False
       | Some content \<Rightarrow>
           bindA (lift_sum (release_id_for sha content)) (\<lambda>content_id.
           if content_id \<noteq> i then return False
           else bindA (lift_sum (keys_manifest keys i)) (\<lambda>manifest_key.
                bindA (safe_read kv manifest_key) (\<lambda>manifest.
                bindA (lift_sum (manifest_bytes sha content)) (\<lambda>expected.
                return (manifest = Some expected))))))))"

definition nonempty :: "bytes option \<Rightarrow> bytes option" where
  "nonempty x = (case x of Some c \<Rightarrow> if c = [] then None else Some c | None \<Rightarrow> None)"

definition production_id_of :: "(bytes \<Rightarrow> string) \<Rightarrow> bytes option \<Rightarrow> kv_error + string option" where
  "production_id_of sha content = (case nonempty content of
     None \<Rightarrow> Inr None | Some c \<Rightarrow> bindE (release_id_for sha c) (\<lambda>i. Inr (Some i)))"

definition audit_release_state ::
  "(bytes \<Rightarrow> string) \<Rightarrow> 'w kv \<Rightarrow> string \<Rightarrow> ('w, kv_error, release_audit) action" where
  "audit_release_state sha kv production_key =
     bindA (lift_sum (release_keys production_key)) (\<lambda>keys.
     bindA (safe_read kv (production keys)) (\<lambda>live.
     bindA (read_pointer kv (current_pointer keys)) (\<lambda>current.
     bindA (read_pointer kv (previous_pointer keys)) (\<lambda>prev.
     bindA (bindA (safe_read kv (transaction keys)) (\<lambda>raw. lift_sum (parse_release_transaction raw))) (\<lambda>txn.
     bindA (lift_sum (production_id_of sha live)) (\<lambda>live_id.
     bindA (release_available sha kv keys current) (\<lambda>current_available.
     bindA (release_available sha kv keys prev) (\<lambda>previous_available.
     (let status = inspect_release_state live_id current prev txn in
      return \<lparr>aud_status = (if status = ''healthy'' \<and> (\<not> current_available \<or> (prev \<noteq> None \<and> \<not> previous_available))
                then ''inconsistent'' else status),
        aud_matches_current = (live_id \<noteq> None \<and> live_id = current),
        aud_current_available = current_available, aud_previous_available = previous_available,
        aud_pending = (txn \<noteq> None),
        aud_referenced = (case txn of None \<Rightarrow> {} | Some t \<Rightarrow> referenced_release_ids t)\<rparr>)))))))))"

section \<open>Retention\<close>

definition transaction_ids :: "release_transaction option \<Rightarrow> string list" where
  "transaction_ids txn = (case txn of None \<Rightarrow> []
     | Some t \<Rightarrow> option_list (from_release_id t) @ [to_release_id t] @ option_list (previous_release_id t))"

text \<open>The plan from one observation of the store, with the status of the journal it was drawn from.\<close>

definition collect_retention_plan ::
  "(bytes \<Rightarrow> string) \<Rightarrow> 'w admin_kv \<Rightarrow> string \<Rightarrow> int \<Rightarrow> ('w, kv_error, retention_plan \<times> journal_status) action" where
  "collect_retention_plan sha akv production_key retention_days =
     (if retention_days < 0 then raise (PublicationError ''release retention days must not be negative'')
      else bindA (lift_sum (release_keys production_key)) (\<lambda>keys.
        bindA (safe_read (base akv) (journal keys)) (\<lambda>raw.
        (case parse_release_journal raw of (releases, status) \<Rightarrow>
          if status = Invalid then raise (PublicationError ''release journal is invalid'')
          else bindA (read_pointer (base akv) (current_pointer keys)) (\<lambda>current.
            bindA (read_pointer (base akv) (previous_pointer keys)) (\<lambda>prev.
            bindA (safe_read (base akv) (production keys)) (\<lambda>live.
            bindA (bindA (safe_read (base akv) (transaction keys)) (\<lambda>raw. lift_sum (parse_release_transaction raw)))
              (\<lambda>txn.
            bindA (lift_sum (production_id_of sha live)) (\<lambda>live_id.
            bindA (clock akv) (\<lambda>now.
            bindA (lift_sum (plan_release_retention (journal_dict releases) current prev live_id (transaction_ids txn)
                (retention_days * 24 * 60 * 60) now)) (\<lambda>plan.
            return (plan, status))))))))))))"

definition journal_status_text :: "journal_status \<Rightarrow> string" where
  "journal_status_text s = (case s of Missing \<Rightarrow> ''missing'' | Invalid \<Rightarrow> ''invalid'' | Loaded \<Rightarrow> ''loaded'')"

definition plan_production_release_retention ::
  "(bytes \<Rightarrow> string) \<Rightarrow> 'w admin_kv \<Rightarrow> string \<Rightarrow> int \<Rightarrow> ('w, kv_error, json dict) action" where
  "plan_production_release_retention sha akv production_key retention_days =
     bindA (collect_retention_plan sha akv production_key retention_days) (\<lambda>(plan, status).
     return (retention_plan_to_dict sha plan
       @ [(''journal_status'', JStr (journal_status_text status)), (''retention_days'', JInt retention_days),
          (''production_key'', JStr production_key)]))"

text \<open>The days and the identifier of a submitted plan document, when it is one for this key.\<close>

definition accepted_plan :: "string \<Rightarrow> json dict \<Rightarrow> (int \<times> string) option" where
  "accepted_plan production_key plan = (case (json_get plan ''retention_days'', json_get plan ''plan_id'') of
     (JInt days, JStr pid) \<Rightarrow>
       if 0 \<le> days \<and> json_get plan ''production_key'' = JStr production_key
          \<and> json_get plan ''mutation'' = JStr ''none''
       then Some (days, pid) else None
   | _ \<Rightarrow> None)"

fun delete_candidates :: "'w admin_kv \<Rightarrow> release_keys \<Rightarrow> string list \<Rightarrow> ('w, kv_error, unit) action" where
  "delete_candidates akv keys [] = return ()"
| "delete_candidates akv keys (i # is) =
     bindA (bindA (safe_read (base akv) (transaction keys)) (\<lambda>raw. lift_sum (parse_release_transaction raw))) (\<lambda>txn.
     if i \<in> set (transaction_ids txn)
       then raise (PublicationError ''release retention references an active transaction'')
     else bindA (lift_sum (keys_config keys i)) (\<lambda>config_key.
          bindA (safe_delete akv config_key) (\<lambda>_.
          bindA (lift_sum (keys_manifest keys i)) (\<lambda>manifest_key.
          bindA (safe_delete akv manifest_key) (\<lambda>_.
          delete_candidates akv keys is)))))"

definition apply_production_release_retention ::
  "(bytes \<Rightarrow> string) \<Rightarrow> 'w admin_kv \<Rightarrow> string \<Rightarrow> json dict \<Rightarrow> ('w, kv_error, string list) action" where
  "apply_production_release_retention sha akv production_key plan = (case accepted_plan production_key plan of
     None \<Rightarrow> raise (PublicationError ''release retention plan is invalid'')
   | Some (days, pid) \<Rightarrow>
       bindA (collect_retention_plan sha akv production_key days) (\<lambda>(fresh, _).
       if plan_id sha fresh \<noteq> pid
         then raise (PublicationError ''release retention plan is stale; generate and review a new plan'')
       else bindA (lift_sum (release_keys production_key)) (\<lambda>keys.
         bindA (delete_candidates akv keys (deletion_candidate_ids fresh)) (\<lambda>_.
         bindA (safe_read (base akv) (journal keys)) (\<lambda>raw.
         (case parse_release_journal raw of (releases, status) \<Rightarrow>
           if status = Invalid then raise (PublicationError ''release journal is invalid after retention deletion'')
           else bindA (kv_open (base akv) (journal keys)) (\<lambda>_.
             bindA (lift_sum (bindE (remove_release_observations (journal_dict releases)
                 (set (deletion_candidate_ids fresh))) serialize_release_journal)) (\<lambda>content.
             bindA (kv_publish (base akv) (journal keys) content) (\<lambda>_.
             return (deletion_candidate_ids fresh))))))))))"

section \<open>Inventory and reconciliation by identity\<close>

definition audit_production_release_inventory ::
  "(bytes \<Rightarrow> string) \<Rightarrow> 'w admin_kv \<Rightarrow> string \<Rightarrow> ('w, kv_error, inventory \<times> journal_status) action" where
  "audit_production_release_inventory sha akv production_key =
     bindA (lift_sum (release_keys production_key)) (\<lambda>keys.
     bindA (safe_read (base akv) (journal keys)) (\<lambda>raw.
     (case parse_release_journal raw of (releases, status) \<Rightarrow>
       if status = Invalid then raise (PublicationError ''release journal is invalid'')
       else bindA (read_pointer (base akv) (current_pointer keys)) (\<lambda>current.
         bindA (read_pointer (base akv) (previous_pointer keys)) (\<lambda>prev.
         bindA (safe_read (base akv) (production keys)) (\<lambda>live.
         bindA (bindA (safe_read (base akv) (transaction keys)) (\<lambda>raw. lift_sum (parse_release_transaction raw))) (\<lambda>txn.
         bindA (kv_list akv (production_key @ ''.release-v1.'')) (\<lambda>names.
         bindA (lift_sum (production_id_of sha live)) (\<lambda>live_id.
         bindA (lift_sum (plan_release_inventory production_key names (map fst releases) current prev live_id
             (transaction_ids txn))) (\<lambda>plan.
         return (plan, status)))))))))))"

definition verified_bytes ::
  "(bytes \<Rightarrow> string) \<Rightarrow> 'w kv \<Rightarrow> release_keys \<Rightarrow> string \<Rightarrow> ('w, kv_error, bytes) action" where
  "verified_bytes sha kv keys release_id =
     (let missing = raise (PublicationError ''immutable release bytes are missing or mismatched'') in
      bindA (lift_sum (keys_config keys release_id)) (\<lambda>config_key.
      bindA (safe_read kv config_key) (\<lambda>found. case found of
        None \<Rightarrow> missing
      | Some content \<Rightarrow>
          bindA (lift_sum (release_id_for sha content)) (\<lambda>content_id.
          if content_id \<noteq> release_id then missing
          else bindA (lift_sum (keys_manifest keys release_id)) (\<lambda>manifest_key.
               bindA (safe_read kv manifest_key) (\<lambda>manifest.
               bindA (lift_sum (manifest_bytes sha content)) (\<lambda>expected.
               if manifest \<noteq> Some expected
                 then raise (PublicationError ''immutable release manifest is missing or mismatched'')
               else return content)))))))"

definition reconcile_production_release_ids ::
  "(bytes \<Rightarrow> string) \<Rightarrow> 'w kv \<Rightarrow> string \<Rightarrow> string \<Rightarrow> string option \<Rightarrow> bool \<Rightarrow> ('w, kv_error, reconciliation) action" where
  "reconcile_production_release_ids sha kv production_key candidate_id previous_id fresh =
     bindA (lift_sum (release_keys production_key)) (\<lambda>keys.
     bindA (verified_bytes sha kv keys candidate_id) (\<lambda>candidate.
     bindA (case previous_id of None \<Rightarrow> return None
            | Some i \<Rightarrow> bindA (verified_bytes sha kv keys i) (\<lambda>c. return (Some c))) (\<lambda>prev.
     reconcile_release_bundle sha kv production_key candidate prev fresh)))"

end
