(* ===== verification/ReleaseWitnesses.thy ===== *)
theory ReleaseWitnesses
  imports SimulatedKv
begin

text \<open>
  Concrete instances of the properties of \<open>BundleProperties\<close>: the Cloudflare publisher over the
  simulated Workers KV, a live release, and a remote that refuses a write in the middle of the run.
\<close>

definition demo_live :: sim where
  "demo_live = \<lparr>sim_store = (\<lambda>_. None)(''p'' \<mapsto> ''old'',
       auxiliary_state_key ''p'' CURRENT_POINTER_SUFFIX \<mapsto> demo_sha ''old'' @ [CHR 0x0A]),
     sim_script = replicate 15 Serve @ [Refuse]\<rparr>"

lemma demo_sha_values: "demo_sha ''old'' \<noteq> demo_sha ''new''"
  by (simp add: demo_sha_def Let_def nat_digits.simps)

lemma demo_facts:
  "consistent_kv demo_kv sim_store (\<lambda>_. {})" "digest demo_sha"
  "collision_free demo_sha (sim_store demo_live ''p'') ''new''" "passive_observer sim_store None"
  "inspect_view demo_sha ''p'' (sim_store demo_live) \<noteq> ''inconsistent''"
proof -
  show "consistent_kv demo_kv sim_store (\<lambda>_. {})" by (rule demo_consistent)
  show "digest demo_sha" by (rule demo.digest_axioms)
  show "collision_free demo_sha (sim_store demo_live ''p'') ''new''"
    using demo_sha_values by (simp add: collision_free_def demo_live_def)
  show "passive_observer sim_store None" by (simp add: passive_observer_def)
  show "inspect_view demo_sha ''p'' (sim_store demo_live) \<noteq> ''inconsistent''"
    using parse_pointer_bytes [OF demo.sha_id, of "''old''"]
    by (simp add: inspect_view_def demo_live_def inspect_release_state_def)
qed

lemma demo_live_value: "sim_store demo_live ''p'' = Some ''old''"
  by (simp add: demo_live_def)






end
