(* ===== verification/ReleaseSafety.thy ===== *)
theory ReleaseSafety
  imports ReleaseOperations ReleaseWitnesses CalmKv
begin

text \<open>
  What the release operations around the publisher guarantee: retention deletes only the objects of
  unreferenced releases and touches nothing else, a healthy audit means a complete release, and the
  journal entry made after a publication cannot change its outcome.
\<close>

section \<open>The contract of deletion\<close>

locale admin_store = consistent_kv "base akv" view seen
  for akv :: "'w admin_kv" and view :: "'w \<Rightarrow> store" and seen :: "'w \<Rightarrow> store set" +
  assumes delete_done: "kv_delete akv k w = (Inr j, w') \<Longrightarrow> view w' = (view w)(k := None)"
    and delete_other: "kv_delete akv k w = (r, w') \<Longrightarrow> view w' = view w \<or> view w' = (view w)(k := None)"
    and delete_seen: "kv_delete akv k w = (r, w') \<Longrightarrow> seen w' \<subseteq> insert (view w') (seen w)"
    and clock_view: "kv_clock akv w = (t, w') \<Longrightarrow> view w' = view w"
    and clock_seen: "kv_clock akv w = (t, w') \<Longrightarrow> seen w' \<subseteq> insert (view w') (seen w)"
begin

lemma vwp_clock:
  assumes "\<And>t. Q t v"
  shows "vwp J (clock akv) Q E v"
proof (intro vwpI wpI)
  fix w t w'
  assume w: "J v" "view w = v" "seen w \<subseteq> Collect J" and "clock akv w = (Inr t, w')"
  then have r: "kv_clock akv w = (t, w')" by (simp add: clock_def split: prod.splits)
  show "seen w' \<subseteq> Collect J \<and> J (view w') \<and> Q t (view w')"
    using seen_grows [OF clock_seen [OF r] w(3)] clock_view [OF r] w assms by simp
qed (simp add: clock_def split: prod.splits)

lemma vwp_delete:
  assumes j: "J (v(k := None))" and q: "\<And>a. Q a (v(k := None))"
    and e: "\<And>e v'. v' = v \<or> v' = v(k := None) \<Longrightarrow> E e v'"
  shows "vwp J (kv_delete akv k) Q E v"
proof (intro vwpI wpI)
  fix w a w'
  assume w: "J v" "view w = v" "seen w \<subseteq> Collect J" and r: "kv_delete akv k w = (Inr a, w')"
  show "seen w' \<subseteq> Collect J \<and> J (view w') \<and> Q a (view w')"
    using seen_grows [OF delete_seen [OF r] w(3)] delete_done [OF r] w j q by simp
next
  fix w err w'
  assume w: "J v" "view w = v" "seen w \<subseteq> Collect J" and r: "kv_delete akv k w = (Inl err, w')"
  have v': "view w' = v \<or> view w' = v(k := None)" using delete_other [OF r] w by simp
  then have "J (view w')" using w j by auto
  then show "seen w' \<subseteq> Collect J \<and> J (view w') \<and> E err (view w')"
    using seen_grows [OF delete_seen [OF r] w(3)] e [OF v'] by simp
qed

lemma vwp_safe_delete:
  "J (v(k := None)) \<Longrightarrow> Q () (v(k := None)) \<Longrightarrow> (\<And>e v'. v' = v \<or> v' = v(k := None) \<Longrightarrow> E e v') \<Longrightarrow>
   vwp J (safe_delete akv k) Q E v"
  unfolding safe_delete_def by (intro vwp_bind vwp_open vwp_delete vwp_return) auto

end

section \<open>Retention\<close>

text \<open>The release identifiers a store refers to: its live bytes, its pointers, its pending intent.\<close>

definition referenced :: "(bytes \<Rightarrow> string) \<Rightarrow> string \<Rightarrow> store \<Rightarrow> string set" where
  "referenced sha K v =
     {i. \<exists>c. v K = Some c \<and> c \<noteq> [] \<and> i = sha c}
     \<union> {i. parse_release_pointer (v (auxiliary_state_key K CURRENT_POINTER_SUFFIX)) = Inr (Some i)}
     \<union> {i. parse_release_pointer (v (auxiliary_state_key K PREVIOUS_POINTER_SUFFIX)) = Inr (Some i)}
     \<union> {i. \<exists>t. parse_release_transaction (v (auxiliary_state_key K TRANSACTION_SUFFIX)) = Inr (Some t)
          \<and> i \<in> referenced_release_ids t}"

text \<open>A store that differs from \<open>v0\<close> only in the journal and the objects of the releases in \<open>D\<close>.\<close>

definition differs_in_objects :: "string \<Rightarrow> string set \<Rightarrow> store \<Rightarrow> store \<Rightarrow> bool" where
  "differs_in_objects K D v0 v \<longleftrightarrow> (\<forall>k. v k \<noteq> v0 k \<longrightarrow>
     k = auxiliary_state_key K JOURNAL_SUFFIX
     \<or> (\<exists>i \<in> D. is_release_id i \<and> (k = release_config_key K i \<or> k = release_manifest_key K i)))"

lemma differs_refl [simp]: "differs_in_objects K D v v"
  by (simp add: differs_in_objects_def)

lemma differs_upd:
  "differs_in_objects K D v0 v \<Longrightarrow> differs_in_objects K D v0 (v(auxiliary_state_key K JOURNAL_SUFFIX := x))"
  "differs_in_objects K D v0 v \<Longrightarrow> i \<in> D \<Longrightarrow> is_release_id i \<Longrightarrow>
     differs_in_objects K D v0 (v(release_config_key K i := x))"
  "differs_in_objects K D v0 v \<Longrightarrow> i \<in> D \<Longrightarrow> is_release_id i \<Longrightarrow>
     differs_in_objects K D v0 (v(release_manifest_key K i := x))"
  by (auto simp: differs_in_objects_def)

lemma set_option_list: "set (option_list x) = set_option x"
  by (cases x) (simp_all add: option_list_def)

lemma set_transaction_ids: "set (transaction_ids txn) = {i. \<exists>t. txn = Some t \<and> i \<in> referenced_release_ids t}"
  by (cases txn) (auto simp: transaction_ids_def referenced_release_ids_def set_option_list)

lemma plan_candidates:
  assumes "plan_release_retention doc current previous live_id ids retain now = Inr p"
  shows "set (protected_release_ids p) = set_option current \<union> set_option previous \<union> set_option live_id \<union> set ids"
    and "i \<in> set (deletion_candidate_ids p) \<Longrightarrow> i \<notin> set (protected_release_ids p) \<and> is_release_id i"
proof -
  obtain rs where rs: "checked_releases doc = Inr rs"
    and p: "p = \<lparr>retention_seconds = retain,
      protected_release_ids = sorted_set (option_list current @ option_list previous @ option_list live_id @ ids),
      deletion_candidate_ids = sort (map fst (filter (\<lambda>(i, t). i \<notin> set (sorted_set (option_list current @
        option_list previous @ option_list live_id @ ids)) \<and> the (as_int t) < now - retain) rs)),
      retained_by_window = retained_by_window p, invalid_records = 0\<rparr>"
    using assms by (auto simp: plan_release_retention_def Let_def retention_scan_filter bindE_Inr_iff split: if_splits)
  show "set (protected_release_ids p) = set_option current \<union> set_option previous \<union> set_option live_id \<union> set ids"
    by (subst p) (simp add: set_option_list Un_assoc)
  obtain st where "parse_release_journal (Some (encode_journal doc)) = (rs, st)"
    using rs by (auto simp: checked_releases_def split: prod.splits journal_status.splits)
  from parse_journal_sound(2) [OF this]
  show "i \<in> set (deletion_candidate_ids p) \<Longrightarrow> i \<notin> set (protected_release_ids p) \<and> is_release_id i"
    by (subst (asm) p, subst p) (auto simp: list_all_iff)
qed

lemma production_id_of_Inr:
  "production_id_of sha x = Inr i \<Longrightarrow> set_option i = {i. \<exists>c. x = Some c \<and> c \<noteq> [] \<and> i = sha c}"
  by (auto simp: production_id_of_def nonempty_def bindE_Inr_iff release_id_for_def split: option.splits if_splits)

text \<open>Both objects of every release in \<open>D\<close> are gone, or those of one release are stored.\<close>

definition objects_gone :: "string \<Rightarrow> string set \<Rightarrow> store \<Rightarrow> bool" where
  "objects_gone K D v \<longleftrightarrow> (\<forall>i \<in> D. v (release_config_key K i) = None \<and> v (release_manifest_key K i) = None)"

definition release_stored :: "(bytes \<Rightarrow> string) \<Rightarrow> string \<Rightarrow> string option \<Rightarrow> store \<Rightarrow> bool" where
  "release_stored sha K i v \<longleftrightarrow> (\<exists>c. c \<noteq> [] \<and> i = Some (sha c) \<and> staged sha K c v)"

lemma release_stored_simps:
  "\<not> release_stored sha K None v"
  "release_stored sha K (Some r) v \<longleftrightarrow> (case v (release_config_key K r) of None \<Rightarrow> False
     | Some c \<Rightarrow> c \<noteq> [] \<and> sha c = r \<and> v (release_manifest_key K r) = Some (manifest_text sha c))"
  by (auto simp: release_stored_def staged_def split: option.splits)

text \<open>A release that is complete with its predecessor: what a healthy audit stands for.\<close>

definition healthy_release :: "(bytes \<Rightarrow> string) \<Rightarrow> string \<Rightarrow> store \<Rightarrow> bool" where
  "healthy_release sha K v \<longleftrightarrow> (\<exists>c prev. v K = Some c \<and> c \<noteq> []
     \<and> parse_release_pointer (v (auxiliary_state_key K CURRENT_POINTER_SUFFIX)) = Inr (Some (sha c))
     \<and> parse_release_pointer (v (auxiliary_state_key K PREVIOUS_POINTER_SUFFIX)) = Inr prev
     \<and> parse_release_transaction (v (auxiliary_state_key K TRANSACTION_SUFFIX)) = Inr None
     \<and> release_stored sha K (Some (sha c)) v
     \<and> prev \<noteq> Some (sha c) \<and> (prev = None \<or> release_stored sha K prev v))"

context admin_store begin

lemma vwp_collect_retention_plan:
  "vwp J (collect_retention_plan sha akv K days)
     (\<lambda>(p, st) v'. v' = v \<and> set (protected_release_ids p) = referenced sha K v
        \<and> (\<forall>i \<in> set (deletion_candidate_ids p). i \<notin> referenced sha K v \<and> is_release_id i))
     (\<lambda>_ v'. v' = v) v"
  (is "vwp J ?m ?Q ?E v")
proof -
  have plan: "?Q (p, st) v"
    if "parse_release_pointer (v (auxiliary_state_key K CURRENT_POINTER_SUFFIX)) = Inr current"
      "parse_release_pointer (v (auxiliary_state_key K PREVIOUS_POINTER_SUFFIX)) = Inr prev"
      "parse_release_transaction (v (auxiliary_state_key K TRANSACTION_SUFFIX)) = Inr txn"
      "production_id_of sha (v K) = Inr live_id"
      "plan_release_retention doc current prev live_id (transaction_ids txn) retain now = Inr p"
    for current prev txn live_id doc retain now p st
  proof -
    have "set (protected_release_ids p) = referenced sha K v"
      using plan_candidates(1) [OF that(5)] production_id_of_Inr [OF that(4)] that(1-3)
      by (auto simp: referenced_def set_transaction_ids)
    then show ?thesis using plan_candidates(2) [OF that(5)] by auto
  qed
  show ?thesis
    unfolding collect_retention_plan_def
  proof (rule vwp_if, rule vwp_raise, simp, rule vwp_bind, rule vwp_lift, goal_cases)
    case (1 keys)
    then have k: "keys = release_keys_for K" by (simp add: release_keys_Inr)
    show ?case
      unfolding k release_keys_for_simps
    proof (rule vwp_bind, rule vwp_safe_read, goal_cases)
      case 1
      obtain releases st where j: "parse_release_journal (v (auxiliary_state_key K JOURNAL_SUFFIX)) = (releases, st)"
        by fastforce
      show ?case
        unfolding j prod.case
        by (intro vwp_if vwp_raise vwp_bind vwp_read_pointer vwp_safe_read vwp_lift vwp_clock vwp_return plan) simp_all
    qed simp
  qed simp
qed

lemma vwp_delete_candidates:
  assumes "set is \<subseteq> D" and "list_all is_release_id is"
  shows "objects_gone K done v \<Longrightarrow> vwp (differs_in_objects K D v0) (delete_candidates akv (release_keys_for K) is)
     (\<lambda>_ v'. objects_gone K (done \<union> set is) v') (\<lambda>_ _. True) v"
  using assms
proof (induction "is" arbitrary: "done" v)
  case (Cons i "is")
  let ?J = "differs_in_objects K D v0" and ?ck = "release_config_key K i" and ?mk = "release_manifest_key K i"
  have i: "i \<in> D" "is_release_id i" using Cons.prems by simp_all
  show ?case
  proof (rule vwp_assume)
    assume j: "?J v"
    have gone: "objects_gone K (insert i done) (v(?ck := None, ?mk := None))"
      using Cons.prems(1) by (auto simp: objects_gone_def)
    have rest:
      "vwp ?J (delete_candidates akv (release_keys_for K) is) (\<lambda>_. objects_gone K (insert i done \<union> set is)) (\<lambda>_ _. True)
         (v(?ck := None, ?mk := None))" 
      by (rule Cons.IH [OF gone]) (use Cons.prems(2,3) in simp_all)
    have u: "done \<union> set (i # is) = insert i done \<union> set is" by simp
    show "vwp ?J (delete_candidates akv (release_keys_for K) (i # is)) (\<lambda>_ v'. objects_gone K (done \<union> set (i # is)) v')
        (\<lambda>_ _. True) v"
      unfolding u delete_candidates.simps release_keys_for_simps keys_config_simps(1) [OF i(2)] keys_config_simps(2) [OF i(2)]
    proof (rule vwp_bind, rule vwp_bind, rule vwp_safe_read, rule vwp_lift, rule vwp_if, rule vwp_raise, simp,
        rule vwp_bind, rule vwp_lift, goal_cases)
      case (1 txn key)
      then have key: "key = ?ck" by simp
      show ?case
        unfolding key
      proof (rule vwp_bind, rule vwp_safe_delete, goal_cases)
        case 1
        show ?case using j i by (intro differs_upd)
      next
        case 2
        show ?case
        proof (rule vwp_bind, rule vwp_lift, goal_cases)
          case (1 key')
          then have key': "key' = ?mk" by simp
          show ?case
            unfolding key'
            by (rule vwp_bind, rule vwp_safe_delete) (use j i rest in \<open>auto intro!: differs_upd\<close>)
        qed simp
      qed simp
    qed simp_all
  qed
qed (simp add: vwp_return)

lemma vwp_apply_retention:
  "vwp (differs_in_objects K (- referenced sha K v) v) (apply_production_release_retention sha akv K plan)
     (\<lambda>ids v'. objects_gone K (set ids) v' \<and> set ids \<inter> referenced sha K v = {}) (\<lambda>_ _. True) v"
  (is "vwp ?J _ ?Q ?E v")
proof (cases "accepted_plan K plan")
  case (Some dp)
  obtain days pid where dp: "dp = (days, pid)" by fastforce
  have finish: "vwp ?J (bindA (safe_read (base akv) (auxiliary_state_key K JOURNAL_SUFFIX)) (\<lambda>raw.
         (case parse_release_journal raw of (releases, status) \<Rightarrow>
           if status = Invalid then raise (PublicationError ''release journal is invalid after retention deletion'')
           else bindA (kv_open (base akv) (auxiliary_state_key K JOURNAL_SUFFIX)) (\<lambda>_.
             bindA (lift_sum (bindE (remove_release_observations (journal_dict releases) (set ids))
               serialize_release_journal)) (\<lambda>content.
             bindA (kv_publish (base akv) (auxiliary_state_key K JOURNAL_SUFFIX) content) (\<lambda>_.
             return ids)))))) ?Q ?E v'"
    if "objects_gone K (set ids) v'" "set ids \<inter> referenced sha K v = {}" for ids v'
  proof (rule vwp_assume, rule vwp_bind, rule vwp_safe_read, goal_cases)
    case 1
    obtain releases st where j: "parse_release_journal (v' (auxiliary_state_key K JOURNAL_SUFFIX)) = (releases, st)"
      by fastforce
    have gone: "objects_gone K (set ids) (v'(auxiliary_state_key K JOURNAL_SUFFIX \<mapsto> c))" for c
      using that by (auto simp: objects_gone_def key_defs)
    show ?case
      unfolding j prod.case
      by (intro vwp_if vwp_raise vwp_bind vwp_open vwp_lift vwp_publish vwp_return)
        (use 1 gone that in \<open>auto intro: differs_upd simp: disjoint_iff\<close>)
  qed simp
  show ?thesis
    unfolding apply_production_release_retention_def Some dp option.case prod.case
  proof (rule vwp_bind, rule vwp_mono [OF vwp_collect_retention_plan], goal_cases)
    case (1 a v')
    obtain p st where a: "a = (p, st)" by fastforce
    from 1 have v': "v' = v" and p: "\<forall>i \<in> set (deletion_candidate_ids p). i \<notin> referenced sha K v \<and> is_release_id i"
      by (auto simp: a)
    show ?case
      unfolding a prod.case v'
    proof (rule vwp_if, rule vwp_raise, simp, rule vwp_bind, rule vwp_lift, goal_cases)
      case (1 keys)
      then have k: "keys = release_keys_for K" by (simp add: release_keys_Inr)
      have "objects_gone K {} v" by (simp add: objects_gone_def)
      then have del: "vwp ?J (delete_candidates akv (release_keys_for K) (deletion_candidate_ids p))
          (\<lambda>_ v'. objects_gone K ({} \<union> set (deletion_candidate_ids p)) v') (\<lambda>_ _. True) v"
        using p by (intro vwp_delete_candidates) (auto simp: list_all_iff)
      show ?case
        unfolding k release_keys_for_simps
        by (rule vwp_bind, rule vwp_mono [OF del]) (use p in \<open>auto intro: finish\<close>)
    qed simp
  qed simp
qed (simp add: apply_production_release_retention_def vwp_raise)

subsection \<open>The audit\<close>

lemma vwp_release_available:
  assumes i: "pred_option is_release_id i" and q: "Q (release_stored sha K i v) v" and e: "\<And>e. E e v"
  shows "vwp J (release_available sha (base akv) (release_keys_for K) i) Q E v"
proof (cases i)
  case None
  then show ?thesis using q by (simp add: release_available_def release_stored_def vwp_return)
next
  case (Some r)
  then have r: "is_release_id r" using i by simp
  have "vwp J (release_available sha (base akv) (release_keys_for K) i)
      (\<lambda>b v'. v' = v \<and> b = release_stored sha K i v) (\<lambda>_ v'. v' = v) v"
    unfolding release_available_def Some option.case keys_config_simps(1) [OF r] keys_config_simps(2) [OF r] release_keys_for_simps
    by (intro vwp_bind vwp_lift vwp_safe_read vwp_option vwp_if vwp_return)
      (simp_all add: release_stored_simps manifest_bytes_text)
  then show ?thesis by (rule vwp_mono) (use q e in auto)
qed

lemma vwp_audit:
  "vwp J (audit_release_state sha (base akv) K)
     (\<lambda>a v'. v' = v \<and> (aud_status a = ''healthy'' \<longleftrightarrow> healthy_release sha K v)) (\<lambda>_ v'. v' = v) v"
  (is "vwp J _ ?Q ?E v")
proof -
  have audit: "?Q \<lparr>aud_status = (if st = ''healthy'' \<and> (\<not> release_stored sha K current v \<or> (prev \<noteq> None \<and> \<not> release_stored sha K prev v))
                then ''inconsistent'' else st), aud_matches_current = m, aud_current_available = b1,
        aud_previous_available = b2, aud_pending = pd, aud_referenced = ids\<rparr> v"
    if "parse_release_pointer (v (auxiliary_state_key K CURRENT_POINTER_SUFFIX)) = Inr current"
      "parse_release_pointer (v (auxiliary_state_key K PREVIOUS_POINTER_SUFFIX)) = Inr prev"
      "parse_release_transaction (v (auxiliary_state_key K TRANSACTION_SUFFIX)) = Inr txn"
      "production_id_of sha (v K) = Inr live_id" "st = inspect_release_state live_id current prev txn"
    for current prev txn live_id st m b1 b2 pd ids
  proof -
    have live: "live_id = map_option sha (nonempty (v K))"
      using that(4) by (cases "nonempty (v K)") (auto simp: production_id_of_def bindE_Inr_iff release_id_for_def split: if_splits)
    have ne: "nonempty (v K) = Some c \<longleftrightarrow> v K = Some c \<and> c \<noteq> []" for c
      by (auto simp: nonempty_def split: option.splits if_splits)
    have "st = ''healthy'' \<longleftrightarrow> txn = None \<and> live_id = current \<and> live_id \<noteq> None \<and> prev \<noteq> current"
      using that(5) by (cases txn) (auto simp: inspect_release_state_def)
    then have st: "st = ''healthy'' \<longleftrightarrow> (\<exists>c. v K = Some c \<and> c \<noteq> [] \<and> current = Some (sha c))
        \<and> txn = None \<and> prev \<noteq> current"
      unfolding live conj_assoc [symmetric] ne [symmetric] by (cases "nonempty (v K)") auto
    have "healthy_release sha K v \<longleftrightarrow> st = ''healthy''
        \<and> release_stored sha K current v \<and> (prev = None \<or> release_stored sha K prev v)"
      unfolding healthy_release_def that(1-3) st by auto
    then show ?thesis by (cases "st = ''healthy''") simp_all
  qed
  show ?thesis
    unfolding audit_release_state_def Let_def
  proof (rule vwp_bind, rule vwp_lift, goal_cases)
    case (1 keys)
    then have k: "keys = release_keys_for K" by (simp add: release_keys_Inr)
    show ?case
      unfolding k release_keys_for_simps
      by (intro vwp_bind vwp_safe_read vwp_read_pointer vwp_lift vwp_release_available [unfolded release_keys_for_simps]
          vwp_return audit) (auto dest: parse_pointer_pred)
  qed simp
qed

lemma vwp_run:
  "vwp J m Q E (view w) \<Longrightarrow> J (view w) \<Longrightarrow> seen w \<subseteq> Collect J \<Longrightarrow>
   wp m (\<lambda>a w'. (\<forall>v \<in> insert (view w') (seen w'). J v) \<and> Q a (view w'))
        (\<lambda>e w'. (\<forall>v \<in> insert (view w') (seen w'). J v) \<and> E e (view w')) w"
  unfolding vwp_def by (auto elim!: wp_mono)

lemma retention_run:
  "seen w \<subseteq> {view w} \<Longrightarrow> wp (apply_production_release_retention sha akv K plan)
     (\<lambda>ids w'. (\<forall>v \<in> insert (view w') (seen w'). differs_in_objects K (- referenced sha K (view w)) (view w) v)
        \<and> objects_gone K (set ids) (view w') \<and> set ids \<inter> referenced sha K (view w) = {})
     (\<lambda>_ w'. (\<forall>v \<in> insert (view w') (seen w'). differs_in_objects K (- referenced sha K (view w)) (view w) v)) w"
  by (rule wp_mono [OF vwp_run [OF vwp_apply_retention]]) auto

lemma audit_run:
  "seen w \<subseteq> {view w} \<Longrightarrow> wp (audit_release_state sha (base akv) K)
     (\<lambda>a w'. view w' = view w \<and> (aud_status a = ''healthy'' \<longleftrightarrow> healthy_release sha K (view w)))
     (\<lambda>_ w'. view w' = view w) w"
  by (rule wp_mono [OF vwp_run [OF vwp_audit, of "\<lambda>_. True"]]) auto

end

text \<open>The Cloudflare publisher with deletion satisfies the contract over every documented remote.\<close>

context kv_remote_delete begin

lemma cf_admin_store:
  assumes "\<And>w t w'. time w = (t, w') \<Longrightarrow> store w' = store w"
  shows "admin_store (admin_publisher sha remote cfg namespace time) store (\<lambda>_. {})"
  by (rule admin_store.intro, simp add: cf_consistent, rule admin_store_axioms.intro)
    (use assms cf_delete_effect in auto)

end

definition demo_akv :: "sim admin_kv" where
  "demo_akv = admin_publisher demo_sha (sim_remote demo_cfg ''ns'') demo_cfg ''ns'' (\<lambda>w. (1000, w))"

interpretation demo: admin_store demo_akv sim_store "\<lambda>_. {}"
  unfolding demo_akv_def by (rule sim.cf_admin_store) simp

section \<open>Properties\<close>



text \<open>
  C16. The journal entry after a publication cannot revise it: once the release is committed the run
  returns its result whatever the journal does, unless an exception outside the publication classes
  escapes; an error of the release itself is passed on with the store the release left.
\<close>

theorem journal_never_fails_release:
  "case publish_release_bundle sha (base akv) K content observer w of
     (Inl e, w1) \<Rightarrow> publish_and_journal sha akv K content observer w = (Inl e, w1)
   | (Inr result, w1) \<Rightarrow> (case publish_and_journal sha akv K content observer w of
        (Inr (r, entry), w') \<Rightarrow> r = result | (Inl e, w') \<Rightarrow> \<exists>m. e = EscapedError m)"
proof (cases "publish_release_bundle sha (base akv) K content observer w")
  case (Pair r w1)
  show ?thesis
  proof (cases r)
    case (Inl e)
    then show ?thesis using Pair by (simp add: publish_and_journal_def bindA_def)
  next
    case (Inr result)
    have keys: "release_keys K = Inr (release_keys_for K)"
    proof (cases "release_keys K")
      case (Inl e)
      then show ?thesis using Pair Inr by (simp add: publish_release_bundle_def bindA_def lift_sum_def)
    qed (simp add: release_keys_Inr)
    show ?thesis
      using Pair Inr keys
      by (auto simp: publish_and_journal_def or_else_def bindA_def try_catch_def lift_sum_def return_def raise_def
          split: prod.splits sum.splits kv_error.splits)
  qed
qed

section \<open>Instances\<close>



end
