(* ===== verification/RuntimeGraph.thy ===== *)
theory RuntimeGraph
  imports JsonValues
begin

text \<open>
  \<^verbatim>\<open>runtime_graph.py\<close>: the indexes of a generated document over its proxy groups, providers and
  proxies, and every traversal of them.  A document is a decoded mapping with string keys; sets
  that the code iterates (the proxy names and dialers of a provider) are duplicate-free lists in
  insertion order, one of the orders the interpreter may choose.  Recursive visits carry fuel;
  running out of it is \<open>RecursionLimit\<close>, the interpreter's \<^verbatim>\<open>RecursionError\<close>.  Deep copies are
  invisible here because values are immutable.
\<close>

datatype graph_error =
    EmptyStage
  | DocumentNotMapping
  | TransformNotMapping
  | CandidateNotMapping
  | GroupsNotList
  | MalformedGroup
  | DuplicateGroup string
  | ProxiesNotList
  | MalformedProxy
  | ProvidersNotMapping
  | MalformedProvider
  | PayloadNotList string
  | MalformedPayloadProxy string
  | MissingGroup string
  | InvalidProxyReferences string
  | InvalidProviderReferences string
  | GraphCycle string
  | UnresolvedReferences string "string list"
  | InvalidFilter
  | InvalidExcludeFilter
  | RecursionLimit

definition BUILTIN_TARGETS :: "string set" where
  "BUILTIN_TARGETS = {''DIRECT'', ''REJECT'', ''PASS'', ''COMPATIBLE''}"

section \<open>Candidate artifacts\<close>

record candidate_artifact =
  ca_stage :: string
  ca_document :: "json dict"

definition from_document :: "string \<Rightarrow> json \<Rightarrow> graph_error + candidate_artifact" where
  "from_document stage document =
     (if stage = '''' then Inl EmptyStage
      else (case document of JObj d \<Rightarrow> Inr \<lparr>ca_stage = stage, ca_document = d\<rparr>
        | _ \<Rightarrow> Inl DocumentNotMapping))"

text \<open>
  A transform may change the mapping it is given in place (the first component) and may return
  a value (\<open>None\<close> for Python's \<^verbatim>\<open>None\<close>).
\<close>

definition transition ::
  "candidate_artifact \<Rightarrow> string \<Rightarrow> (json dict \<Rightarrow> json dict \<times> json option) \<Rightarrow> graph_error + candidate_artifact"
where
  "transition a stage transform =
     (case transform (ca_document a) of (next_document, result) \<Rightarrow>
        (case result of None \<Rightarrow> from_document stage (JObj next_document)
         | Some (JObj d) \<Rightarrow> from_document stage (JObj d)
         | Some _ \<Rightarrow> Inl TransformNotMapping))"

text \<open>\<open>hash\<close> is the digest function, hexadecimal.\<close>

definition fingerprint :: "(bytes \<Rightarrow> string) \<Rightarrow> candidate_artifact \<Rightarrow> string" where
  "fingerprint hash a = hash (json_dumps_raw (JObj (ca_document a)))"

section \<open>The graph and its construction\<close>

record runtime_graph =
  rg_groups :: "json dict dict"
  rg_providers :: "json dict dict"
  rg_proxies :: "json dict dict"
  rg_provider_proxies :: "string list dict"
  rg_provider_dialers :: "string list dict"

text \<open>\<^verbatim>\<open>d.get(k, default)\<close>\<close>

definition get_or :: "json dict \<Rightarrow> string \<Rightarrow> json \<Rightarrow> json" where
  "get_or d k v = (case map_of d k of Some x \<Rightarrow> x | None \<Rightarrow> v)"

definition add_name :: "string \<Rightarrow> string list \<Rightarrow> string list" where
  "add_name x xs = (if x \<in> set xs then xs else xs @ [x])"

text \<open>A row is a mapping whose \<^verbatim>\<open>name\<close> is a string.\<close>

definition named_row :: "json \<Rightarrow> (string \<times> json dict) option" where
  "named_row row = (case row of
      JObj d \<Rightarrow> (case json_get d ''name'' of JStr n \<Rightarrow> Some (n, d) | _ \<Rightarrow> None)
    | _ \<Rightarrow> None)"

fun index_groups :: "json list \<Rightarrow> json dict dict \<Rightarrow> graph_error + json dict dict" where
  "index_groups [] groups = Inr groups"
| "index_groups (row # rows) groups =
     (case named_row row of None \<Rightarrow> Inl MalformedGroup
      | Some (name, d) \<Rightarrow>
          if name \<in> set (dict_keys groups) then Inl (DuplicateGroup name)
          else index_groups rows (dict_set name d groups))"

fun index_proxies :: "json list \<Rightarrow> json dict dict \<Rightarrow> graph_error + json dict dict" where
  "index_proxies [] proxies = Inr proxies"
| "index_proxies (row # rows) proxies =
     (case named_row row of None \<Rightarrow> Inl MalformedProxy
      | Some (name, d) \<Rightarrow> index_proxies rows (dict_set name d proxies))"

text \<open>The dialer a proxy row names, if it is a non-empty string.\<close>

definition row_dialer :: "json dict \<Rightarrow> string option" where
  "row_dialer d = (case json_get d ''dialer-proxy'' of
      JStr s \<Rightarrow> if s \<noteq> '''' then Some s else None
    | _ \<Rightarrow> None)"

text \<open>One provider's payload: its proxy names, its dialers, and the proxies it adds.\<close>

fun index_payload :: "string \<Rightarrow> json list \<Rightarrow> string list \<times> string list \<times> json dict dict
    \<Rightarrow> graph_error + string list \<times> string list \<times> json dict dict" where
  "index_payload provider [] acc = Inr acc"
| "index_payload provider (row # rows) (names, dialers, proxies) =
     (case named_row row of None \<Rightarrow> Inl (MalformedPayloadProxy provider)
      | Some (name, d) \<Rightarrow>
          index_payload provider rows
            (add_name name names,
             (case row_dialer d of Some x \<Rightarrow> add_name x dialers | None \<Rightarrow> dialers),
             dict_setdefault name d proxies))"

fun index_providers :: "(string \<times> json) list \<Rightarrow> runtime_graph \<Rightarrow> graph_error + runtime_graph" where
  "index_providers [] g = Inr g"
| "index_providers ((name, row) # rest) g =
     (case row of JObj d \<Rightarrow>
        (case get_or d ''payload'' (JList []) of JList payload \<Rightarrow>
           bindE (index_payload name payload ([], [], rg_proxies g)) (\<lambda>(names, dialers, proxies).
             index_providers rest
               (g\<lparr>rg_proxies := proxies,
                  rg_providers := dict_set name d (rg_providers g),
                  rg_provider_proxies := dict_set name names (rg_provider_proxies g),
                  rg_provider_dialers := dict_set name dialers (rg_provider_dialers g)\<rparr>))
         | _ \<Rightarrow> Inl (PayloadNotList name))
      | _ \<Rightarrow> Inl MalformedProvider)"

definition from_candidate :: "json \<Rightarrow> graph_error + runtime_graph" where
  "from_candidate candidate = (case candidate of
     JObj snapshot \<Rightarrow>
       (case get_or snapshot ''proxy-groups'' (JList []) of JList raw_groups \<Rightarrow>
          bindE (index_groups raw_groups []) (\<lambda>groups.
          (case get_or snapshot ''proxies'' (JList []) of JList raw_proxies \<Rightarrow>
             bindE (index_proxies raw_proxies []) (\<lambda>proxies.
             (case get_or snapshot ''proxy-providers'' (JObj []) of JObj raw_providers \<Rightarrow>
                index_providers raw_providers
                  \<lparr>rg_groups = groups, rg_providers = [], rg_proxies = proxies,
                   rg_provider_proxies = [], rg_provider_dialers = []\<rparr>
              | _ \<Rightarrow> Inl ProvidersNotMapping))
           | _ \<Rightarrow> Inl ProxiesNotList))
        | _ \<Rightarrow> Inl GroupsNotList)
   | _ \<Rightarrow> Inl CandidateNotMapping)"

section \<open>The references of a group\<close>

fun string_items :: "json list \<Rightarrow> string list option" where
  "string_items [] = Some []"
| "string_items (JStr s # xs) = map_option ((#) s) (string_items xs)"
| "string_items (_ # xs) = None"

definition group_members :: "runtime_graph \<Rightarrow> string \<Rightarrow> graph_error + string list" where
  "group_members g name = (case map_of (rg_groups g) name of None \<Rightarrow> Inl (MissingGroup name)
     | Some row \<Rightarrow>
         (case get_or row ''proxies'' (JList []) of
            JList members \<Rightarrow> (case string_items members of Some xs \<Rightarrow> Inr xs
               | None \<Rightarrow> Inl (InvalidProxyReferences name))
          | _ \<Rightarrow> Inl (InvalidProxyReferences name)))"

definition group_uses :: "runtime_graph \<Rightarrow> string \<Rightarrow> graph_error + string list" where
  "group_uses g name = (case map_of (rg_groups g) name of None \<Rightarrow> Inl (MissingGroup name)
     | Some row \<Rightarrow>
         (case get_or row ''use'' (JList []) of
            JNull \<Rightarrow> Inr []
          | JList uses \<Rightarrow> (case string_items uses of Some xs \<Rightarrow> Inr xs
               | None \<Rightarrow> Inl (InvalidProviderReferences name))
          | _ \<Rightarrow> Inl (InvalidProviderReferences name)))"

abbreviation is_group :: "runtime_graph \<Rightarrow> string \<Rightarrow> bool" where
  "is_group g name \<equiv> name \<in> set (dict_keys (rg_groups g))"

abbreviation is_provider :: "runtime_graph \<Rightarrow> string \<Rightarrow> bool" where
  "is_provider g name \<equiv> name \<in> set (dict_keys (rg_providers g))"

text \<open>The dialer of a proxy reference.\<close>

definition proxy_dialer :: "json dict \<Rightarrow> string list" where
  "proxy_dialer row = (case row_dialer row of Some d \<Rightarrow> [d] | None \<Rightarrow> [])"

definition names_in :: "string list dict \<Rightarrow> string \<Rightarrow> string list" where
  "names_in d k = (case map_of d k of Some xs \<Rightarrow> xs | None \<Rightarrow> [])"

section \<open>\<^verbatim>\<open>walk\<close>\<close>

record graph_reachability =
  reached_groups :: "string set"
  reached_providers :: "string set"
  reached_proxies :: "string set"
  reached_builtins :: "string set"
  unresolved :: "string set"

record walk_state = graph_reachability +
  visiting :: "string set"

definition enter_group :: "string \<Rightarrow> walk_state \<Rightarrow> walk_state" where
  "enter_group r s = s\<lparr>visiting := insert r (visiting s), reached_groups := insert r (reached_groups s)\<rparr>"

definition leave_group :: "string \<Rightarrow> walk_state \<Rightarrow> walk_state" where
  "leave_group r s = s\<lparr>visiting := visiting s - {r}\<rparr>"

definition see_proxy :: "string \<Rightarrow> walk_state \<Rightarrow> walk_state" where
  "see_proxy r s = s\<lparr>reached_proxies := insert r (reached_proxies s)\<rparr>"

definition see_builtin :: "string \<Rightarrow> walk_state \<Rightarrow> walk_state" where
  "see_builtin r s = s\<lparr>reached_builtins := insert r (reached_builtins s)\<rparr>"

definition see_unresolved :: "string \<Rightarrow> walk_state \<Rightarrow> walk_state" where
  "see_unresolved r s = s\<lparr>unresolved := insert r (unresolved s)\<rparr>"

definition see_provider :: "string \<Rightarrow> walk_state \<Rightarrow> walk_state" where
  "see_provider p s = s\<lparr>reached_providers := insert p (reached_providers s)\<rparr>"

text \<open>One provider of the loop over \<^verbatim>\<open>group_uses\<close>, given the visit of a reference.\<close>

definition visit_provider ::
  "(string \<Rightarrow> walk_state \<Rightarrow> graph_error + walk_state) \<Rightarrow> runtime_graph \<Rightarrow> string \<Rightarrow> walk_state \<Rightarrow> graph_error + walk_state"
where
  "visit_provider v g p s =
     (if \<not> is_provider g p then Inr (see_unresolved p (see_provider p s))
      else bindE (foldE v (names_in (rg_provider_proxies g) p) (see_provider p s))
             (foldE v (names_in (rg_provider_dialers g) p)))"

fun walk_visit :: "nat \<Rightarrow> runtime_graph \<Rightarrow> string \<Rightarrow> walk_state \<Rightarrow> graph_error + walk_state" where
  "walk_visit 0 g r s = Inl RecursionLimit"
| "walk_visit (Suc n) g r s =
     (if r \<in> BUILTIN_TARGETS then Inr (see_builtin r s)
      else (case map_of (rg_proxies g) r of
        Some row \<Rightarrow> foldE (walk_visit n g) (proxy_dialer row) (see_proxy r s)
      | None \<Rightarrow>
          if \<not> is_group g r then Inr (see_unresolved r s)
          else if r \<in> visiting s then Inl (GraphCycle r)
          else if r \<in> reached_groups s then Inr s
          else bindE (group_uses g r) (\<lambda>uses.
               bindE (foldE (visit_provider (walk_visit n g) g) uses (enter_group r s)) (\<lambda>s1.
               bindE (group_members g r) (\<lambda>members.
               bindE (foldE (walk_visit n g) members s1) (\<lambda>s2.
                 Inr (leave_group r s2)))))))"

text \<open>
  A visit deeper than this bound repeats a proxy along one chain of dialers; the theorems below
  show that more fuel never changes an outcome other than \<open>RecursionLimit\<close> at this bound.
\<close>

definition walk_bound :: "runtime_graph \<Rightarrow> nat" where
  "walk_bound g = Suc (length (rg_groups g)) * (length (rg_proxies g) + 2)"

definition walk_start :: walk_state where
  "walk_start = \<lparr>reached_groups = {}, reached_providers = {}, reached_proxies = {},
     reached_builtins = {}, unresolved = {}, visiting = {}\<rparr>"

definition walk :: "runtime_graph \<Rightarrow> string \<Rightarrow> graph_error + graph_reachability" where
  "walk g target = bindE (walk_visit (walk_bound g) g target walk_start)
     (\<lambda>s. Inr (graph_reachability.truncate s))"

definition walk_resolved :: "runtime_graph \<Rightarrow> string \<Rightarrow> graph_error + graph_reachability" where
  "walk_resolved g target = bindE (walk g target) (\<lambda>result.
     if unresolved result \<noteq> {}
     then Inl (UnresolvedReferences target (sorted_list_of_set (unresolved result)))
     else Inr result)"

definition reachable_providers :: "runtime_graph \<Rightarrow> string \<Rightarrow> bool \<Rightarrow> graph_error + string set" where
  "reachable_providers g target require_resolved =
     bindE (if require_resolved then walk_resolved g target else walk g target)
       (\<lambda>r. Inr (reached_providers r))"

text \<open>\<^verbatim>\<open>proxy_sources\<close> and \<^verbatim>\<open>provider_sources\<close> as dictionaries; the latter is optional.\<close>

definition reachable_sources ::
  "runtime_graph \<Rightarrow> string \<Rightarrow> string dict \<Rightarrow> string list dict option \<Rightarrow> bool \<Rightarrow> graph_error + string set"
where
  "reachable_sources g target proxy_sources provider_sources require_resolved =
     bindE (if require_resolved then walk_resolved g target else walk g target) (\<lambda>r.
       Inr ({src \<in> snd ` set proxy_sources. \<exists>n \<in> reached_proxies r. map_of proxy_sources n = Some src}
          \<union> (case provider_sources of None \<Rightarrow> {}
             | Some d \<Rightarrow> (\<Union>p \<in> reached_providers r. set (names_in d p)))))"

section \<open>\<^verbatim>\<open>effective_leaf_proxies\<close>\<close>

text \<open>
  The regular-expression engine is a parameter: \<open>compile\<close> gives the search predicate of a
  pattern, \<open>None\<close> where \<^verbatim>\<open>re.compile\<close> raises.
\<close>

definition text_filter ::
  "(string \<Rightarrow> (string \<Rightarrow> bool) option) \<Rightarrow> graph_error \<Rightarrow> bool \<Rightarrow> json \<Rightarrow> graph_error + (string \<Rightarrow> bool)"
where
  "text_filter compile e wanted j = (case j of
      JStr t \<Rightarrow> if t = '''' then Inr (\<lambda>_. True)
        else (case compile t of None \<Rightarrow> Inl e | Some search \<Rightarrow> Inr (\<lambda>x. search x = wanted))
    | _ \<Rightarrow> Inr (\<lambda>_. True))"

definition provider_leaves :: "runtime_graph \<Rightarrow> string \<Rightarrow> string list" where
  "provider_leaves g p = (case map_of (rg_providers g) p of None \<Rightarrow> []
     | Some provider \<Rightarrow> (case get_or provider ''payload'' (JList []) of
          JList payload \<Rightarrow> map fst (List.map_filter named_row payload)
        | _ \<Rightarrow> []))"

record leaf_state =
  leaves :: "string set"
  leaf_visiting :: "string set"
  leaf_visited :: "string set"

fun leaf_visit :: "(string \<Rightarrow> (string \<Rightarrow> bool) option) \<Rightarrow> nat \<Rightarrow> runtime_graph \<Rightarrow> string \<Rightarrow> leaf_state
    \<Rightarrow> graph_error + leaf_state" where
  "leaf_visit compile 0 g r s = Inl RecursionLimit"
| "leaf_visit compile (Suc n) g r s =
     (if r \<in> BUILTIN_TARGETS then Inr s
      else if r \<in> set (dict_keys (rg_proxies g)) then Inr (s\<lparr>leaves := insert r (leaves s)\<rparr>)
      else (case map_of (rg_groups g) r of None \<Rightarrow> Inr s
        | Some row \<Rightarrow>
          if r \<in> leaf_visiting s then Inl (GraphCycle r)
          else if r \<in> leaf_visited s then Inr s
          else bindE (text_filter compile InvalidFilter True (json_get row ''filter'')) (\<lambda>keep.
               bindE (text_filter compile InvalidExcludeFilter False (json_get row ''exclude-filter'')) (\<lambda>spare.
               bindE (group_uses g r) (\<lambda>uses.
               bindE (group_members g r) (\<lambda>members.
               bindE (foldE (leaf_visit compile n g) members
                 (s\<lparr>leaf_visiting := insert r (leaf_visiting s),
                    leaves := leaves s \<union>
                      set (filter (\<lambda>x. keep x \<and> spare x) (concat (map (provider_leaves g) uses)))\<rparr>)) (\<lambda>s'.
               Inr (s'\<lparr>leaf_visiting := leaf_visiting s' - {r},
                       leaf_visited := insert r (leaf_visited s')\<rparr>))))))))"

definition effective_leaf_proxies ::
  "(string \<Rightarrow> (string \<Rightarrow> bool) option) \<Rightarrow> runtime_graph \<Rightarrow> string \<Rightarrow> graph_error + string set"
where
  "effective_leaf_proxies compile g target =
     bindE (leaf_visit compile (length (rg_groups g) + 2) g target
              \<lparr>leaves = {}, leaf_visiting = {}, leaf_visited = {}\<rparr>)
       (\<lambda>s. Inr (leaves s))"

section \<open>Group-only traversals\<close>

lemma group_measure:
  assumes "group_members g name = Inr members" and "name \<notin> found"
  shows "card (set (dict_keys (rg_groups g)) - insert name found) < card (set (dict_keys (rg_groups g)) - found)"
proof (intro psubset_card_mono psubsetI)
  have "is_group g name"
    using assms(1) by (cases "map_of (rg_groups g) name")
      (auto simp: group_members_def dest: map_of_SomeD intro: rev_image_eqI)
  then show "set (dict_keys (rg_groups g)) - insert name found \<noteq> set (dict_keys (rg_groups g)) - found"
    using assms(2) by blast
qed auto

text \<open>\<^verbatim>\<open>reachable_groups\<close>: \<open>pending\<close> is the Python list, whose last element \<^verbatim>\<open>pop()\<close> takes.\<close>

function group_search :: "runtime_graph \<Rightarrow> string set \<Rightarrow> string list \<Rightarrow> graph_error + string set" where
  "group_search g found pending =
     (if pending = [] then Inr found
      else (let name = last pending; rest = butlast pending in
        if name \<in> found then group_search g found rest
        else (case group_members g name of Inl e \<Rightarrow> Inl e
          | Inr members \<Rightarrow> group_search g (insert name found)
              (rest @ filter (\<lambda>m. is_group g m \<and> m \<notin> insert name found) members))))"
  by pat_completeness auto

termination
proof (relation "(\<lambda>(g, found, pending). card (set (dict_keys (rg_groups g)) - found)) <*mlex*>
    measure (\<lambda>(g, found, pending). length pending)")
  show "wf ((\<lambda>(g, found, pending). card (set (dict_keys (rg_groups g)) - found)) <*mlex*>
      measure (\<lambda>(g, found, pending). length pending))"
    by (simp add: wf_mlex)
qed (auto simp: mlex_prod_def dest: group_measure)

declare group_search.simps [simp del]

definition reachable_groups :: "runtime_graph \<Rightarrow> string list \<Rightarrow> graph_error + string set" where
  "reachable_groups g starts = group_search g {} (filter (is_group g) starts)"

text \<open>\<^verbatim>\<open>provider_order\<close>: \<^verbatim>\<open>pop(0)\<close> takes the first element.\<close>

fun add_providers :: "runtime_graph \<Rightarrow> string list \<Rightarrow> string list \<Rightarrow> string list" where
  "add_providers g [] providers = providers"
| "add_providers g (p # ps) providers =
     add_providers g ps (if is_provider g p \<and> p \<notin> set providers then providers @ [p] else providers)"

lemma group_measure_le:
  "card (set (dict_keys (rg_groups g)) - insert name found) \<le> card (set (dict_keys (rg_groups g)) - found)"
  by (intro card_mono) auto

function order_search :: "runtime_graph \<Rightarrow> string set \<Rightarrow> string list \<Rightarrow> string list \<Rightarrow> graph_error + string list" where
  "order_search g visited providers [] = Inr providers"
| "order_search g visited providers (name # pending) =
     (if name \<in> visited then order_search g visited providers pending
      else if \<not> is_group g name then order_search g (insert name visited) providers pending
      else (case group_uses g name of Inl e \<Rightarrow> Inl e
        | Inr uses \<Rightarrow> (case group_members g name of Inl e \<Rightarrow> Inl e
          | Inr members \<Rightarrow> order_search g (insert name visited) (add_providers g uses providers)
              (pending @ filter (is_group g) members))))"
  by pat_completeness auto

termination
proof (relation "(\<lambda>(g, visited, providers, pending). card (set (dict_keys (rg_groups g)) - visited)) <*mlex*>
    measure (\<lambda>(g, visited, providers, pending). length pending)")
  show "wf ((\<lambda>(g, visited, providers, pending). card (set (dict_keys (rg_groups g)) - visited)) <*mlex*>
      measure (\<lambda>(g, visited, providers, pending). length pending))"
    by (simp add: wf_mlex)
qed (use group_measure_le in \<open>auto simp: mlex_prod_def le_less dest: group_measure\<close>)

definition provider_order :: "runtime_graph \<Rightarrow> string \<Rightarrow> graph_error + string list" where
  "provider_order g target = order_search g {} [] [target]"

section \<open>\<^verbatim>\<open>group_cycles\<close>\<close>

record cycle_state =
  cy_visiting :: "string set"
  cy_visited :: "string set"
  cy_stack :: "string list"
  cy_found :: "string list list"

definition close_cycle :: "string \<Rightarrow> string list \<Rightarrow> string list" where
  "close_cycle name stack =
     (if name \<in> set stack then dropWhile (\<lambda>x. x \<noteq> name) stack @ [name] else stack @ [name])"

fun cycle_visit :: "nat \<Rightarrow> runtime_graph \<Rightarrow> string \<Rightarrow> cycle_state \<Rightarrow> graph_error + cycle_state" where
  "cycle_visit 0 g name s = Inl RecursionLimit"
| "cycle_visit (Suc n) g name s =
     (if name \<in> cy_visiting s
      then Inr (s\<lparr>cy_found := cy_found s @ [close_cycle name (cy_stack s)]\<rparr>)
      else if name \<in> cy_visited s then Inr s
      else bindE (group_members g name) (\<lambda>members.
           bindE (foldE (cycle_visit n g) (sort (filter (is_group g) members))
             (s\<lparr>cy_visiting := insert name (cy_visiting s), cy_stack := cy_stack s @ [name]\<rparr>)) (\<lambda>s'.
           Inr (s'\<lparr>cy_stack := butlast (cy_stack s'), cy_visiting := cy_visiting s' - {name},
                   cy_visited := insert name (cy_visited s')\<rparr>))))"

definition group_cycles :: "runtime_graph \<Rightarrow> graph_error + string list list" where
  "group_cycles g =
     bindE (foldE (cycle_visit (length (rg_groups g) + 2) g) (sort (dict_keys (rg_groups g)))
              \<lparr>cy_visiting = {}, cy_visited = {}, cy_stack = [], cy_found = []\<rparr>)
       (\<lambda>s. Inr (cy_found s))"

end
