(* ===== verification/GraphFacts.thy ===== *)
theory GraphFacts
  imports RuntimeGraph
begin

text \<open>
  What \<open>walk\<close> computes.  The references of a node define a graph on names; a successful walk
  returns exactly the nodes reachable from the target, sorted by kind, and a walk succeeds exactly
  when the reachable part is well formed and acyclic.  The invariant of the search says that a
  group it has left is \<open>sound\<close> (its descendants are finite in depth and well formed) and that all
  of its descendants are recorded.
\<close>

section \<open>The graph of references\<close>

definition expands :: "runtime_graph \<Rightarrow> string \<Rightarrow> bool" where
  "expands g r \<longleftrightarrow> r \<notin> BUILTIN_TARGETS \<and> map_of (rg_proxies g) r = None \<and> is_group g r"

definition is_proxy :: "runtime_graph \<Rightarrow> string \<Rightarrow> bool" where
  "is_proxy g r \<longleftrightarrow> r \<notin> BUILTIN_TARGETS \<and> map_of (rg_proxies g) r \<noteq> None"

lemma node_cases [case_names builtin proxy missing group]:
  obtains "r \<in> BUILTIN_TARGETS"
    | row where "r \<notin> BUILTIN_TARGETS" "map_of (rg_proxies g) r = Some row"
    | "r \<notin> BUILTIN_TARGETS" "map_of (rg_proxies g) r = None" "\<not> is_group g r"
    | "expands g r"
  unfolding expands_def by (cases "map_of (rg_proxies g) r") auto

definition provider_refs :: "runtime_graph \<Rightarrow> string \<Rightarrow> string list" where
  "provider_refs g p = (if is_provider g p
     then names_in (rg_provider_proxies g) p @ names_in (rg_provider_dialers g) p else [])"

definition uses_of :: "runtime_graph \<Rightarrow> string \<Rightarrow> string list" where
  "uses_of g r = (case group_uses g r of Inr us \<Rightarrow> us | Inl _ \<Rightarrow> [])"

definition members_of :: "runtime_graph \<Rightarrow> string \<Rightarrow> string list" where
  "members_of g r = (case group_members g r of Inr ms \<Rightarrow> ms | Inl _ \<Rightarrow> [])"

text \<open>The references followed from a node.\<close>

definition refs :: "runtime_graph \<Rightarrow> string \<Rightarrow> string list" where
  "refs g r =
     (if r \<in> BUILTIN_TARGETS then []
      else (case map_of (rg_proxies g) r of Some row \<Rightarrow> proxy_dialer row
        | None \<Rightarrow> if is_group g r then concat (map (provider_refs g) (uses_of g r)) @ members_of g r
                 else []))"

definition refers :: "runtime_graph \<Rightarrow> string \<Rightarrow> string \<Rightarrow> bool" where
  "refers g r r' \<longleftrightarrow> r' \<in> set (refs g r)"

definition reach :: "runtime_graph \<Rightarrow> string \<Rightarrow> string set" where
  "reach g r = {r'. (refers g)\<^sup>*\<^sup>* r r'}"

definition well_formed :: "runtime_graph \<Rightarrow> string \<Rightarrow> bool" where
  "well_formed g r \<longleftrightarrow> (expands g r \<longrightarrow>
     (\<exists>us. group_uses g r = Inr us) \<and> (\<exists>ms. group_members g r = Inr ms))"

lemma reach_refl [simp, intro]: "r \<in> reach g r"
  by (simp add: reach_def)

lemma reach_unfold: "reach g r = insert r (\<Union>x \<in> set (refs g r). reach g x)"
  by (auto simp: reach_def refers_def elim: converse_rtranclpE intro: converse_rtranclp_into_rtranclp)

lemma reach_step: "x \<in> set (refs g r) \<Longrightarrow> x \<in> reach g r"
  by (auto simp: reach_def refers_def)

lemma reach_trans: "x \<in> reach g r \<Longrightarrow> y \<in> reach g x \<Longrightarrow> y \<in> reach g r"
  by (auto simp: reach_def)

inductive sound :: "runtime_graph \<Rightarrow> string \<Rightarrow> bool" for g where
  sound_node: "well_formed g r \<Longrightarrow> (\<And>x. x \<in> set (refs g r) \<Longrightarrow> sound g x) \<Longrightarrow> sound g r"

inductive_simps sound_iff: "sound g r"

lemma sound_step: "sound g r \<Longrightarrow> refers g r x \<Longrightarrow> sound g x"
  by (auto simp: refers_def elim: sound.cases)

lemma sound_reach: "sound g r \<Longrightarrow> x \<in> reach g r \<Longrightarrow> sound g x"
proof -
  assume "x \<in> reach g r" and s: "sound g r"
  then have "(refers g)\<^sup>*\<^sup>* r x" by (simp add: reach_def)
  from this s show ?thesis by (induction rule: rtranclp_induct) (auto intro: sound_step)
qed

lemma sound_acyclic: "sound g r \<Longrightarrow> \<not> (refers g)\<^sup>+\<^sup>+ r r"
proof (induction rule: sound.induct)
  case (sound_node r)
  show ?case
  proof
    assume "(refers g)\<^sup>+\<^sup>+ r r"
    then obtain x where x: "refers g r x" "(refers g)\<^sup>*\<^sup>* x r" by (blast dest: tranclpD)
    then have "(refers g)\<^sup>+\<^sup>+ x x" by (meson rtranclp_into_tranclp1)
    moreover have "x \<in> set (refs g r)" using x(1) by (simp add: refers_def)
    ultimately show False using sound_node(3) by blast
  qed
qed

lemma refs_finite_source: "refs g r \<noteq> [] \<Longrightarrow> r \<in> set (dict_keys (rg_proxies g)) \<union> set (dict_keys (rg_groups g))"
  by (cases "map_of (rg_proxies g) r")
    (auto simp: refs_def dest: map_of_SomeD intro: rev_image_eqI split: if_splits)

lemma finite_refers: "finite {(x, r). refers g r x}"
proof (rule finite_subset)
  show "{(x, r). refers g r x} \<subseteq> (\<lambda>(r, x). (x, r)) `
      (SIGMA r : set (dict_keys (rg_proxies g)) \<union> set (dict_keys (rg_groups g)). set (refs g r))"
  proof clarify
    fix x r assume "refers g r x"
    then have "x \<in> set (refs g r)" by (simp add: refers_def)
    moreover have "r \<in> set (dict_keys (rg_proxies g)) \<union> set (dict_keys (rg_groups g))"
      by (rule refs_finite_source) (use calculation in auto)
    ultimately show "(x, r) \<in> (\<lambda>(r, x). (x, r)) `
        (SIGMA r : set (dict_keys (rg_proxies g)) \<union> set (dict_keys (rg_groups g)). set (refs g r))"
      by (intro rev_image_eqI [of "(r, x)"]) simp_all
  qed
  show "finite ((\<lambda>(r, x). (x, r)) `
      (SIGMA r : set (dict_keys (rg_proxies g)) \<union> set (dict_keys (rg_groups g)). set (refs g r)))"
    by (intro finite_imageI finite_SigmaI) auto
qed

text \<open>Soundness in the terms of the graph.\<close>

lemma sound_characterisation:
  "sound g t \<longleftrightarrow> (\<forall>r \<in> reach g t. well_formed g r \<and> \<not> (refers g)\<^sup>+\<^sup>+ r r)"
proof
  assume "sound g t"
  then show "\<forall>r \<in> reach g t. well_formed g r \<and> \<not> (refers g)\<^sup>+\<^sup>+ r r"
    using sound_reach sound_acyclic by (blast elim: sound.cases)
next
  assume ok: "\<forall>r \<in> reach g t. well_formed g r \<and> \<not> (refers g)\<^sup>+\<^sup>+ r r"
  let ?R = "{(x, r). refers g r x \<and> r \<in> reach g t}"
  have tr: "(refers g)\<^sup>+\<^sup>+ y x \<and> y \<in> reach g t" if "(x, y) \<in> ?R\<^sup>+" for x y
    using that
  proof (induction rule: trancl_induct)
    case (base y)
    then show ?case by (simp add: tranclp.r_into_trancl)
  next
    case (step y z)
    then show ?case using tranclp_into_tranclp2 [of "refers g" z y x] by simp
  qed
  have "acyclic ?R"
  proof (rule acyclicI, intro allI notI)
    fix x assume "(x, x) \<in> ?R\<^sup>+"
    with tr [of x x] ok show False by blast
  qed
  moreover have "finite ?R" by (rule finite_subset [OF _ finite_refers [of g]]) auto
  ultimately have wf: "wf ?R" by (rule finite_acyclic_wf [rotated])
  have "r \<in> reach g t \<longrightarrow> sound g r" for r
  proof (induction r rule: wf_induct_rule [OF wf])
    case (1 r)
    show ?case
    proof
      assume r: "r \<in> reach g t"
      show "sound g r"
      proof (rule sound_node)
        show "well_formed g r" using ok r by blast
        fix x assume x: "x \<in> set (refs g r)"
        then have "x \<in> reach g t" using reach_trans [OF r] reach_step by blast
        with 1 [of x] x r show "sound g x" by (simp add: refers_def)
      qed
    qed
  qed
  then show "sound g t" by simp
qed

section \<open>What a search has recorded\<close>

datatype mark = MGroup string | MProvider string | MProxy string | MBuiltin string | MMissing string

definition seen :: "('a) graph_reachability_scheme \<Rightarrow> mark set" where
  "seen s = MGroup ` reached_groups s \<union> MProvider ` reached_providers s \<union> MProxy ` reached_proxies s
     \<union> MBuiltin ` reached_builtins s \<union> MMissing ` unresolved s"

definition use_marks :: "runtime_graph \<Rightarrow> string \<Rightarrow> mark set" where
  "use_marks g p = insert (MProvider p) (if is_provider g p then {} else {MMissing p})"

definition marks :: "runtime_graph \<Rightarrow> string \<Rightarrow> mark set" where
  "marks g r =
     (if r \<in> BUILTIN_TARGETS then {MBuiltin r}
      else if is_proxy g r then {MProxy r}
      else if expands g r then insert (MGroup r) (\<Union>p \<in> set (uses_of g r). use_marks g p)
      else {MMissing r})"

definition all_marks :: "runtime_graph \<Rightarrow> string \<Rightarrow> mark set" where
  "all_marks g r = (\<Union>x \<in> reach g r. marks g x)"

lemma all_marks_unfold: "all_marks g r = marks g r \<union> (\<Union>x \<in> set (refs g r). all_marks g x)"
  unfolding all_marks_def by (subst reach_unfold) auto

lemma leaf_node:
  assumes "refs g r = []"
  shows "all_marks g r = marks g r" and "\<not> expands g r \<Longrightarrow> sound g r"
proof -
  show "all_marks g r = marks g r" using assms all_marks_unfold [of g r] by simp
  show "sound g r" if "\<not> expands g r"
    by (rule sound_node) (use that assms in \<open>simp_all add: well_formed_def\<close>)
qed

lemma all_marks_mono: "x \<in> reach g r \<Longrightarrow> all_marks g x \<subseteq> all_marks g r"
  by (auto simp: all_marks_def intro: reach_trans)

lemma group_mark: "MGroup h \<in> all_marks g r \<longleftrightarrow> h \<in> reach g r \<and> expands g h"
  by (auto simp: all_marks_def marks_def use_marks_def is_proxy_def expands_def split: if_splits)

lemma seen_simps [simp]:
  "seen (enter_group r s) = insert (MGroup r) (seen s)"
  "seen (leave_group r s) = seen s"
  "seen (see_proxy r s) = insert (MProxy r) (seen s)"
  "seen (see_builtin r s) = insert (MBuiltin r) (seen s)"
  "seen (see_unresolved r s) = insert (MMissing r) (seen s)"
  "seen (see_provider r s) = insert (MProvider r) (seen s)"
  by (auto simp: seen_def enter_group_def leave_group_def see_proxy_def see_builtin_def
    see_unresolved_def see_provider_def)

lemma visiting_simps [simp]:
  "visiting (enter_group r s) = insert r (visiting s)"
  "visiting (leave_group r s) = visiting s - {r}"
  "visiting (see_proxy r s) = visiting s"
  "visiting (see_builtin r s) = visiting s"
  "visiting (see_unresolved r s) = visiting s"
  "visiting (see_provider r s) = visiting s"
  by (simp_all add: enter_group_def leave_group_def see_proxy_def see_builtin_def
    see_unresolved_def see_provider_def)

lemma reached_groups_seen: "h \<in> reached_groups s \<longleftrightarrow> MGroup h \<in> seen s"
  by (auto simp: seen_def)

section \<open>A visit that returns\<close>

definition search_inv :: "runtime_graph \<Rightarrow> walk_state \<Rightarrow> bool" where
  "search_inv g s \<longleftrightarrow> (\<forall>h. MGroup h \<in> seen s \<and> h \<notin> visiting s \<longrightarrow> sound g h \<and> all_marks g h \<subseteq> seen s)"

text \<open>
  From \<open>s\<close> to \<open>s'\<close> the search has recorded the marks \<open>M\<close> and everything below the nodes \<open>X\<close>.
\<close>

definition explored :: "runtime_graph \<Rightarrow> mark set \<Rightarrow> string set \<Rightarrow> walk_state \<Rightarrow> walk_state \<Rightarrow> bool" where
  "explored g M X s s' \<longleftrightarrow> seen s' = seen s \<union> M \<union> (\<Union>x \<in> X. all_marks g x)
     \<and> visiting s' = visiting s \<and> (\<forall>x \<in> X. sound g x)"

lemma explored_inv:
  assumes "explored g M X s s'" and "search_inv g s" and "\<forall>h. MGroup h \<notin> M"
  shows "search_inv g s'"
  unfolding search_inv_def
proof (intro allI impI)
  fix h assume h: "MGroup h \<in> seen s' \<and> h \<notin> visiting s'"
  show "sound g h \<and> all_marks g h \<subseteq> seen s'"
  proof (cases "MGroup h \<in> seen s")
    case True
    then show ?thesis using assms(1,2) h by (auto simp: search_inv_def explored_def)
  next
    case False
    then obtain x where x: "x \<in> X" "MGroup h \<in> all_marks g x"
      using h assms(1,3) by (auto simp: explored_def)
    then have "h \<in> reach g x" by (simp add: group_mark)
    then show ?thesis using assms(1) x(1) sound_reach all_marks_mono by (fastforce simp: explored_def)
  qed
qed

lemma explored_trans:
  "explored g M X s s' \<Longrightarrow> explored g N Y s' s'' \<Longrightarrow> explored g (M \<union> N) (X \<union> Y) s s''"
  by (auto simp: explored_def)

lemma explored_refl: "explored g {} {} s s"
  by (simp add: explored_def)

lemma explored_fold:
  assumes step: "\<And>x s s'. x \<in> set xs \<Longrightarrow> search_inv g s \<Longrightarrow> f x s = Inr s' \<Longrightarrow> explored g (M x) (X x) s s'"
    and plain: "\<And>x h. x \<in> set xs \<Longrightarrow> MGroup h \<notin> M x"
    and run: "foldE f xs s = Inr s'" and inv: "search_inv g s"
  shows "explored g (\<Union>x \<in> set xs. M x) (\<Union>x \<in> set xs. X x) s s'"
  using assms
proof (induction xs arbitrary: s)
  case Nil
  then show ?case by (simp add: explored_refl)
next
  case (Cons x xs)
  from Cons.prems(3) obtain u where u: "f x s = Inr u" "foldE f xs u = Inr s'" by (auto split: sum.splits)
  have x: "explored g (M x) (X x) s u" using Cons.prems(1) [OF _ Cons.prems(4) u(1)] by simp
  have "search_inv g u" by (rule explored_inv [OF x Cons.prems(4)]) (simp add: Cons.prems(2))
  with Cons.IH [OF _ _ u(2)] have "explored g (\<Union>x \<in> set xs. M x) (\<Union>x \<in> set xs. X x) u s'"
    using Cons.prems(1,2) by (meson list.set_intros(2))
  from explored_trans [OF x this] show ?case by simp
qed

lemma explored_visits:
  assumes "\<And>x s s'. search_inv g s \<Longrightarrow> f x s = Inr s' \<Longrightarrow> explored g {} {x} s s'"
    and "foldE f xs s = Inr s'" and "search_inv g s"
  shows "explored g {} (set xs) s s'"
  using explored_fold [of xs g f "\<lambda>_. {}" "\<lambda>x. {x}" s s'] assms by simp

lemma explored_provider:
  assumes v: "\<And>x s s'. search_inv g s \<Longrightarrow> v x s = Inr s' \<Longrightarrow> explored g {} {x} s s'"
    and run: "visit_provider v g p s = Inr s'" and inv: "search_inv g s"
  shows "explored g (use_marks g p) (set (provider_refs g p)) s s'"
proof (cases "is_provider g p")
  case False
  with run have "s' = see_unresolved p (see_provider p s)" by (simp add: visit_provider_def)
  with False show ?thesis by (auto simp: explored_def use_marks_def provider_refs_def)
next
  case True
  with run obtain u where u: "foldE v (names_in (rg_provider_proxies g) p) (see_provider p s) = Inr u"
    "foldE v (names_in (rg_provider_dialers g) p) u = Inr s'"
    by (auto simp: visit_provider_def bindE_Inr_iff)
  have p: "explored g {MProvider p} {} s (see_provider p s)" by (simp add: explored_def)
  have i: "search_inv g (see_provider p s)" by (rule explored_inv [OF p inv]) simp
  have a: "explored g {} (set (names_in (rg_provider_proxies g) p)) (see_provider p s) u"
    by (rule explored_visits [OF v u(1) i])
  have j: "search_inv g u" by (rule explored_inv [OF a i]) simp
  have "explored g {} (set (names_in (rg_provider_dialers g) p)) u s'"
    by (rule explored_visits [OF v u(2) j])
  from explored_trans [OF p explored_trans [OF a this]] show ?thesis
    using True by (simp add: use_marks_def provider_refs_def)
qed

lemma visit_explores:
  "search_inv g s \<Longrightarrow> walk_visit n g r s = Inr s' \<Longrightarrow> explored g {} {r} s s'"
proof (induction n arbitrary: r s s')
  case 0
  then show ?case by simp
next
  case (Suc n)
  show ?case
  proof (cases rule: node_cases [where r = r and g = g])
    case builtin
    have no: "refs g r = []" "\<not> expands g r" "marks g r = {MBuiltin r}"
      using builtin by (simp_all add: marks_def refs_def expands_def)
    have "all_marks g r = {MBuiltin r}" "sound g r"
      using leaf_node(1) [OF no(1)] leaf_node(2) [OF no(1,2)] no(3) by simp_all
    moreover have "s' = see_builtin r s" using Suc.prems(2) builtin by simp
    ultimately show ?thesis by (simp add: explored_def)
  next
    case missing
    have no: "refs g r = []" "\<not> expands g r" "marks g r = {MMissing r}"
      using missing by (simp_all add: marks_def refs_def expands_def is_proxy_def)
    have "all_marks g r = {MMissing r}" "sound g r"
      using leaf_node(1) [OF no(1)] leaf_node(2) [OF no(1,2)] no(3) by simp_all
    moreover have "s' = see_unresolved r s" using Suc.prems(2) missing by simp
    ultimately show ?thesis by (simp add: explored_def)
  next
    case (proxy row)
    have p: "explored g {MProxy r} {} s (see_proxy r s)" by (simp add: explored_def)
    have "explored g {} (set (proxy_dialer row)) (see_proxy r s) s'"
      by (rule explored_visits [OF Suc.IH]) (use Suc.prems(2) proxy explored_inv [OF p Suc.prems(1)] in auto)
    from explored_trans [OF p this]
    have e: "explored g {MProxy r} (set (refs g r)) s s'" using proxy by (simp add: refs_def)
    have "sound g r"
      by (rule sound_node) (use e proxy in \<open>auto simp: explored_def well_formed_def expands_def\<close>)
    then show ?thesis
      using e proxy by (auto simp: explored_def all_marks_unfold [of g r] marks_def is_proxy_def)
  next
    case group
    then have g: "r \<notin> BUILTIN_TARGETS" "map_of (rg_proxies g) r = None" "is_group g r" by (simp_all add: expands_def)
    have nv: "r \<notin> visiting s" using Suc.prems(2) g by (auto split: if_splits)
    show ?thesis
    proof (cases "r \<in> reached_groups s")
      case True
      then have "s' = s" using Suc.prems(2) g nv by simp
      then show ?thesis using True Suc.prems(1) nv
        by (auto simp: explored_def search_inv_def reached_groups_seen)
    next
      case False
      then obtain uses s1 members s2 where run: "group_uses g r = Inr uses"
        "foldE (visit_provider (walk_visit n g) g) uses (enter_group r s) = Inr s1"
        "group_members g r = Inr members" "foldE (walk_visit n g) members s1 = Inr s2"
        "s' = leave_group r s2"
        using Suc.prems(2) g nv by (auto simp: bindE_Inr_iff)
      have i0: "search_inv g (enter_group r s)" using Suc.prems(1) by (auto simp: search_inv_def)
      have a: "explored g (\<Union>p \<in> set uses. use_marks g p) (\<Union>p \<in> set uses. set (provider_refs g p)) (enter_group r s) s1"
        by (rule explored_fold [OF explored_provider [OF Suc.IH] _ run(2) i0])
          (auto simp: use_marks_def split: if_splits)
      have i1: "search_inv g s1" by (rule explored_inv [OF a i0]) (auto simp: use_marks_def split: if_splits)
      have b: "explored g {} (set members) s1 s2" by (rule explored_visits [OF Suc.IH run(4) i1])
      from explored_trans [OF a b]
      have e: "explored g (\<Union>p \<in> set uses. use_marks g p) (set (refs g r)) (enter_group r s) s2"
        using run(1,3) g by (simp add: refs_def uses_of_def members_of_def)
      have "sound g r"
        by (rule sound_node) (use e run(1,3) in \<open>auto simp: explored_def well_formed_def\<close>)
      moreover have "marks g r = insert (MGroup r) (\<Union>p \<in> set uses. use_marks g p)"
        using group run(1) by (simp add: marks_def is_proxy_def expands_def uses_of_def)
      ultimately show ?thesis
        using e nv run(5) by (auto simp: explored_def all_marks_unfold [of g r])
    qed
  qed
qed

section \<open>More fuel never changes an outcome\<close>

definition deep :: "graph_error + 'a \<Rightarrow> bool" where
  "deep r \<longleftrightarrow> r = Inl RecursionLimit"

lemma deep_simps [simp]:
  "\<not> deep (Inr a)" "deep (Inl e) \<longleftrightarrow> e = RecursionLimit"
  "deep (bindE r k) \<longleftrightarrow> deep r \<or> (\<exists>a. r = Inr a \<and> deep (k a))"
  by (auto simp: deep_def bindE_def split: sum.splits)

lemma members_not_deep [simp]: "\<not> deep (group_members g r)"
  by (simp add: group_members_def deep_def split: option.splits json.splits)

lemma uses_not_deep [simp]: "\<not> deep (group_uses g r)"
  by (simp add: group_uses_def deep_def split: option.splits json.splits)

definition extends :: "(string \<Rightarrow> 's \<Rightarrow> graph_error + 's) \<Rightarrow> (string \<Rightarrow> 's \<Rightarrow> graph_error + 's) \<Rightarrow> bool" where
  "extends f f' \<longleftrightarrow> (\<forall>x s. \<not> deep (f x s) \<longrightarrow> f' x s = f x s)"

lemma extends_fold: "extends f f' \<Longrightarrow> \<not> deep (foldE f xs s) \<Longrightarrow> foldE f' xs s = foldE f xs s"
  by (induction xs arbitrary: s) (auto simp: extends_def split: sum.splits)

lemma extends_bind:
  "(\<not> deep r \<Longrightarrow> r' = r) \<Longrightarrow> (\<And>a. \<not> deep (k a) \<Longrightarrow> k' a = k a) \<Longrightarrow> \<not> deep (bindE r k) \<Longrightarrow>
   bindE r' k' = bindE r k"
  by (auto simp: bindE_def deep_def split: sum.splits)

lemma extends_provider:
  assumes "extends v v'"
  shows "extends (visit_provider v g) (visit_provider v' g)"
  unfolding extends_def
proof (intro allI impI)
  fix p s assume d: "\<not> deep (visit_provider v g p s)"
  show "visit_provider v' g p s = visit_provider v g p s"
  proof (cases "is_provider g p")
    case True
    then show ?thesis using d unfolding visit_provider_def
      by simp (rule extends_bind [OF extends_fold [OF assms] extends_fold [OF assms]]; simp)
  qed (simp add: visit_provider_def)
qed

lemma visit_extends: "extends (walk_visit n g) (walk_visit (Suc n) g)"
proof (induction n)
  case 0
  then show ?case by (simp add: extends_def)
next
  case (Suc n)
  note f = extends_fold [OF Suc] and p = extends_fold [OF extends_provider [OF Suc]]
  show ?case unfolding extends_def
  proof (intro allI impI)
    fix r s assume d: "\<not> deep (walk_visit (Suc n) g r s)"
    show "walk_visit (Suc (Suc n)) g r s = walk_visit (Suc n) g r s"
    proof (cases "expands g r \<and> r \<notin> visiting s \<and> r \<notin> reached_groups s")
      case False
      then show ?thesis using d
        by (subst (1 2) walk_visit.simps(2)) (auto simp: expands_def f split: option.splits if_splits)
    next
      case True
      then have body: "walk_visit (Suc k) g r s = bindE (group_uses g r) (\<lambda>uses.
           bindE (foldE (visit_provider (walk_visit k g) g) uses (enter_group r s)) (\<lambda>s1.
           bindE (group_members g r) (\<lambda>members.
           bindE (foldE (walk_visit k g) members s1) (\<lambda>s2. Inr (leave_group r s2)))))" for k
        by (simp add: expands_def)
      show ?thesis unfolding body
        by (rule extends_bind [OF refl], rule extends_bind [OF p], assumption,
            rule extends_bind [OF refl], rule extends_bind [OF f], assumption)
          (use d in \<open>simp_all only: body\<close>, simp_all)
    qed
  qed
qed

lemma visit_more_fuel:
  "\<not> deep (walk_visit n g r s) \<Longrightarrow> n \<le> m \<Longrightarrow> walk_visit m g r s = walk_visit n g r s"
proof (induction m)
  case (Suc m)
  then show ?case using visit_extends [of m g] by (cases "n = Suc m") (auto simp: extends_def)
qed simp

section \<open>A visit that must return\<close>

lemma foldE_Inr_rule:
  assumes "\<And>x s. x \<in> set xs \<Longrightarrow> P s \<Longrightarrow> \<exists>s'. f x s = Inr s' \<and> P s'" and "P s"
  shows "\<exists>s'. foldE f xs s = Inr s' \<and> P s'"
  using assms
proof (induction xs arbitrary: s)
  case (Cons x xs)
  obtain u where u: "f x s = Inr u" "P u" using Cons.prems(1) [of x s] Cons.prems(2) by auto
  have "\<exists>s'. foldE f xs u = Inr s' \<and> P s'"
    by (rule Cons.IH) (use Cons.prems(1) u(2) in auto)
  with u(1) show ?case by simp
qed simp

text \<open>Below a sound node that no open group can reach, the search returns.\<close>

definition returns :: "nat \<Rightarrow> runtime_graph \<Rightarrow> string \<Rightarrow> bool" where
  "returns n g r \<longleftrightarrow> (\<forall>s. search_inv g s \<longrightarrow> visiting s \<inter> reach g r = {} \<longrightarrow>
     (\<exists>s'. walk_visit n g r s = Inr s'))"

lemma returns_mono: "returns n g r \<Longrightarrow> n \<le> m \<Longrightarrow> returns m g r"
  unfolding returns_def using visit_more_fuel by (metis deep_simps(1))

lemma returns_step:
  assumes "returns n g x" and "x \<in> set (refs g r)" and "search_inv g s" and "V \<inter> reach g x = {}"
    and "visiting s = V"
  shows "\<exists>s'. walk_visit n g x s = Inr s' \<and> search_inv g s' \<and> visiting s' = V"
proof -
  obtain s' where s': "walk_visit n g x s = Inr s'" using assms unfolding returns_def by blast
  have e: "explored g {} {x} s s'" by (rule visit_explores [OF assms(3) s'])
  have "search_inv g s'" by (rule explored_inv [OF e assms(3)]) simp
  then show ?thesis using s' e assms(5) by (simp add: explored_def)
qed

lemma sound_returns_node:
  assumes s: "sound g r" and kids: "\<And>x. x \<in> set (refs g r) \<Longrightarrow> returns n g x"
  shows "returns (Suc n) g r"
  unfolding returns_def
proof (intro allI impI)
  fix s assume i: "search_inv g s" and v: "visiting s \<inter> reach g r = {}"
  have rv: "r \<notin> visiting s" using v by auto
  have step: "\<exists>s'. walk_visit n g x u = Inr s' \<and> search_inv g s' \<and> visiting s' = V"
    if "x \<in> set (refs g r)" "search_inv g u" "V \<inter> reach g x = {}" "visiting u = V" for x u V
    using returns_step [OF kids] that by blast
  have below: "visiting s \<inter> reach g x = {}" if "x \<in> set (refs g r)" for x
    using v reach_trans [OF reach_step [OF that]] by blast
  show "\<exists>s'. walk_visit (Suc n) g r s = Inr s'"
  proof (cases rule: node_cases [where r = r and g = g])
    case (proxy row)
    then have d: "refs g r = proxy_dialer row" by (simp add: refs_def)
    have "search_inv g (see_proxy r s)" using i by (auto simp: search_inv_def)
    then have "\<exists>s'. foldE (walk_visit n g) (proxy_dialer row) (see_proxy r s) = Inr s'
        \<and> search_inv g s' \<and> visiting s' = visiting s"
      by (intro foldE_Inr_rule step) (use below d in auto)
    then show ?thesis using proxy by auto
  next
    case group
    show ?thesis
    proof (cases "r \<in> reached_groups s")
      case True
      then show ?thesis using group rv by (simp add: expands_def)
    next
      case new: False
    from group obtain us ms where um: "group_uses g r = Inr us" "group_members g r = Inr ms"
      using s by (auto simp: sound_iff [of g r] well_formed_def)
    have rf: "refs g r = concat (map (provider_refs g) us) @ ms"
      using group um by (simp add: refs_def expands_def uses_of_def members_of_def)
    have self: "r \<notin> reach g x" if "x \<in> set (refs g r)" for x
      using sound_acyclic [OF s] rtranclp_into_tranclp2 [of "refers g" r x r] that
      by (auto simp: reach_def refers_def [of g r x])
    let ?V = "insert r (visiting s)"
    let ?P = "\<lambda>u. search_inv g u \<and> visiting u = ?V"
    have kid: "\<exists>s'. walk_visit n g x u = Inr s' \<and> ?P s'" if "x \<in> set (refs g r)" "?P u" for x u
      by (rule step) (use that below self in auto)
    have prov: "\<exists>s'. visit_provider (walk_visit n g) g p u = Inr s' \<and> ?P s'" if p: "p \<in> set us" and u: "?P u" for p u
    proof (cases "is_provider g p")
      case False
      have "search_inv g (see_unresolved p (see_provider p u))" using u by (auto simp: search_inv_def)
      with False u show ?thesis by (simp add: visit_provider_def)
    next
      case True
      have pu: "?P (see_provider p u)" using u by (auto simp: search_inv_def)
      have sub: "x \<in> set (refs g r)"
        if "x \<in> set (names_in (rg_provider_proxies g) p) \<or> x \<in> set (names_in (rg_provider_dialers g) p)" for x
        using that p True unfolding rf provider_refs_def by auto
      have "\<exists>w. foldE (walk_visit n g) (names_in (rg_provider_proxies g) p) (see_provider p u) = Inr w \<and> ?P w"
        by (rule foldE_Inr_rule [where P = ?P, OF _ pu], rule kid, rule sub) simp_all
      then obtain w where w: "foldE (walk_visit n g) (names_in (rg_provider_proxies g) p) (see_provider p u) = Inr w" "?P w"
        by blast
      have "\<exists>s'. foldE (walk_visit n g) (names_in (rg_provider_dialers g) p) w = Inr s' \<and> ?P s'"
        by (rule foldE_Inr_rule [where P = ?P, OF _ w(2)], rule kid, rule sub) simp_all
      with True w(1) show ?thesis by (simp add: visit_provider_def)
    qed
    have p0: "?P (enter_group r s)" using i by (auto simp: search_inv_def)
    have "\<exists>u. foldE (visit_provider (walk_visit n g) g) us (enter_group r s) = Inr u \<and> ?P u"
      by (rule foldE_Inr_rule [where P = ?P, OF _ p0], rule prov) simp_all
    then obtain s1 where s1: "foldE (visit_provider (walk_visit n g) g) us (enter_group r s) = Inr s1" "?P s1"
      by blast
    have "\<exists>u. foldE (walk_visit n g) ms s1 = Inr u \<and> ?P u"
      by (rule foldE_Inr_rule [where P = ?P, OF _ s1(2)], rule kid) (simp_all add: rf)
    then obtain s2 where "foldE (walk_visit n g) ms s1 = Inr s2" by blast
    then show ?thesis using group rv um s1(1) new by (simp add: expands_def)
    qed
  qed simp_all
qed

lemma sound_returns: "sound g r \<Longrightarrow> \<exists>n. returns n g r"
proof (induction rule: sound.induct)
  case (sound_node r)
  have "\<exists>n. \<forall>x \<in> X. returns n g x" if "finite X" "\<forall>x \<in> X. \<exists>n. returns n g x" for X
    using that
  proof (induction X rule: finite_induct)
    case (insert x X)
    then obtain n k where "\<forall>x \<in> X. returns n g x" "returns k g x" by auto
    then have "\<forall>y \<in> insert x X. returns (max n k) g y" by (auto intro: returns_mono)
    then show ?case ..
  qed simp
  then obtain n where "\<forall>x \<in> set (refs g r). returns n g x"
    using sound_node(3) by (meson finite_set)
  then show ?case using sound_returns_node sound.intros sound_node(1,2) by meson
qed

section \<open>The bound on the depth\<close>

text \<open>The next proxy along a chain of dialers.\<close>

definition dialer_next :: "runtime_graph \<Rightarrow> string \<Rightarrow> string option" where
  "dialer_next g r =
     (if r \<in> BUILTIN_TARGETS then None
      else (case map_of (rg_proxies g) r of None \<Rightarrow> None | Some row \<Rightarrow> row_dialer row))"

definition dials :: "runtime_graph \<Rightarrow> string \<Rightarrow> string \<Rightarrow> bool" where
  "dials g r r' \<longleftrightarrow> dialer_next g r = Some r'"

fun ends_within :: "nat \<Rightarrow> runtime_graph \<Rightarrow> string \<Rightarrow> bool" where
  "ends_within 0 g r \<longleftrightarrow> dialer_next g r = None"
| "ends_within (Suc d) g r \<longleftrightarrow> (case dialer_next g r of None \<Rightarrow> True | Some r' \<Rightarrow> ends_within d g r')"

lemma dialer_refs: "is_proxy g r \<Longrightarrow> refs g r = (case dialer_next g r of None \<Rightarrow> [] | Some d \<Rightarrow> [d])"
  by (auto simp: is_proxy_def refs_def dialer_next_def proxy_dialer_def)

lemma dials_refers: "dials g r x \<Longrightarrow> refers g r x"
  by (auto simp: dials_def refers_def dialer_next_def refs_def proxy_dialer_def split: if_splits option.splits)

lemma visiting_kept: "walk_visit n g r s = Inr s' \<Longrightarrow> visiting s' = visiting s"
proof (induction n arbitrary: r s s')
  case (Suc n)
  have f: "visiting u' = V" if "foldE (walk_visit n g) xs u = Inr u'" "visiting u = V" for xs u u' V
    by (rule foldE_invariant [OF that(1), where P = "\<lambda>u. visiting u = V"]) (use that(2) Suc.IH in auto)
  have p: "visiting u' = V" if "visit_provider (walk_visit n g) g q u = Inr u'" "visiting u = V" for q u u' V
    using that f by (fastforce simp: visit_provider_def bindE_Inr_iff split: if_splits)
  have fp: "visiting u' = V"
    if "foldE (visit_provider (walk_visit n g) g) xs u = Inr u'" "visiting u = V" for xs u u' V
    by (rule foldE_invariant [OF that(1), where P = "\<lambda>u. visiting u = V"]) (use that(2) p in auto)
  show ?case
  proof (cases "expands g r \<and> r \<notin> visiting s \<and> r \<notin> reached_groups s")
    case True
    then obtain uses s1 members s2 where "r \<notin> visiting s"
      "foldE (visit_provider (walk_visit n g) g) uses (enter_group r s) = Inr s1"
      "foldE (walk_visit n g) members s1 = Inr s2" "s' = leave_group r s2"
      using Suc.prems by (auto simp: expands_def bindE_Inr_iff)
    moreover from this have "visiting s1 = insert r (visiting s)" using fp by simp
    ultimately show ?thesis using f by auto
  next
    case False
    then show ?thesis using Suc.prems f
      by (auto simp: expands_def split: option.splits if_splits)
  qed
qed simp

lemma foldE_not_deep:
  assumes "P s" and "\<forall>x \<in> set xs. \<forall>s. P s \<longrightarrow> \<not> deep (f x s)"
    and "\<forall>x \<in> set xs. \<forall>s s'. P s \<longrightarrow> f x s = Inr s' \<longrightarrow> P s'"
  shows "\<not> deep (foldE f xs s)"
  using assms
proof (induction xs arbitrary: s)
  case (Cons x xs)
  show ?case
  proof (cases "f x s")
    case (Inl e)
    moreover have "\<not> deep (f x s)" using Cons.prems(1,2) by simp
    ultimately show ?thesis by (simp add: deep_def)
  next
    case (Inr u)
    have "P u" using Cons.prems(1,3) Inr by (meson list.set_intros(1))
    moreover have "\<forall>x \<in> set xs. \<forall>s. P s \<longrightarrow> \<not> deep (f x s)" using Cons.prems(2) by (meson list.set_intros(2))
    moreover have "\<forall>x \<in> set xs. \<forall>s s'. P s \<longrightarrow> f x s = Inr s' \<longrightarrow> P s'"
      using Cons.prems(3) by (meson list.set_intros(2))
    ultimately have "\<not> deep (foldE f xs u)" by (rule Cons.IH)
    then show ?thesis using Inr by simp
  qed
qed simp

definition open_groups :: "runtime_graph \<Rightarrow> string set \<Rightarrow> nat" where
  "open_groups g V = card (set (dict_keys (rg_groups g)) - V)"

lemma open_groups_insert:
  assumes "is_group g r" and "r \<notin> V"
  shows "open_groups g V = Suc (open_groups g (insert r V))"
proof -
  let ?A = "set (dict_keys (rg_groups g)) - V"
  have "Suc (card (?A - {r})) = card ?A"
    by (rule card_Suc_Diff1 [OF _ DiffI [OF assms]]) simp
  moreover have "?A - {r} = set (dict_keys (rg_groups g)) - insert r V" by blast
  ultimately show ?thesis by (simp add: open_groups_def)
qed

lemma visit_bounded:
  assumes "\<forall>x \<in> reach g r. ends_within P g x" and "ends_within d g r"
    and "open_groups g (visiting s) * (P + 2) + d + 1 \<le> n"
  shows "\<not> deep (walk_visit n g r s)"
  using assms
proof (induction n arbitrary: d r s)
  case (Suc n)
  have kids: "\<forall>y \<in> reach g x. ends_within P g y" if "x \<in> set (refs g r)" for x
    using Suc.prems(1) reach_trans [OF reach_step [OF that]] by blast
  show ?case
  proof (cases rule: node_cases [where r = r and g = g])
    case (proxy row)
    show ?thesis
    proof (cases "row_dialer row")
      case None
      then show ?thesis using proxy by (simp add: proxy_dialer_def)
    next
      case (Some x)
      then obtain d' where d: "d = Suc d'" "ends_within d' g x"
        using Suc.prems(2) proxy by (cases d) (simp_all add: dialer_next_def)
      have x: "x \<in> set (refs g r)" using proxy Some by (simp add: refs_def proxy_dialer_def)
      have "\<not> deep (walk_visit n g x (see_proxy r s))"
        by (rule Suc.IH [OF kids [OF x] d(2)]) (use Suc.prems(3) d(1) in simp)
      then show ?thesis using proxy Some by (auto simp: proxy_dialer_def split: sum.splits)
    qed
  next
    case group
    show ?thesis
    proof (cases "r \<in> reached_groups s \<or> r \<in> visiting s")
      case True
      then show ?thesis using group by (auto simp: expands_def)
    next
      case new: False
    let ?P = "\<lambda>u. visiting u = insert r (visiting s)"
    have bound: "open_groups g (insert r (visiting s)) * (P + 2) + P + 1 \<le> n"
      using Suc.prems(3) group new open_groups_insert [of r g "visiting s"] by (simp add: expands_def)
    have kid: "\<not> deep (walk_visit n g x u)" if "x \<in> set (refs g r)" "?P u" for x u
      by (rule Suc.IH [OF kids [OF that(1)]])
        (use Suc.prems(1) reach_step [OF that(1)] that(2) bound in auto)
    have kids_fold: "\<not> deep (foldE (walk_visit n g) xs u)" if "set xs \<subseteq> set (refs g r)" "?P u" for xs u
      by (rule foldE_not_deep [where P = ?P]) (use that kid visiting_kept in auto)
    have keep: "?P u'" if "foldE (walk_visit n g) xs u = Inr u'" "?P u" for xs u u'
      by (rule foldE_invariant [OF that(1), where P = ?P]) (use that(2) visiting_kept in auto)
    have prov: "\<not> deep (visit_provider (walk_visit n g) g p u)"
      if "p \<in> set (uses_of g r)" "?P u" for p u
    proof -
      have "set (provider_refs g p) \<subseteq> set (refs g r)"
        using that(1) group(1) by (auto simp: refs_def expands_def)
      then have sub: "set (names_in (rg_provider_proxies g) p) \<subseteq> set (refs g r)"
          "set (names_in (rg_provider_dialers g) p) \<subseteq> set (refs g r)" if "is_provider g p"
        using that by (auto simp: provider_refs_def)
      show ?thesis
      proof (cases "is_provider g p")
        case True
        have u: "?P (see_provider p u)" using that(2) by simp
        show ?thesis
          using kids_fold [OF sub(1) [OF True] u] kids_fold [OF sub(2) [OF True] keep [OF _ u]] True
          by (auto simp: visit_provider_def simp del: image_iff)
      qed (simp add: visit_provider_def)
    qed
    have keep_prov: "?P u'" if "visit_provider (walk_visit n g) g p u = Inr u'" "?P u" for p u u'
      using that keep by (fastforce simp: visit_provider_def bindE_Inr_iff split: if_splits)
    have "\<not> deep (foldE (visit_provider (walk_visit n g) g) us (enter_group r s))" if "group_uses g r = Inr us" for us
      by (rule foldE_not_deep [where P = ?P]) (use that prov keep_prov in \<open>auto simp: uses_of_def\<close>)
    moreover have "?P u" if "foldE (visit_provider (walk_visit n g) g) us (enter_group r s) = Inr u" for us u
      by (rule foldE_invariant [OF that, where P = ?P]) (use keep_prov in auto)
    moreover have "set ms \<subseteq> set (refs g r)" if "group_members g r = Inr ms" for ms
      using that group(1) by (simp add: refs_def expands_def members_of_def)
    ultimately show ?thesis using group new kids_fold by (auto simp: expands_def)
    qed
  qed simp_all
qed simp

end
