(* ===== verification/GraphProperties.thy ===== *)
theory GraphProperties
  imports GraphFacts
begin

text \<open>
  The theorems on the runtime graph: what a walk returns and when it succeeds, when its recursion
  has no bound, and what the group-only traversals return.
\<close>

section \<open>Dialer cycles\<close>

lemma long_chain:
  "\<not> ends_within d g r \<Longrightarrow> \<exists>f. f 0 = r \<and> (\<forall>i \<le> d. dials g (f i) (f (Suc i)))"
proof (induction d arbitrary: r)
  case 0
  then obtain x where "dialer_next g r = Some x" by auto
  then show ?case by (intro exI [of _ "\<lambda>i. if i = 0 then r else x"]) (simp add: dials_def)
next
  case (Suc d)
  then obtain x where x: "dialer_next g r = Some x" "\<not> ends_within d g x" by (auto split: option.splits)
  then obtain f where f: "f 0 = x" "\<forall>i \<le> d. dials g (f i) (f (Suc i))" using Suc.IH by blast
  have "dials g (case_nat r f i) (case_nat r f (Suc i))" if "i \<le> Suc d" for i
    using that x(1) f by (cases i) (simp_all add: dials_def)
  then show ?case by (intro exI [of _ "case_nat r f"]) simp
qed

lemma chain_path:
  assumes "\<forall>i \<le> d. dials g (f i) (f (Suc i))"
  shows "i \<le> j \<Longrightarrow> j \<le> Suc d \<Longrightarrow> (dials g)\<^sup>*\<^sup>* (f i) (f j)"
proof (induction j)
  case (Suc j)
  then show ?case using assms
    by (cases "i = Suc j") (auto intro: rtranclp.rtrancl_into_rtrancl)
qed simp

lemma endless_cycle:
  assumes "\<not> ends_within (length (rg_proxies g)) g r"
  shows "\<exists>p. (dials g)\<^sup>*\<^sup>* r p \<and> (dials g)\<^sup>+\<^sup>+ p p"
proof -
  let ?P = "length (rg_proxies g)" and ?K = "set (dict_keys (rg_proxies g))"
  obtain f where f: "f 0 = r" "\<forall>i \<le> ?P. dials g (f i) (f (Suc i))" using long_chain [OF assms] by blast
  have "f i \<in> ?K" if "i \<le> ?P" for i
  proof -
    have "map_of (rg_proxies g) (f i) \<noteq> None"
      using f(2) that by (auto simp: dials_def dialer_next_def split: if_splits option.splits)
    then show ?thesis by (simp add: map_of_eq_None_iff)
  qed
  then have "f ` {..?P} \<subseteq> ?K" by blast
  then have "card (f ` {..?P}) \<le> card ?K" by (intro card_mono) simp_all
  also have "\<dots> \<le> ?P" using card_length [of "dict_keys (rg_proxies g)"] by simp
  finally have "\<not> inj_on f {..?P}" by (intro pigeonhole) simp
  then obtain i j where ij: "i < j" "j \<le> ?P" "f i = f j"
    unfolding inj_on_def by (metis atMost_iff linorder_neqE_nat)
  have "(dials g)\<^sup>*\<^sup>* r (f i)" using chain_path [OF f(2), of 0 i] f(1) ij by simp
  moreover have "dials g (f i) (f (Suc i))" using f(2) ij(1,2) by simp
  moreover have "(dials g)\<^sup>*\<^sup>* (f (Suc i)) (f i)" using chain_path [OF f(2), of "Suc i" j] ij by simp
  ultimately show ?thesis using rtranclp_into_tranclp2 by metis
qed

lemma dials_reach: "(dials g)\<^sup>*\<^sup>* r p \<Longrightarrow> p \<in> reach g r"
  unfolding reach_def by (auto elim: rtranclp_mono [THEN predicate2D, rotated] dest: dials_refers)

lemma cycle_never_returns: "(dials g)\<^sup>+\<^sup>+ p p \<Longrightarrow> walk_visit n g p s = Inl RecursionLimit"
proof (induction n arbitrary: p s)
  case (Suc n)
  obtain x where x: "dials g p x" "(dials g)\<^sup>*\<^sup>* x p" using Suc.prems by (blast dest: tranclpD)
  then have "(dials g)\<^sup>+\<^sup>+ x x" by (meson rtranclp_into_tranclp1)
  with Suc.IH have "walk_visit n g x u = Inl RecursionLimit" for u by blast
  with x(1) show ?case
    by (auto simp: dials_def dialer_next_def proxy_dialer_def split: if_splits option.splits)
qed simp

lemma dials_trancl: "(dials g)\<^sup>+\<^sup>+ p q \<Longrightarrow> (refers g)\<^sup>+\<^sup>+ p q"
  by (induction rule: tranclp_induct) (auto dest: dials_refers intro: tranclp.trancl_into_trancl)

lemma walk_deep:
  assumes "\<forall>p \<in> reach g t. \<not> (dials g)\<^sup>+\<^sup>+ p p"
  shows "\<not> deep (walk_visit (walk_bound g) g t walk_start)"
proof (rule visit_bounded)
  have e: "ends_within (length (rg_proxies g)) g x" if "x \<in> reach g t" for x
    using endless_cycle assms dials_reach reach_trans [OF that] by blast
  then show "\<forall>x \<in> reach g t. ends_within (length (rg_proxies g)) g x" by blast
  show "ends_within (length (rg_proxies g)) g t" using e by simp
  have "open_groups g {} \<le> length (rg_groups g)"
    using card_length [of "dict_keys (rg_groups g)"] by (simp add: open_groups_def)
  then have "open_groups g {} * (length (rg_proxies g) + 2) \<le> length (rg_groups g) * (length (rg_proxies g) + 2)"
    by (rule mult_le_mono1)
  then show "open_groups g (visiting walk_start) * (length (rg_proxies g) + 2) + length (rg_proxies g) + 1
      \<le> walk_bound g"
    by (simp add: walk_bound_def walk_start_def)
qed

text \<open>
  C22.  The only way in which \<^verbatim>\<open>walk\<close> recurses without bound is a cycle of proxies through their
  \<^verbatim>\<open>dialer-proxy\<close> fields: where no such cycle is reachable the search ends within its bound, and
  from a proxy on such a cycle no depth is enough.  The cycle guard of the code covers groups only.
\<close>

theorem walk_recursion:
  "(walk g t = Inl RecursionLimit \<longrightarrow> (\<exists>p \<in> reach g t. (dials g)\<^sup>+\<^sup>+ p p)) \<and>
   ((dials g)\<^sup>+\<^sup>+ t t \<longrightarrow> (\<forall>depth s. walk_visit depth g t s = Inl RecursionLimit))"
proof (intro conjI impI allI)
  assume "walk g t = Inl RecursionLimit"
  then show "\<exists>p \<in> reach g t. (dials g)\<^sup>+\<^sup>+ p p"
    using walk_deep [of g t] by (auto simp: walk_def bindE_Inl_iff deep_def)
qed (rule cycle_never_returns)

section \<open>What a walk returns\<close>

definition reachability_of :: "runtime_graph \<Rightarrow> string \<Rightarrow> graph_reachability" where
  "reachability_of g t =
     \<lparr>reached_groups = {r \<in> reach g t. expands g r},
      reached_providers = {p. \<exists>r \<in> reach g t. expands g r \<and> p \<in> set (uses_of g r)},
      reached_proxies = {r \<in> reach g t. is_proxy g r},
      reached_builtins = reach g t \<inter> BUILTIN_TARGETS,
      unresolved = {r \<in> reach g t. r \<notin> BUILTIN_TARGETS \<and> \<not> is_proxy g r \<and> \<not> expands g r}
        \<union> {p. \<not> is_provider g p \<and> (\<exists>r \<in> reach g t. expands g r \<and> p \<in> set (uses_of g r))}\<rparr>"

lemma marks_iff:
  "MGroup x \<in> marks g r \<longleftrightarrow> x = r \<and> expands g r"
  "MProxy x \<in> marks g r \<longleftrightarrow> x = r \<and> is_proxy g r"
  "MBuiltin x \<in> marks g r \<longleftrightarrow> x = r \<and> r \<in> BUILTIN_TARGETS"
  "MProvider x \<in> marks g r \<longleftrightarrow> expands g r \<and> x \<in> set (uses_of g r)"
  "MMissing x \<in> marks g r \<longleftrightarrow> (x = r \<and> r \<notin> BUILTIN_TARGETS \<and> \<not> is_proxy g r \<and> \<not> expands g r)
     \<or> (expands g r \<and> x \<in> set (uses_of g r) \<and> \<not> is_provider g x)"
  by (auto simp: marks_def use_marks_def expands_def is_proxy_def split: if_splits)

lemma seen_iff:
  "MGroup x \<in> seen s \<longleftrightarrow> x \<in> reached_groups s"
  "MProxy x \<in> seen s \<longleftrightarrow> x \<in> reached_proxies s"
  "MBuiltin x \<in> seen s \<longleftrightarrow> x \<in> reached_builtins s"
  "MProvider x \<in> seen s \<longleftrightarrow> x \<in> reached_providers s"
  "MMissing x \<in> seen s \<longleftrightarrow> x \<in> unresolved s"
  by (auto simp: seen_def)

lemma truncate_reachability:
  assumes "seen s = all_marks g t"
  shows "graph_reachability.truncate s = reachability_of g t"
proof -
  have m: "x \<in> seen s \<longleftrightarrow> (\<exists>r \<in> reach g t. x \<in> marks g r)" for x
    using assms by (simp add: all_marks_def)
  note c = seen_iff [of _ s, symmetric, unfolded m marks_iff]
  have "reached_groups s = reached_groups (reachability_of g t)"
    by (simp add: reachability_of_def set_eq_iff c)
  moreover have "reached_providers s = reached_providers (reachability_of g t)"
    by (simp add: reachability_of_def set_eq_iff c)
  moreover have "reached_proxies s = reached_proxies (reachability_of g t)"
    by (simp add: reachability_of_def set_eq_iff c)
  moreover have "reached_builtins s = reached_builtins (reachability_of g t)"
    by (simp add: reachability_of_def set_eq_iff c)
  moreover have "unresolved s = unresolved (reachability_of g t)"
    by (simp add: reachability_of_def set_eq_iff c del: image_iff) blast
  ultimately show ?thesis by (simp add: graph_reachability.truncate_def)
qed

lemma search_start: "search_inv g walk_start" "visiting walk_start = {}" "seen walk_start = {}"
  by (simp_all add: search_inv_def walk_start_def seen_def)

lemma walk_result:
  assumes "walk g t = Inr R"
  shows "sound g t \<and> R = reachability_of g t"
proof -
  obtain s where s: "walk_visit (walk_bound g) g t walk_start = Inr s" "R = graph_reachability.truncate s"
    using assms by (auto simp: walk_def bindE_Inr_iff)
  have "explored g {} {t} walk_start s" by (rule visit_explores [OF search_start(1) s(1)])
  then show ?thesis using s(2) search_start(3) by (auto simp: explored_def truncate_reachability)
qed

text \<open>
  C21.  \<^verbatim>\<open>walk\<close> succeeds exactly when every group reachable from the target has well-formed
  reference lists and nothing reachable refers back to itself, through members, provider proxies
  or dialers; it then returns exactly the reachable groups, proxies and builtins, the providers
  that reachable groups use, and the references that resolve to nothing.
\<close>

theorem walk_exact:
  "walk g t = Inr R \<longleftrightarrow>
     (\<forall>r \<in> reach g t. well_formed g r \<and> \<not> (refers g)\<^sup>+\<^sup>+ r r) \<and> R = reachability_of g t"
proof -
  note start = search_start(1) [of g] search_start(2,3)
  have result: "sound g t \<and> R = reachability_of g t" if "walk g t = Inr R" for R
    by (rule walk_result [OF that])
  have succeeds: "\<exists>R. walk g t = Inr R" if ok: "sound g t"
  proof -
    obtain n where n: "returns n g t" using sound_returns [OF ok] ..
    let ?m = "max n (walk_bound g)"
    have "returns ?m g t" using returns_mono [OF n] by simp
    then obtain s where s: "walk_visit ?m g t walk_start = Inr s"
      using start by (auto simp: returns_def)
    have "\<forall>p \<in> reach g t. \<not> (dials g)\<^sup>+\<^sup>+ p p"
      using ok dials_trancl unfolding sound_characterisation by blast
    from visit_more_fuel [OF walk_deep [OF this], of ?m]
    have "walk_visit ?m g t walk_start = walk_visit (walk_bound g) g t walk_start" by simp
    with s have "walk_visit (walk_bound g) g t walk_start = Inr s" by simp
    then show ?thesis by (simp add: walk_def)
  qed
  show ?thesis using result succeeds unfolding sound_characterisation by (metis sum.inject(2))
qed

text \<open>A document with a group of two members, one provider and a chained proxy.\<close>

definition demo_graph :: runtime_graph where
  "demo_graph =
     \<lparr>rg_groups = [(''AUTO'', [(''proxies'', JList [JStr ''p1'', JStr ''DIRECT'']), (''use'', JList [JStr ''air''])])],
      rg_providers = [(''air'', [])],
      rg_proxies = [(''p1'', [(''dialer-proxy'', JStr ''p2'')]), (''p2'', [])],
      rg_provider_proxies = [(''air'', [''p2''])],
      rg_provider_dialers = [(''air'', [])]\<rparr>"

lemma demo_walk:
  "walk demo_graph ''AUTO'' = Inr \<lparr>reached_groups = {''AUTO''}, reached_providers = {''air''},
     reached_proxies = {''p1'', ''p2''}, reached_builtins = {''DIRECT''}, unresolved = {}\<rparr>"
  by (auto simp: walk_def walk_bound_def demo_graph_def walk_start_def BUILTIN_TARGETS_def group_uses_def
    group_members_def get_or_def enter_group_def leave_group_def see_proxy_def see_builtin_def see_provider_def
    visit_provider_def names_in_def proxy_dialer_def row_dialer_def json_get_def
    graph_reachability.truncate_def eval_nat_numeral)

theorem walk_exact_witness:
  "well_formed demo_graph ''AUTO'' \<and> \<not> (refers demo_graph)\<^sup>+\<^sup>+ ''AUTO'' ''AUTO''"
  using demo_walk reach_refl [of "''AUTO''" demo_graph] unfolding walk_exact by simp

text \<open>A proxy that dials through itself.\<close>

definition self_dialer :: runtime_graph where
  "self_dialer = \<lparr>rg_groups = [], rg_providers = [], rg_proxies = [(''p1'', [(''dialer-proxy'', JStr ''p1'')])],
     rg_provider_proxies = [], rg_provider_dialers = []\<rparr>"

theorem walk_recursion_witness: "walk self_dialer ''p1'' = Inl RecursionLimit"
proof -
  have "(dials self_dialer)\<^sup>+\<^sup>+ ''p1'' ''p1''"
    by (rule tranclp.r_into_trancl)
      (simp add: dials_def dialer_next_def self_dialer_def BUILTIN_TARGETS_def row_dialer_def json_get_def)
  then show ?thesis using walk_recursion [of self_dialer "''p1''"] by (simp add: walk_def)
qed

end
