(* ===== verification/GroupTraversals.thy ===== *)
theory GroupTraversals
  imports GraphProperties
begin

text \<open>
  The traversals over group members only: the groups reachable from a set of names, the order of
  the providers below a target, and the cycles among groups.
\<close>

definition group_edge :: "runtime_graph \<Rightarrow> string \<Rightarrow> string \<Rightarrow> bool" where
  "group_edge g a b \<longleftrightarrow> is_group g b \<and> b \<in> set (members_of g a)"

definition closure :: "runtime_graph \<Rightarrow> string set \<Rightarrow> string set" where
  "closure g X = {b. \<exists>a \<in> X. (group_edge g)\<^sup>*\<^sup>* a b}"

lemma closure_incr: "X \<subseteq> closure g X"
  by (auto simp: closure_def)

lemma closure_closed: "\<forall>x \<in> F. \<forall>y. group_edge g x y \<longrightarrow> y \<in> F \<Longrightarrow> closure g F = F"
proof
  assume c: "\<forall>x \<in> F. \<forall>y. group_edge g x y \<longrightarrow> y \<in> F"
  have "b \<in> F" if "(group_edge g)\<^sup>*\<^sup>* a b" "a \<in> F" for a b
    using that c by (induction rule: rtranclp_induct) auto
  then show "closure g F \<subseteq> F" by (auto simp: closure_def)
qed (rule closure_incr)

lemma closure_absorb:
  assumes "Y \<subseteq> closure g X"
  shows "closure g (X \<union> Y) = closure g X"
proof -
  have "b \<in> closure g X" if "y \<in> Y" "(group_edge g)\<^sup>*\<^sup>* y b" for y b
  proof -
    have "y \<in> closure g X" using assms that(1) by blast
    then obtain a where "a \<in> X" "(group_edge g)\<^sup>*\<^sup>* a y" by (auto simp: closure_def)
    then show ?thesis using that(2) by (auto simp: closure_def intro: rtranclp_trans)
  qed
  then show ?thesis by (auto simp: closure_def)
qed

lemma edge_closure: "a \<in> X \<Longrightarrow> group_edge g a b \<Longrightarrow> b \<in> closure g X"
  by (auto simp: closure_def)

lemma members_edges: "group_members g a = Inr ms \<Longrightarrow> members_of g a = ms"
  by (simp add: members_of_def)

section \<open>\<^verbatim>\<open>reachable_groups\<close>\<close>

lemma group_search_exact:
  assumes "\<forall>x \<in> found. \<forall>y. group_edge g x y \<longrightarrow> y \<in> found \<union> set pending"
  shows "case group_search g found pending of
     Inr S \<Rightarrow> S = closure g (found \<union> set pending)
   | Inl e \<Rightarrow> \<exists>b \<in> closure g (found \<union> set pending). group_members g b = Inl e"
  using assms
proof (induction g found pending rule: group_search.induct)
  case (1 g found pending)
  show ?case
  proof (cases "pending = []")
    case True
    then have "group_search g found pending = Inr found" by (subst group_search.simps) simp
    then show ?thesis using closure_closed [of found g] 1(3) True by simp
  next
    case False
    define name rest where nr: "name = last pending" "rest = butlast pending"
    have p: "pending = rest @ [name]" using False by (simp add: nr)
    then have sp: "set pending = insert name (set rest)" by simp
    show ?thesis
    proof (cases "name \<in> found")
      case True
      then have "group_search g found pending = group_search g found rest"
        using False by (subst group_search.simps) (simp add: nr)
      moreover have same: "found \<union> set pending = found \<union> set rest" using True sp by auto
      ultimately show ?thesis using 1(1) [OF False nr(1) nr(2) True] 1(3) unfolding same by simp
    next
      case new: False
      show ?thesis
      proof (cases "group_members g name")
        case (Inl e)
        then have "group_search g found pending = Inl e"
          using False new by (subst group_search.simps) (simp add: nr)
        moreover have "name \<in> closure g (found \<union> set pending)"
          by (rule subsetD [OF closure_incr]) (simp add: sp)
        ultimately show ?thesis using Inl by (simp del: set_append) blast
      next
        case (Inr ms)
        define next_pending where
          np: "next_pending = rest @ filter (\<lambda>m. is_group g m \<and> m \<notin> insert name found) ms"
        have step: "group_search g found pending = group_search g (insert name found) next_pending"
          using False new Inr by (subst group_search.simps) (simp add: nr np Let_def)
        have sn: "set next_pending = set rest \<union> {m \<in> set ms. is_group g m \<and> m \<noteq> name \<and> m \<notin> found}"
          by (auto simp: np)
        have "closure g (found \<union> set pending \<union> {m \<in> set ms. is_group g m \<and> m \<noteq> name \<and> m \<notin> found})
            = closure g (found \<union> set pending)"
        proof (rule closure_absorb, rule subsetI)
          fix m assume "m \<in> {m \<in> set ms. is_group g m \<and> m \<noteq> name \<and> m \<notin> found}"
          then have "group_edge g name m" using Inr by (simp add: group_edge_def members_of_def)
          then show "m \<in> closure g (found \<union> set pending)" by (rule edge_closure [rotated]) (simp add: sp)
        qed
        moreover have "found \<union> set pending \<union> {m \<in> set ms. is_group g m \<and> m \<noteq> name \<and> m \<notin> found}
            = insert name found \<union> set next_pending" using sp sn by auto
        ultimately have same: "closure g (insert name found \<union> set next_pending) = closure g (found \<union> set pending)"
          by simp
        have "\<forall>x \<in> insert name found. \<forall>y. group_edge g x y \<longrightarrow> y \<in> insert name found \<union> set next_pending"
          using 1(3) sp sn Inr by (auto simp: group_edge_def members_of_def)
        then show ?thesis
          using 1(2) [OF False nr(1) nr(2) new Inr] unfolding step np [symmetric] same by simp
      qed
    qed
  qed
qed

text \<open>
  \<^verbatim>\<open>reachable_groups\<close> ends on every document.  It returns exactly the groups reachable from
  those start names that are groups, following members that are groups, and it fails only with the
  error of a group it reaches.
\<close>

theorem reachable_groups_exact:
  "case reachable_groups g starts of
     Inr S \<Rightarrow> S = closure g {a \<in> set starts. is_group g a}
   | Inl e \<Rightarrow> \<exists>b \<in> closure g {a \<in> set starts. is_group g a}. group_members g b = Inl e"
proof -
  have s: "{} \<union> set (filter (is_group g) starts) = {a \<in> set starts. is_group g a}" by auto
  show ?thesis
    unfolding reachable_groups_def
    by (rule group_search_exact [of "{}" g "filter (is_group g) starts", unfolded s]) simp
qed

section \<open>\<^verbatim>\<open>provider_order\<close>\<close>

definition used_providers :: "runtime_graph \<Rightarrow> string set \<Rightarrow> string set" where
  "used_providers g X = {p. is_provider g p \<and> (\<exists>a \<in> X. is_group g a \<and> p \<in> set (uses_of g a))}"

lemma add_providers_set:
  "set (add_providers g ps qs) = set qs \<union> {p \<in> set ps. is_provider g p}"
  by (induction ps arbitrary: qs) auto

lemma add_providers_distinct: "distinct qs \<Longrightarrow> distinct (add_providers g ps qs)"
  by (induction ps arbitrary: qs) auto

lemma order_search_exact:
  assumes "\<forall>x \<in> visited. \<forall>y. is_group g x \<and> group_edge g x y \<longrightarrow> y \<in> visited \<union> set pending"
    and "set providers = used_providers g visited" and "distinct providers"
    and "order_search g visited providers pending = Inr qs"
  shows "distinct qs \<and> set qs = used_providers g (closure g {a \<in> visited \<union> set pending. is_group g a})"
  using assms
proof (induction g visited providers pending rule: order_search.induct)
  case (1 g visited providers)
  have "\<forall>x \<in> {a \<in> visited. is_group g a}. \<forall>y. group_edge g x y \<longrightarrow> y \<in> {a \<in> visited. is_group g a}"
    using 1(1) by (auto simp: group_edge_def)
  from closure_closed [OF this] show ?case using 1 by (auto simp: used_providers_def)
next
  case (2 g visited providers name pending)
  consider (seen) "name \<in> visited" | (other) "name \<notin> visited" "\<not> is_group g name"
    | (new) "name \<notin> visited" "is_group g name" by blast
  then show ?case
  proof cases
    case seen
    then show ?thesis using 2(1) [OF seen] 2(4-7) by (simp add: insert_absorb)
  next
    case other
    have "used_providers g (insert name visited) = used_providers g visited"
      using other by (auto simp: used_providers_def)
    moreover have "{a \<in> insert name visited \<union> set pending. is_group g a} = {a \<in> visited \<union> set (name # pending). is_group g a}"
      by auto
    ultimately show ?thesis using 2(2) [OF other(1)] 2(4-7) other by simp
  next
    case new
    then obtain us ms where run: "group_uses g name = Inr us" "group_members g name = Inr ms"
      "order_search g (insert name visited) (add_providers g us providers) (pending @ filter (is_group g) ms) = Inr qs"
      using 2(7) by (auto split: sum.splits)
    let ?X = "{a \<in> visited \<union> set (name # pending). is_group g a}"
      and ?Y = "{m \<in> set ms. is_group g m}"
    have "closure g (?X \<union> ?Y) = closure g ?X"
    proof (rule closure_absorb, rule subsetI)
      fix m assume "m \<in> ?Y"
      then have "group_edge g name m" using run(2) by (simp add: group_edge_def members_of_def)
      then show "m \<in> closure g ?X" by (rule edge_closure [rotated]) (use new in simp)
    qed
    moreover have "?X \<union> ?Y = {a \<in> insert name visited \<union> set (pending @ filter (is_group g) ms). is_group g a}" by auto
    moreover have "set (add_providers g us providers) = used_providers g (insert name visited)"
      using 2(5) new run(1) by (auto simp: add_providers_set used_providers_def uses_of_def)
    moreover have "\<forall>x \<in> insert name visited. \<forall>y. is_group g x \<and> group_edge g x y \<longrightarrow>
        y \<in> insert name visited \<union> set (pending @ filter (is_group g) ms)"
      using 2(4) run(2) by (auto simp: group_edge_def members_of_def)
    ultimately show ?thesis
      using 2(3) [OF new(1) _ run(1,2)] new run(3) add_providers_distinct [OF 2(6)] by simp
  qed
qed

text \<open>
  \<^verbatim>\<open>provider_order\<close> lists, once each, exactly the known providers that a group below the
  target uses.
\<close>

theorem provider_order_exact:
  assumes "provider_order g target = Inr qs"
  shows "distinct qs \<and> set qs = used_providers g (closure g {a. a = target \<and> is_group g a})"
  using order_search_exact [of "{}" g "[target]" "[]" qs] assms
  by (simp add: provider_order_def used_providers_def)

theorem provider_order_exact_witness:
  "\<exists>qs. provider_order demo_graph ''AUTO'' = Inr qs \<and> set qs = {''air''}
     \<and> used_providers demo_graph (closure demo_graph {a. a = ''AUTO'' \<and> is_group demo_graph a}) = {''air''}"
proof -
  have "provider_order demo_graph ''AUTO'' = Inr [''air'']"
    by (simp add: provider_order_def demo_graph_def group_uses_def group_members_def get_or_def)
  with provider_order_exact [OF this] show ?thesis by auto
qed

end
