(* ===== verification/GroupCycles.thy ===== *)
theory GroupCycles
  imports GroupTraversals
begin

text \<open>
  The cycle search over proxy groups: every reported cycle is a cycle of the document, and nothing
  is reported exactly when the group graph has none.  The relation \<open>searched\<close> relates the states
  before and after a visit.
\<close>

definition genuine :: "runtime_graph \<Rightarrow> string list \<Rightarrow> bool" where
  "genuine g c \<longleftrightarrow> (\<exists>x p. c = x # p @ [x]) \<and> successively (group_edge g) c"

inductive acyc :: "runtime_graph \<Rightarrow> string \<Rightarrow> bool" for g where
  acyc_node: "(\<And>b. group_edge g a b \<Longrightarrow> acyc g b) \<Longrightarrow> acyc g a"

lemma acyc_no_cycle: "acyc g a \<Longrightarrow> \<not> (group_edge g)\<^sup>+\<^sup>+ a a"
proof (induction rule: acyc.induct)
  case (acyc_node a)
  show ?case
  proof
    assume "(group_edge g)\<^sup>+\<^sup>+ a a"
    then obtain b where b: "group_edge g a b" "(group_edge g)\<^sup>*\<^sup>* b a" by (blast dest: tranclpD)
    then have "(group_edge g)\<^sup>+\<^sup>+ b b" by (meson rtranclp_into_tranclp1)
    with acyc_node b(1) show False by blast
  qed
qed

lemma path_rtrancl: "successively R (x # xs) \<Longrightarrow> R\<^sup>*\<^sup>* x (last (x # xs))"
proof (induction xs arbitrary: x)
  case (Cons y ys)
  then show ?case by (auto intro: converse_rtranclp_into_rtranclp)
qed simp

lemma genuine_cycle: "genuine g c \<Longrightarrow> \<exists>x. (group_edge g)\<^sup>+\<^sup>+ x x"
proof -
  assume "genuine g c"
  then obtain x p where c: "c = x # p @ [x]" "successively (group_edge g) c" by (auto simp: genuine_def)
  show ?thesis
  proof (cases p)
    case Nil
    then show ?thesis using c by auto
  next
    case (Cons y ys)
    then have "group_edge g x y" "successively (group_edge g) (y # ys @ [x])" using c by simp_all
    moreover from path_rtrancl [OF this(2)] have "(group_edge g)\<^sup>*\<^sup>* y x" by simp
    ultimately show ?thesis by (meson rtranclp_into_tranclp2)
  qed
qed

definition cycle_inv :: "runtime_graph \<Rightarrow> cycle_state \<Rightarrow> bool" where
  "cycle_inv g s \<longleftrightarrow> cy_visiting s = set (cy_stack s) \<and> successively (group_edge g) (cy_stack s)
     \<and> (\<forall>c \<in> set (cy_found s). genuine g c)"

definition searched :: "runtime_graph \<Rightarrow> string set \<Rightarrow> cycle_state \<Rightarrow> cycle_state \<Rightarrow> bool" where
  "searched g X s s' \<longleftrightarrow> cy_stack s' = cy_stack s \<and> cycle_inv g s'
     \<and> (\<exists>more. cy_found s' = cy_found s @ more)
     \<and> (cy_found s' = [] \<longrightarrow> (\<forall>v \<in> cy_visited s. acyc g v) \<longrightarrow>
          (\<forall>v \<in> cy_visited s'. acyc g v) \<and> cy_visited s \<union> X \<subseteq> cy_visited s')"

lemma searched_trans:
  assumes "searched g X s t" and "searched g Y t u"
  shows "searched g (X \<union> Y) s u"
proof -
  obtain m where m1: "cy_found t = cy_found s @ m" using assms(1) unfolding searched_def by blast
  obtain m' where m2: "cy_found u = cy_found t @ m'" using assms(2) unfolding searched_def by blast
  note m = m1 m2
  have "\<exists>more. cy_found u = cy_found s @ more" using m by simp
  moreover have "cy_found u = [] \<longrightarrow> cy_found t = []" using m by simp
  ultimately show ?thesis using assms unfolding searched_def by (intro conjI) (simp, simp, blast, blast)
qed

lemma searched_fold:
  assumes "\<And>x s s'. x \<in> set xs \<Longrightarrow> cycle_inv g s \<Longrightarrow> cy_stack s = st \<Longrightarrow> f x s = Inr s' \<Longrightarrow> searched g {x} s s'"
    and "foldE f xs s = Inr s'" and "cycle_inv g s" and "cy_stack s = st"
  shows "searched g (set xs) s s'"
  using assms
proof (induction xs arbitrary: s)
  case Nil
  then show ?case by (simp add: searched_def)
next
  case (Cons x xs)
  then obtain u where u: "f x s = Inr u" "foldE f xs u = Inr s'" by (auto split: sum.splits)
  have x: "searched g {x} s u" using Cons.prems(1) [OF _ Cons.prems(3,4) u(1)] by simp
  then have i: "cycle_inv g u" "cy_stack u = st" using Cons.prems(4) by (simp_all add: searched_def)
  have "searched g (set xs) u s'"
    by (rule Cons.IH [OF Cons.prems(1) u(2) i]) simp_all
  from searched_trans [OF x this] show ?case by simp
qed

lemma close_cycle_genuine:
  assumes "successively (group_edge g) st" and "name \<in> set st" and "group_edge g (last st) name"
  shows "genuine g (close_cycle name st)"
proof -
  obtain pre post where st: "st = pre @ name # post" "name \<notin> set pre"
    using split_list_first [OF assms(2)] by blast
  have "dropWhile (\<lambda>x. x \<noteq> name) (pre @ name # post) = dropWhile (\<lambda>x. x \<noteq> name) (name # post)"
    by (rule dropWhile_append2) (use st(2) in auto)
  then have "close_cycle name st = name # post @ [name]" using st(1) by (simp add: close_cycle_def)
  moreover have "successively (group_edge g) ((name # post) @ [name])"
    using assms(1,3) unfolding st(1) by (subst successively_append_iff) (simp add: successively_append_iff)
  ultimately show ?thesis by (simp add: genuine_def)
qed

lemma cycle_visit_searched:
  "cycle_visit n g name s = Inr s' \<Longrightarrow> cycle_inv g s \<Longrightarrow> is_group g name \<Longrightarrow>
   (cy_stack s \<noteq> [] \<longrightarrow> group_edge g (last (cy_stack s)) name) \<Longrightarrow> searched g {name} s s'"
proof (induction n arbitrary: name s s')
  case (Suc n)
  show ?case
  proof (cases "name \<in> cy_visiting s")
    case True
    then have st: "name \<in> set (cy_stack s)" "successively (group_edge g) (cy_stack s)"
      using Suc.prems(2) by (simp_all add: cycle_inv_def)
    then have "cy_stack s \<noteq> []" by auto
    then have "genuine g (close_cycle name (cy_stack s))"
      using close_cycle_genuine [OF st(2,1)] Suc.prems(4) by simp
    then show ?thesis using Suc.prems(1,2) True by (auto simp: searched_def cycle_inv_def)
  next
    case nv: False
    show ?thesis
    proof (cases "name \<in> cy_visited s")
      case True
      then show ?thesis using Suc.prems(1,2) nv by (auto simp: searched_def)
    next
      case False
      let ?s0 = "s\<lparr>cy_visiting := insert name (cy_visiting s), cy_stack := cy_stack s @ [name]\<rparr>"
      obtain ms t where run: "group_members g name = Inr ms"
        "foldE (cycle_visit n g) (sort (filter (is_group g) ms)) ?s0 = Inr t"
        and s': "s' = t\<lparr>cy_stack := butlast (cy_stack t), cy_visiting := cy_visiting t - {name},
           cy_visited := insert name (cy_visited t)\<rparr>"
        using Suc.prems(1) nv False by (auto simp: bindE_Inr_iff)
      have i0: "cycle_inv g ?s0"
        using Suc.prems(2,4) by (auto simp: cycle_inv_def successively_append_iff)
      have edges: "group_edge g name b \<longleftrightarrow> b \<in> set (sort (filter (is_group g) ms))" for b
        using run(1) by (auto simp only: group_edge_def members_of_def set_sort set_filter sum.case mem_Collect_eq)
      have "searched g (set (sort (filter (is_group g) ms))) ?s0 t"
      proof (rule searched_fold [OF _ run(2) i0 refl])
        fix x u u' assume x: "x \<in> set (sort (filter (is_group g) ms))" and u: "cycle_inv g u"
          "cy_stack u = cy_stack ?s0" "cycle_visit n g x u = Inr u'"
        have "group_edge g name x" using edges x by blast
        then show "searched g {x} u u'"
          by (intro Suc.IH [OF u(3,1)]) (simp_all add: u(2) group_edge_def)
      qed
      then have t: "cy_stack t = cy_stack s @ [name]" "cycle_inv g t"
        "\<exists>more. cy_found t = cy_found s @ more"
        "cy_found t = [] \<Longrightarrow> \<forall>v \<in> cy_visited s. acyc g v \<Longrightarrow>
           (\<forall>v \<in> cy_visited t. acyc g v) \<and> cy_visited s \<union> {b. group_edge g name b} \<subseteq> cy_visited t"
        using edges by (simp_all add: searched_def)
      have ns: "name \<notin> set (cy_stack s)" using nv Suc.prems(2) by (simp add: cycle_inv_def)
      have "cycle_inv g s'"
        using t(1,2) ns Suc.prems(2) unfolding s' by (auto simp: cycle_inv_def)
      moreover have "acyc g name" if "cy_found t = []" "\<forall>v \<in> cy_visited s. acyc g v"
        by (rule acyc_node) (use t(4) [OF that] in blast)
      ultimately show ?thesis using t unfolding searched_def s' by auto
    qed
  qed
qed simp

section \<open>The recursion is bounded by the number of groups\<close>

lemma cycle_visiting_kept: "cycle_visit n g name s = Inr s' \<Longrightarrow> cy_visiting s' = cy_visiting s"
proof (induction n arbitrary: name s s')
  case (Suc n)
  have f: "cy_visiting u' = V" if "foldE (cycle_visit n g) xs u = Inr u'" "cy_visiting u = V" for xs u u' V
    by (rule foldE_invariant [OF that(1), where P = "\<lambda>u. cy_visiting u = V"]) (use that(2) Suc.IH in auto)
  show ?case using Suc.prems
    by (auto simp: bindE_Inr_iff split: if_splits dest!: f [OF _ refl])
qed simp

lemma cycle_visit_errors:
  "cycle_visit n g name s = Inl e \<Longrightarrow> is_group g name \<Longrightarrow> open_groups g (cy_visiting s) < n \<Longrightarrow>
   \<exists>a. group_members g a = Inl e"
proof (induction n arbitrary: name s)
  case (Suc n)
  have fold: "\<exists>a. group_members g a = Inl e"
    if "foldE (cycle_visit n g) xs u = Inl e" "\<forall>x \<in> set xs. is_group g x" "open_groups g (cy_visiting u) < n" for xs u
    using that
  proof (induction xs arbitrary: u)
    case (Cons x xs)
    show ?case
    proof (cases "cycle_visit n g x u")
      case (Inl e')
      then show ?thesis using Suc.IH [of x u] Cons.prems by simp
    next
      case (Inr u')
      then show ?thesis using Cons.IH [of u'] Cons.prems cycle_visiting_kept [OF Inr] by simp
    qed
  qed simp
  show ?case
  proof (cases "name \<in> cy_visiting s \<or> name \<in> cy_visited s")
    case True
    then show ?thesis using Suc.prems(1) by (auto split: if_splits)
  next
    case False
    let ?s0 = "s\<lparr>cy_visiting := insert name (cy_visiting s), cy_stack := cy_stack s @ [name]\<rparr>"
    have "group_members g name = Inl e \<or>
        (\<exists>ms. foldE (cycle_visit n g) (sort (filter (is_group g) ms)) ?s0 = Inl e)"
      using Suc.prems(1) False by (auto simp: bindE_Inl_iff)
    moreover have "open_groups g (cy_visiting ?s0) < n"
      using Suc.prems(2,3) False open_groups_insert [of name g "cy_visiting s"] by simp
    moreover have "\<forall>x \<in> set (sort (filter (is_group g) ms)). is_group g x" for ms
      by (simp del: image_iff)
    ultimately show ?thesis using fold [of _ ?s0] by blast
  qed
qed simp

lemma group_cycles_verdict:
  "case group_cycles g of
     Inr cycles \<Rightarrow> set cycles \<subseteq> {c. genuine g c} \<and> (cycles = [] \<longleftrightarrow> (\<nexists>x. (group_edge g)\<^sup>+\<^sup>+ x x))
   | Inl e \<Rightarrow> \<exists>a. group_members g a = Inl e"
proof -
  let ?n = "length (rg_groups g) + 2" and ?ks = "sort (dict_keys (rg_groups g))"
  let ?s = "\<lparr>cy_visiting = {}, cy_visited = {}, cy_stack = [], cy_found = []\<rparr>"
  have og: "open_groups g {} < ?n"
    using card_length [of "dict_keys (rg_groups g)"] by (simp add: open_groups_def)
  have fold: "\<exists>a. group_members g a = Inl e"
    if "foldE (cycle_visit ?n g) xs u = Inl e" "\<forall>x \<in> set xs. is_group g x" "cy_visiting u = {}" for xs u e
    using that
  proof (induction xs arbitrary: u)
    case (Cons x xs)
    show ?case
    proof (cases "cycle_visit ?n g x u")
      case (Inl e')
      then show ?thesis using cycle_visit_errors [OF Inl] Cons.prems og by simp
    next
      case (Inr u')
      then show ?thesis using Cons.IH [of u'] Cons.prems cycle_visiting_kept [OF Inr] by simp
    qed
  qed simp
  show ?thesis
  proof (cases "foldE (cycle_visit ?n g) ?ks ?s")
    case (Inl e)
    then show ?thesis using fold [OF Inl] by (simp add: group_cycles_def)
  next
    case (Inr s)
    have i: "cycle_inv g ?s" by (simp add: cycle_inv_def)
    have sr: "searched g (set ?ks) ?s s"
    proof (rule searched_fold [OF _ Inr i refl])
      fix x u u' assume u: "x \<in> set ?ks" "cycle_inv g u" "cy_stack u = cy_stack ?s" "cycle_visit ?n g x u = Inr u'"
      show "searched g {x} u u'"
        by (rule cycle_visit_searched [OF u(4,2)]) (use u(1,3) in simp_all)
    qed
    have "(cy_found s = []) = (\<nexists>x. (group_edge g)\<^sup>+\<^sup>+ x x)"
    proof
      assume "cy_found s = []"
      then have all: "acyc g x" if "is_group g x" for x
        using sr that unfolding searched_def by (metis (no_types) Un_iff empty_iff select_convs(2) set_sort subsetD cycle_state.select_convs(2))
      show "\<nexists>x. (group_edge g)\<^sup>+\<^sup>+ x x"
      proof
        assume "\<exists>x. (group_edge g)\<^sup>+\<^sup>+ x x"
        then obtain x where x: "(group_edge g)\<^sup>+\<^sup>+ x x" ..
        then have "is_group g x" by (auto simp: group_edge_def elim: tranclp.cases)
        with all acyc_no_cycle x show False by blast
      qed
    next
      assume no: "\<nexists>x. (group_edge g)\<^sup>+\<^sup>+ x x"
      show "cy_found s = []"
        using sr genuine_cycle no unfolding searched_def cycle_inv_def by (meson last_in_set)
    qed
    then show ?thesis using Inr sr by (auto simp: group_cycles_def searched_def cycle_inv_def)
  qed
qed

text \<open>
  C23.  \<^verbatim>\<open>group_cycles\<close> ends on every document and fails only with the error of a malformed group.
  Every cycle it returns is a closed chain of members in the document, and it returns none exactly
  when no group can reach itself.
\<close>

theorem group_cycles_exact:
  "case group_cycles g of
     Inr cycles \<Rightarrow> set cycles \<subseteq> {c. genuine g c} \<and> (cycles = [] \<longleftrightarrow> (\<nexists>x. (group_edge g)\<^sup>+\<^sup>+ x x))
   | Inl e \<Rightarrow> \<exists>a. group_members g a = Inl e"
  by (rule group_cycles_verdict)

end
