(* ===== verification/GraphLeaves.thy ===== *)
theory GraphLeaves
  imports GroupCycles
begin

text \<open>
  The leaf proxies of a target: what the filtered search over group members returns, and that it
  ends on every document whatever the regular-expression engine does.
\<close>

definition leaf_step :: "runtime_graph \<Rightarrow> string \<Rightarrow> string \<Rightarrow> bool" where
  "leaf_step g r x \<longleftrightarrow> expands g r \<and> x \<in> set (members_of g r)"

definition accepts_name :: "(string \<Rightarrow> (string \<Rightarrow> bool) option) \<Rightarrow> json dict \<Rightarrow> string \<Rightarrow> bool" where
  "accepts_name compile row x \<longleftrightarrow>
     (\<exists>keep spare. text_filter compile InvalidFilter True (json_get row ''filter'') = Inr keep
        \<and> text_filter compile InvalidExcludeFilter False (json_get row ''exclude-filter'') = Inr spare
        \<and> keep x \<and> spare x)"

text \<open>The leaves a node contributes itself: a proxy, or the accepted proxies of a group's providers.\<close>

definition own_leaves :: "(string \<Rightarrow> (string \<Rightarrow> bool) option) \<Rightarrow> runtime_graph \<Rightarrow> string \<Rightarrow> string set" where
  "own_leaves compile g r =
     (if is_proxy g r then {r}
      else if expands g r then
        {x. \<exists>p \<in> set (uses_of g r). x \<in> set (provider_leaves g p) \<and> accepts_name compile (the (map_of (rg_groups g) r)) x}
      else {})"

definition all_leaves :: "(string \<Rightarrow> (string \<Rightarrow> bool) option) \<Rightarrow> runtime_graph \<Rightarrow> string \<Rightarrow> string set" where
  "all_leaves compile g r = (\<Union>x \<in> {x. (leaf_step g)\<^sup>*\<^sup>* r x}. own_leaves compile g x)"

lemma all_leaves_unfold:
  "all_leaves compile g r = own_leaves compile g r \<union> (\<Union>x \<in> {x. leaf_step g r x}. all_leaves compile g x)"
proof -
  have "{x. (leaf_step g)\<^sup>*\<^sup>* r x} = insert r (\<Union>y \<in> {y. leaf_step g r y}. {x. (leaf_step g)\<^sup>*\<^sup>* y x})"
    by (auto elim: converse_rtranclpE intro: converse_rtranclp_into_rtranclp)
  then show ?thesis unfolding all_leaves_def by auto
qed

definition leaf_inv :: "(string \<Rightarrow> (string \<Rightarrow> bool) option) \<Rightarrow> runtime_graph \<Rightarrow> leaf_state \<Rightarrow> bool" where
  "leaf_inv compile g s \<longleftrightarrow> (\<forall>h \<in> leaf_visited s. all_leaves compile g h \<subseteq> leaves s)"

definition collected ::
  "(string \<Rightarrow> (string \<Rightarrow> bool) option) \<Rightarrow> runtime_graph \<Rightarrow> string set \<Rightarrow> leaf_state \<Rightarrow> leaf_state \<Rightarrow> bool" where
  "collected compile g X s s' \<longleftrightarrow> leaves s' = leaves s \<union> (\<Union>x \<in> X. all_leaves compile g x)
     \<and> leaf_visiting s' = leaf_visiting s \<and> leaf_inv compile g s'"

lemma collected_fold:
  assumes "\<And>x s s'. leaf_inv compile g s \<Longrightarrow> f x s = Inr s' \<Longrightarrow> collected compile g {x} s s'"
    and "foldE f xs s = Inr s'" and "leaf_inv compile g s"
  shows "collected compile g (set xs) s s'"
  using assms(2,3)
proof (induction xs arbitrary: s)
  case Nil
  then show ?case by (simp add: collected_def)
next
  case (Cons x xs)
  then obtain u where u: "f x s = Inr u" "foldE f xs u = Inr s'" by (auto split: sum.splits)
  have x: "collected compile g {x} s u" by (rule assms(1) [OF Cons.prems(2) u(1)])
  then have "collected compile g (set xs) u s'" using Cons.IH [OF u(2)] by (simp add: collected_def)
  with x show ?case by (auto simp: collected_def)
qed

lemma leaf_cases:
  obtains (silent) "\<not> is_proxy g r" "\<not> expands g r" | (proxy) "is_proxy g r" | (group) row where
    "expands g r" "map_of (rg_groups g) r = Some row"
proof (cases "expands g r")
  case True
  then have "map_of (rg_groups g) r \<noteq> None" by (simp add: expands_def map_of_eq_None_iff)
  then show ?thesis using True that(3) by blast
qed (use that in blast)

lemma leaf_group:
  assumes "expands g r" and "map_of (rg_groups g) r = Some row" and "r \<notin> leaf_visiting s" and "r \<notin> leaf_visited s"
  shows "leaf_visit compile (Suc n) g r s =
     bindE (text_filter compile InvalidFilter True (json_get row ''filter'')) (\<lambda>keep.
     bindE (text_filter compile InvalidExcludeFilter False (json_get row ''exclude-filter'')) (\<lambda>spare.
     bindE (group_uses g r) (\<lambda>uses.
     bindE (group_members g r) (\<lambda>members.
     bindE (foldE (leaf_visit compile n g) members
       (s\<lparr>leaf_visiting := insert r (leaf_visiting s),
          leaves := leaves s \<union>
            set (filter (\<lambda>x. keep x \<and> spare x) (concat (map (provider_leaves g) uses)))\<rparr>)) (\<lambda>s'.
     Inr (s'\<lparr>leaf_visiting := leaf_visiting s' - {r},
             leaf_visited := insert r (leaf_visited s')\<rparr>))))))"
  using assms by (simp add: expands_def map_of_eq_None_iff)

lemma leaf_other:
  "\<not> is_proxy g r \<Longrightarrow> \<not> expands g r \<Longrightarrow> leaf_visit compile (Suc n) g r s = Inr s"
  "is_proxy g r \<Longrightarrow> leaf_visit compile (Suc n) g r s = Inr (s\<lparr>leaves := insert r (leaves s)\<rparr>)"
  "expands g r \<Longrightarrow> r \<in> leaf_visiting s \<Longrightarrow> leaf_visit compile (Suc n) g r s = Inl (GraphCycle r)"
  "expands g r \<Longrightarrow> r \<notin> leaf_visiting s \<Longrightarrow> r \<in> leaf_visited s \<Longrightarrow> leaf_visit compile (Suc n) g r s = Inr s"
  by (auto simp: is_proxy_def expands_def map_of_eq_None_iff split: option.splits)
     (auto dest: map_of_SomeD intro: rev_image_eqI)

lemma leaf_visit_collects:
  "leaf_visit compile n g r s = Inr s' \<Longrightarrow> leaf_inv compile g s \<Longrightarrow> collected compile g {r} s s'"
proof (induction n arbitrary: r s s')
  case (Suc n)
  show ?case
  proof (cases rule: leaf_cases [of g r])
    case silent
    then have "all_leaves compile g r = {}"
      by (subst all_leaves_unfold) (simp add: own_leaves_def leaf_step_def)
    then show ?thesis using Suc.prems leaf_other(1) [OF silent] by (simp add: collected_def)
  next
    case proxy
    then have "\<not> expands g r" by (auto simp: is_proxy_def expands_def)
    then have "all_leaves compile g r = {r}"
      using all_leaves_unfold [of compile g r] proxy by (simp add: own_leaves_def leaf_step_def)
    moreover have "s' = s\<lparr>leaves := insert r (leaves s)\<rparr>" using Suc.prems(1) unfolding leaf_other(2) [OF proxy] by simp
    moreover have "\<forall>h \<in> leaf_visited s. all_leaves compile g h \<subseteq> insert r (leaves s)"
      using Suc.prems(2) by (auto simp: leaf_inv_def)
    ultimately show ?thesis by (simp add: collected_def leaf_inv_def)
  next
    case (group row)
    have nv: "r \<notin> leaf_visiting s" using Suc.prems(1) leaf_other(3) [OF group(1)] by auto
    show ?thesis
    proof (cases "r \<in> leaf_visited s")
      case True
      then show ?thesis using Suc.prems leaf_other(4) [OF group(1) nv] by (auto simp: collected_def leaf_inv_def)
    next
      case False
      obtain keep spare uses ms t where run:
        "text_filter compile InvalidFilter True (json_get row ''filter'') = Inr keep"
        "text_filter compile InvalidExcludeFilter False (json_get row ''exclude-filter'') = Inr spare"
        "group_uses g r = Inr uses" "group_members g r = Inr ms"
        "foldE (leaf_visit compile n g) ms (s\<lparr>leaf_visiting := insert r (leaf_visiting s),
           leaves := leaves s \<union> set (filter (\<lambda>x. keep x \<and> spare x) (concat (map (provider_leaves g) uses)))\<rparr>) = Inr t"
        and s': "s' = t\<lparr>leaf_visiting := leaf_visiting t - {r}, leaf_visited := insert r (leaf_visited t)\<rparr>"
        using Suc.prems(1) unfolding leaf_group [OF group nv False] bindE_Inr_iff by blast
      let ?s0 = "s\<lparr>leaf_visiting := insert r (leaf_visiting s),
           leaves := leaves s \<union> set (filter (\<lambda>x. keep x \<and> spare x) (concat (map (provider_leaves g) uses)))\<rparr>"
      have own: "own_leaves compile g r = set (filter (\<lambda>x. keep x \<and> spare x) (concat (map (provider_leaves g) uses)))"
        using group run(1-3) by (auto simp: own_leaves_def is_proxy_def expands_def uses_of_def accepts_name_def)
      have i0: "leaf_inv compile g ?s0" using Suc.prems(2) by (auto simp: leaf_inv_def)
      have "collected compile g (set ms) ?s0 t"
        by (rule collected_fold [OF Suc.IH run(5) i0])
      moreover have "{x. leaf_step g r x} = set ms"
        using group(1) run(4) by (auto simp: leaf_step_def members_of_def)
      ultimately have t: "leaves t = leaves s \<union> all_leaves compile g r"
        "leaf_visiting t = insert r (leaf_visiting s)" "leaf_inv compile g t"
        using all_leaves_unfold [of compile g r] own by (auto simp: collected_def)
      then show ?thesis using nv unfolding s' by (auto simp: collected_def leaf_inv_def)
    qed
  qed
qed simp

lemma leaf_visiting_kept: "leaf_visit compile n g r s = Inr s' \<Longrightarrow> leaf_visiting s' = leaf_visiting s"
proof (induction n arbitrary: r s s')
  case (Suc n)
  have f: "leaf_visiting u' = V" if "foldE (leaf_visit compile n g) xs u = Inr u'" "leaf_visiting u = V" for xs u u' V
    by (rule foldE_invariant [OF that(1), where P = "\<lambda>u. leaf_visiting u = V"]) (use that(2) Suc.IH in auto)
  show ?case
  proof (cases "expands g r \<and> r \<notin> leaf_visiting s \<and> r \<notin> leaf_visited s")
    case True
    then obtain row where row: "map_of (rg_groups g) r = Some row" using leaf_cases [of g r] by (metis is_proxy_def expands_def)
    from True have new: "expands g r" "r \<notin> leaf_visiting s" "r \<notin> leaf_visited s" by simp_all
    obtain ms u0 t where "foldE (leaf_visit compile n g) ms u0 = Inr t"
      "leaf_visiting u0 = insert r (leaf_visiting s)" "leaf_visiting s' = leaf_visiting t - {r}"
      using Suc.prems [unfolded leaf_group [OF new(1) row new(2,3)] bindE_Inr_iff] by auto
    with f [of ms u0 t] new(2) show ?thesis by simp
  next
    case False
    then show ?thesis using Suc.prems leaf_other [where g = g and r = r and s = s and compile = compile and n = n]
      by (cases "is_proxy g r"; cases "expands g r"; cases "r \<in> leaf_visiting s") auto
  qed
qed simp

lemma text_filter_not_deep: "e \<noteq> RecursionLimit \<Longrightarrow> \<not> deep (text_filter compile e w j)"
  by (simp add: text_filter_def deep_def split: json.splits option.splits)

lemma leaf_visit_bounded: "open_groups g (leaf_visiting s) < n \<Longrightarrow> \<not> deep (leaf_visit compile n g r s)"
proof (induction n arbitrary: r s)
  case (Suc n)
  show ?case
  proof (cases "expands g r \<and> r \<notin> leaf_visiting s \<and> r \<notin> leaf_visited s")
    case True
    then obtain row where row: "map_of (rg_groups g) r = Some row" using leaf_cases [of g r] by (metis is_proxy_def expands_def)
    have b: "open_groups g (insert r (leaf_visiting s)) < n"
      using Suc.prems True open_groups_insert [of r g "leaf_visiting s"] by (simp add: expands_def)
    have "\<not> deep (foldE (leaf_visit compile n g) ms u)" if "leaf_visiting u = insert r (leaf_visiting s)" for ms u
      by (rule foldE_not_deep [where P = "\<lambda>u. leaf_visiting u = insert r (leaf_visiting s)"])
        (use that Suc.IH b leaf_visiting_kept in auto)
    moreover from True have new: "expands g r" "r \<notin> leaf_visiting s" "r \<notin> leaf_visited s" by simp_all
    ultimately show ?thesis
      unfolding leaf_group [OF new(1) row new(2,3)] by (simp add: text_filter_not_deep)
  next
    case False
    then show ?thesis using leaf_other [where g = g and r = r and s = s and compile = compile and n = n]
      by (cases "is_proxy g r"; cases "expands g r"; cases "r \<in> leaf_visiting s") auto
  qed
qed simp

text \<open>
  C24.  \<^verbatim>\<open>effective_leaf_proxies\<close> ends on every document, whatever the filters match.  It returns
  exactly the proxies below the target: the proxies reached through group members, and from every
  group on the way the proxies of its providers that its filter accepts and its exclude-filter
  does not.
\<close>

theorem effective_leaves_exact:
  "case effective_leaf_proxies compile g t of
     Inr L \<Rightarrow> L = all_leaves compile g t
   | Inl e \<Rightarrow> e \<noteq> RecursionLimit"
proof -
  let ?s = "\<lparr>leaves = {}, leaf_visiting = {}, leaf_visited = {}\<rparr>" and ?n = "length (rg_groups g) + 2"
  have "open_groups g (leaf_visiting ?s) < ?n"
    using card_length [of "dict_keys (rg_groups g)"] by (simp add: open_groups_def)
  then have nd: "\<not> deep (leaf_visit compile ?n g t ?s)" by (rule leaf_visit_bounded)
  show ?thesis
  proof (cases "leaf_visit compile ?n g t ?s")
    case (Inl e)
    then show ?thesis using nd by (simp only: effective_leaf_proxies_def bindE_simps sum.case deep_simps not_False_eq_True)
  next
    case (Inr s)
    have "collected compile g {t} ?s s"
      by (rule leaf_visit_collects [OF Inr]) (simp add: leaf_inv_def)
    then show ?thesis unfolding effective_leaf_proxies_def Inr by (simp add: collected_def)
  qed
qed

end
