(* ===== verification/FloatFacts.thy ===== *)
theory FloatFacts
  imports PyFloat
begin

text \<open>
  Arithmetic on Python floats and the facts about rounding that the components need: rounding never
  crosses a representable bound, so sums, products and decimal rounding keep values in the unit
  interval.
\<close>

definition float_add :: "pyfloat \<Rightarrow> pyfloat \<Rightarrow> pyfloat" where
  "float_add x y = (case (x, y) of
      (Fin a, Fin b) \<Rightarrow> float_of (a + b)
    | (NaN, _) \<Rightarrow> NaN | (_, NaN) \<Rightarrow> NaN
    | (PInf, NInf) \<Rightarrow> NaN | (NInf, PInf) \<Rightarrow> NaN
    | (PInf, _) \<Rightarrow> PInf | (_, PInf) \<Rightarrow> PInf | (NInf, _) \<Rightarrow> NInf | (_, NInf) \<Rightarrow> NInf)"

text \<open>The product by a finite positive factor, the only one the program forms.\<close>

definition float_scale :: "pyfloat \<Rightarrow> rat \<Rightarrow> pyfloat" where
  "float_scale x c = (case x of Fin a \<Rightarrow> float_of (a * c) | _ \<Rightarrow> x)"

definition float_less :: "pyfloat \<Rightarrow> pyfloat \<Rightarrow> bool" where
  "float_less x y = (case (x, y) of
      (Fin a, Fin b) \<Rightarrow> a < b
    | (NaN, _) \<Rightarrow> False | (_, NaN) \<Rightarrow> False
    | (NInf, NInf) \<Rightarrow> False | (PInf, _) \<Rightarrow> False | (_, NInf) \<Rightarrow> False
    | (NInf, _) \<Rightarrow> True | (_, PInf) \<Rightarrow> True)"

definition float_le :: "pyfloat \<Rightarrow> pyfloat \<Rightarrow> bool" where
  "float_le x y \<longleftrightarrow> x \<noteq> NaN \<and> y \<noteq> NaN \<and> \<not> float_less y x"

text \<open>\<^verbatim>\<open>float(n)\<close> of an integer: \<open>None\<close> where Python raises \<^verbatim>\<open>OverflowError\<close>.\<close>

definition float_of_int :: "int \<Rightarrow> pyfloat option" where
  "float_of_int n = (case float_of (of_int n) of Fin q \<Rightarrow> Some (Fin q) | _ \<Rightarrow> None)"

lemma float_less_Fin [simp]: "float_less (Fin a) (Fin b) \<longleftrightarrow> a < b"
  by (simp add: float_less_def)

lemma float_le_Fin [simp]: "float_le (Fin a) (Fin b) \<longleftrightarrow> a \<le> b"
  by (auto simp: float_le_def)

lemma float_less_NaN [simp]: "\<not> float_less NaN x" "\<not> float_less x NaN"
  by (simp_all add: float_less_def split: pyfloat.splits)

lemma float_le_trans: "float_le x y \<Longrightarrow> float_le y z \<Longrightarrow> float_le x z"
  by (cases x; cases y; cases z) (simp_all add: float_le_def float_less_def)

section \<open>Powers of two\<close>

lemma pow2_pos [simp]: "0 < pow2 e"
  by (simp add: pow2_def)

lemma pow2_nonzero [simp]: "pow2 e \<noteq> 0"
  using pow2_pos [of e] by linarith

lemma pow2_powi: "pow2 e = 2 powi e"
  by (simp add: pow2_def power_int_def field_simps)

lemma pow2_add: "pow2 (a + b) = pow2 a * pow2 b"
  unfolding pow2_powi by (rule power_int_add) simp

lemma pow2_mono: "a \<le> b \<Longrightarrow> pow2 a \<le> pow2 b"
  unfolding pow2_powi by (rule power_int_increasing) simp_all

lemma pow2_nat: "0 \<le> e \<Longrightarrow> pow2 e = of_int (2 ^ nat e)"
  by (simp add: pow2_def)

lemma pow2_less_iff: "pow2 a < pow2 b \<longleftrightarrow> a < b"
proof
  show "pow2 a < pow2 b \<Longrightarrow> a < b" using pow2_mono [of b a] by (meson linorder_not_le)
  show "a < b \<Longrightarrow> pow2 a < pow2 b"
    unfolding pow2_powi by (rule power_int_strict_increasing) simp_all
qed

lemma ilog2_lower:
  assumes "0 < q"
  shows "pow2 (ilog2 q) \<le> q"
proof -
  obtain n d where nd: "quotient_of q = (n, d)" by (cases "quotient_of q")
  have d: "0 < d" using nd by (rule quotient_of_denom_pos)
  have q: "q = of_int n / of_int d" using nd by (rule quotient_of_div)
  have n: "0 < n" using assms d unfolding q by (simp add: zero_less_divide_iff)
  let ?e = "bitlen n - bitlen d"
  show ?thesis
  proof (cases "pow2 ?e \<le> q")
    case True
    then show ?thesis by (simp add: ilog2_def nd)
  next
    case False
    have bn: "2 ^ nat (bitlen n - 1) \<le> n" using bitlen_bounds [OF n] by simp
    have bd: "d < 2 ^ nat (bitlen d)" using bitlen_bounds [OF d] by simp
    have pn: "0 < bitlen n" using n by (simp add: bitlen_eq_zero_iff bitlen_nonneg order.strict_iff_order)
    have "pow2 (bitlen n - 1) \<le> of_int n"
      using bn pn by (subst pow2_nat) (simp_all flip: of_int_power add: of_int_le_iff)
    moreover have "of_int d \<le> pow2 (bitlen d)"
      using bd bitlen_nonneg [of d] by (subst pow2_nat) (simp_all flip: of_int_power add: of_int_le_iff)
    ultimately have "pow2 (bitlen n - 1) / pow2 (bitlen d) \<le> of_int n / of_int d"
      using d n by (intro frac_le) simp_all
    moreover have "pow2 (bitlen n - 1) / pow2 (bitlen d) = pow2 (?e - 1)"
      using pow2_add [of "?e - 1" "bitlen d"] by (simp add: field_simps)
    ultimately have "pow2 (?e - 1) \<le> q" by (simp add: q)
    then show ?thesis using False by (simp add: ilog2_def nd)
  qed
qed

section \<open>Rounding respects representable bounds\<close>

lemma round_pos_nonneg: "0 < q \<Longrightarrow> 0 \<le> round_pos q"
proof -
  assume q: "0 < q"
  have "0 = round_even 0" using round_even_int [of 0] by simp
  also have "\<dots> \<le> round_even (q / pow2 (max (ilog2 q - 52) (- 1074)))"
    by (rule round_even_mono) (use q in \<open>simp add: less_imp_le\<close>)
  finally show ?thesis by (simp add: round_pos_def Let_def mult_nonneg_nonneg less_imp_le)
qed

lemma round_pos_le:
  assumes "0 < q" and "q \<le> of_int m * pow2 j" and "m < 2 ^ 53" and "- 1074 \<le> j"
  shows "round_pos q \<le> of_int m * pow2 j"
proof -
  define k where "k = max (ilog2 q - 52) (- 1074)"
  have "of_int m * pow2 j < pow2 53 * pow2 j"
  proof (rule mult_strict_right_mono)
    have "pow2 53 = of_int (2 ^ 53)" by (simp add: pow2_def)
    then show "of_int m < pow2 53" using assms(3) by (simp only: of_int_less_iff)
  qed simp
  then have "pow2 (ilog2 q) < pow2 (53 + j)"
    using ilog2_lower [OF assms(1)] assms(2) unfolding pow2_add by linarith
  then have k: "k \<le> j" using assms(4) by (simp add: pow2_less_iff k_def)
  have split: "pow2 j = pow2 (j - k) * pow2 k" using pow2_add [of "j - k" k] by simp
  have "q / pow2 k \<le> of_int m * pow2 (j - k)"
    using assms(2) by (simp add: split divide_le_eq mult.assoc)
  then have "q / pow2 k \<le> of_int (m * 2 ^ nat (j - k))" using k by (simp add: pow2_def)
  then have "round_even (q / pow2 k) \<le> m * 2 ^ nat (j - k)"
    using round_even_mono round_even_int by metis
  then have "rat_of_int (round_even (q / pow2 k)) \<le> rat_of_int (m * 2 ^ nat (j - k))"
    by (simp only: of_int_le_iff)
  moreover have "rat_of_int (m * 2 ^ nat (j - k)) = of_int m * pow2 (j - k)"
    using k by (simp add: pow2_def)
  ultimately have "of_int (round_even (q / pow2 k)) \<le> of_int m * pow2 (j - k)" by (rule ord_le_eq_trans)
  then have "pow2 k * of_int (round_even (q / pow2 k)) \<le> pow2 k * (of_int m * pow2 (j - k))"
    by (intro mult_left_mono) (simp_all add: less_imp_le)
  then show ?thesis unfolding round_pos_def Let_def k_def [symmetric] split
    by (simp add: mult.commute mult.left_commute)
qed

lemma float_of_le:
  assumes "0 \<le> q" and "q \<le> of_int m * pow2 j" and "m < 2 ^ 53" and "- 1074 \<le> j" and "of_int m * pow2 j < pow2 1024"
  shows "\<exists>x. float_of q = Fin x \<and> 0 \<le> x \<and> x \<le> of_int m * pow2 j"
proof (cases "q = 0")
  case True
  then show ?thesis using assms(1,2) by (simp add: float_of_def)
next
  case False
  then have "0 < q" using assms(1) by simp
  with round_pos_le [OF this assms(2-4)] round_pos_nonneg [OF this] assms(5) show ?thesis
    by (simp add: float_of_def Let_def)
qed

text \<open>The unit interval is kept by rounding.\<close>

lemma float_of_unit: "0 \<le> q \<Longrightarrow> q \<le> 1 \<Longrightarrow> \<exists>x. float_of q = Fin x \<and> 0 \<le> x \<and> x \<le> 1"
proof -
  have "pow2 0 < pow2 1024" by (simp only: pow2_less_iff)
  moreover have one: "pow2 0 = 1" by (simp add: pow2_def)
  ultimately show "0 \<le> q \<Longrightarrow> q \<le> 1 \<Longrightarrow> \<exists>x. float_of q = Fin x \<and> 0 \<le> x \<and> x \<le> 1"
    using float_of_le [of q 1 0] by simp
qed

lemma float_round_unit:
  assumes "0 \<le> q" and "q \<le> 1"
  shows "\<exists>x. float_round (Fin q) n = Fin x \<and> 0 \<le> x \<and> x \<le> 1"
proof -
  have "0 \<le> round_even (q * 10 ^ n)"
    using round_even_mono [of 0 "q * 10 ^ n"] round_even_int [of 0] assms(1) by simp
  moreover have "round_even (q * 10 ^ n) \<le> 10 ^ n"
    using round_even_mono [of "q * 10 ^ n" "of_int (10 ^ n)"] round_even_int [of "10 ^ n"] assms(2) by simp
  then have "(of_int (round_even (q * 10 ^ n)) :: rat) \<le> of_int (10 ^ n)" by (simp only: of_int_le_iff)
  ultimately show ?thesis
    unfolding float_round_def by (simp, intro float_of_unit) simp_all
qed

section \<open>Evaluating a rounding\<close>

lemma ilog2_upper:
  assumes "0 < q"
  shows "q < pow2 (ilog2 q + 1)"
proof -
  obtain n d where nd: "quotient_of q = (n, d)" by (cases "quotient_of q")
  have d: "0 < d" using nd by (rule quotient_of_denom_pos)
  have q: "q = of_int n / of_int d" using nd by (rule quotient_of_div)
  have n: "0 < n" using assms d unfolding q by (simp add: zero_less_divide_iff)
  let ?e = "bitlen n - bitlen d"
  have "n < 2 ^ nat (bitlen n)" using bitlen_bounds [OF n] by simp
  then have un: "of_int n < pow2 (bitlen n)"
    using bitlen_nonneg [of n] by (subst pow2_nat) (simp_all only: of_int_less_iff)
  have pd: "0 < bitlen d" using d by (simp add: bitlen_eq_zero_iff bitlen_nonneg order.strict_iff_order)
  have "2 ^ nat (bitlen d - 1) \<le> d" using bitlen_bounds [OF d] by simp
  then have ld: "pow2 (bitlen d - 1) \<le> of_int d"
    using pd by (subst pow2_nat) (linarith, simp only: of_int_le_iff)
  have "q < pow2 (bitlen n) / pow2 (bitlen d - 1)"
    unfolding q using un ld d n by (intro frac_less) simp_all
  also have "\<dots> = pow2 (?e + 1)"
    using pow2_add [of "?e + 1" "bitlen d - 1"] by (simp add: field_simps)
  finally show ?thesis by (auto simp: ilog2_def nd Let_def)
qed

lemma ilog2_eq: "pow2 e \<le> q \<Longrightarrow> q < pow2 (e + 1) \<Longrightarrow> ilog2 q = e"
proof -
  assume e: "pow2 e \<le> q" "q < pow2 (e + 1)"
  have q: "0 < q" using e(1) pow2_pos [of e] by linarith
  have "pow2 (ilog2 q) < pow2 (e + 1)" using ilog2_lower [OF q] e(2) by linarith
  moreover have "pow2 e < pow2 (ilog2 q + 1)" using ilog2_upper [OF q] e(1) by linarith
  ultimately show ?thesis by (simp add: pow2_less_iff)
qed

lemma round_even_eqI: "\<bar>x - of_int n\<bar> < 1 / 2 \<Longrightarrow> round_even x = n"
proof -
  assume x: "\<bar>x - of_int n\<bar> < 1 / 2"
  consider "of_int n \<le> x" | "x < of_int n" by linarith
  then show ?thesis
  proof cases
    case 1
    then have "\<lfloor>x\<rfloor> = n" using x by (intro floor_unique) linarith+
    then show ?thesis using x 1 by (simp add: round_even_def Let_def)
  next
    case 2
    then have "\<lfloor>x\<rfloor> = n - 1" using x unfolding floor_eq_iff by simp
    then show ?thesis using x 2 by (simp add: round_even_def Let_def)
  qed
qed

lemma round_even_tie: "x = of_int n + 1 / 2 \<Longrightarrow> even n \<Longrightarrow> round_even x = n"
proof -
  assume x: "x = of_int n + 1 / 2" "even n"
  then have "\<lfloor>x\<rfloor> = n" unfolding floor_eq_iff by simp
  then show ?thesis using x by (simp add: round_even_def Let_def)
qed

text \<open>The value of a rounding, from its exponent and its significand.\<close>

lemma float_of_eval:
  assumes "pow2 e \<le> q" and "q < pow2 (e + 1)" and "- 1022 \<le> e" and "e < 1000"
    and "round_even (q / pow2 (e - 52)) = m" and "m < 2 ^ 54"
  shows "float_of q = Fin (of_int m * pow2 (e - 52))"
proof -
  have q: "0 < q" using assms(1) pow2_pos [of e] by linarith
  have "max (ilog2 q - 52) (- 1074) = e - 52" using ilog2_eq [OF assms(1,2)] assms(3) by simp
  then have "round_pos q = of_int m * pow2 (e - 52)" using assms(5) by (simp add: round_pos_def)
  moreover have "of_int m * pow2 (e - 52) < pow2 54 * pow2 (e - 52)"
  proof (rule mult_strict_right_mono)
    have "pow2 54 = of_int (2 ^ 54)" by (simp add: pow2_def)
    then show "of_int m < pow2 54" using assms(6) by (simp only: of_int_less_iff)
  qed simp
  then have "of_int m * pow2 (e - 52) < pow2 (54 + (e - 52))" by (simp only: pow2_add)
  then have "of_int m * pow2 (e - 52) < pow2 1024"
    using pow2_mono [of "54 + (e - 52)" 1024] assms(4) by linarith
  ultimately show ?thesis using q by (simp add: float_of_def Let_def)
qed

end
