(* ===== verification/ReleaseGates.thy ===== *)
theory ReleaseGates
  imports JsonValues ReleaseIdentity PyText
begin

text \<open>
  The gates in front of a publication: \<^verbatim>\<open>publication_decision.py\<close> (which trigger publishes),
  \<^verbatim>\<open>publication.py\<close> (which publication modes a configuration allows), \<^verbatim>\<open>release_reliability.py\<close> (the
  order of the release phases) and \<^verbatim>\<open>release_readiness.py\<close> (whether a release manifest is
  sufficient evidence).
\<close>

section \<open>Text normalisation\<close>

text \<open>
  \<^verbatim>\<open>lower()\<close> on ASCII letters.  The only other code points whose lower case contains an ASCII letter
  are those of the Kelvin sign and of the dotted capital I, which give letters that do not occur in
  the words compared with.
\<close>

definition lower_point :: "nat \<Rightarrow> nat" where
  "lower_point p = (if 65 \<le> p \<and> p \<le> 90 then p + 32 else p)"

text \<open>Whether \<^verbatim>\<open>s.strip().lower() == word\<close>, for a word of lower-case letters without \<^verbatim>\<open>k\<close> and \<^verbatim>\<open>i\<close>.\<close>

definition normalized_is :: "string \<Rightarrow> string \<Rightarrow> bool" where
  "normalized_is word s = (case utf8_points s of None \<Rightarrow> False
     | Some ps \<Rightarrow> map lower_point (strip_points ps) = map of_char word)"

section \<open>\<^verbatim>\<open>publication_decision.py\<close>\<close>

datatype publication_mode = DryRun | Publish

record publication_decision =
  pd_mode :: publication_mode
  pd_reason :: string
  pd_event :: "string option"

definition should_publish :: "publication_decision \<Rightarrow> bool" where
  "should_publish d \<longleftrightarrow> pd_mode d = Publish"

text \<open>A signal of type \<^verbatim>\<open>str | bool | None\<close>.\<close>

datatype signal = NoSignal | Flag bool | Text string

datatype gate_error =
    InvalidScheduledEnablement
  | UnsupportedEvent string
  | ArtifactDisabled
  | KvDisabled
  | ArtifactMustBeDisabled
  | GithubReleaseMustBeDisabled
  | AcknowledgementRequired
  | GithubReleaseDisabled
  | PublicReleaseBlocked
  | UnknownMode string
  | PhaseEnteredTwice
  | PhaseOutOfOrder
  | PhaseFinished
  | ReadinessPolicyInvalid
  | ExpectedCommitInvalid
  | ReadinessBlocked "string list"

definition decision :: "bool \<Rightarrow> string \<Rightarrow> string option \<Rightarrow> publication_decision" where
  "decision publish reason event_name =
     \<lparr>pd_mode = (if publish then Publish else DryRun), pd_reason = reason, pd_event = event_name\<rparr>"

text \<open>\<^verbatim>\<open>str(value or "")\<close> for a signal that is not a boolean.\<close>

definition signal_text :: "signal \<Rightarrow> string" where
  "signal_text v = (case v of Text s \<Rightarrow> s | _ \<Rightarrow> '''')"

definition scheduled_publication_enabled :: "signal \<Rightarrow> gate_error + bool" where
  "scheduled_publication_enabled v = (case v of Flag b \<Rightarrow> Inr b
     | _ \<Rightarrow> (let s = signal_text v in
         if normalized_is '''' s \<or> normalized_is ''false'' s then Inr False
         else if normalized_is ''true'' s then Inr True
         else Inl InvalidScheduledEnablement))"

definition manual_publication :: "signal \<Rightarrow> bool" where
  "manual_publication v = (case v of Flag b \<Rightarrow> b | _ \<Rightarrow> normalized_is ''true'' (signal_text v))"

definition resolve_publication_decision ::
  "bool option \<Rightarrow> string option \<Rightarrow> signal \<Rightarrow> signal \<Rightarrow> gate_error + publication_decision"
where
  "resolve_publication_decision explicit_publish event_name manual_publish scheduled_publish =
     (if event_name = Some ''push'' then Inr (decision False ''automatic_event'' event_name)
      else if event_name = Some ''schedule'' then
        bindE (scheduled_publication_enabled scheduled_publish) (\<lambda>publish.
          Inr (decision publish (if publish then ''scheduled_publication'' else ''automatic_event'') event_name))
      else (case explicit_publish of
        Some publish \<Rightarrow> Inr (decision publish ''explicit_flag'' event_name)
      | None \<Rightarrow>
          (case event_name of
            None \<Rightarrow> Inr (decision False ''no_event'' None)
          | Some event \<Rightarrow>
              if event = '''' then Inr (decision False ''no_event'' None)
              else if event = ''workflow_dispatch''
              then Inr (decision (manual_publication manual_publish) ''manual_dispatch'' event_name)
              else Inl (UnsupportedEvent event))))"

text \<open>The triggers that publish, as the documentation lists them.\<close>

definition publishing_trigger :: "bool option \<Rightarrow> string option \<Rightarrow> signal \<Rightarrow> signal \<Rightarrow> bool" where
  "publishing_trigger explicit_publish event_name manual_publish scheduled_publish \<longleftrightarrow>
     (case event_name of
        Some event \<Rightarrow>
          (event = ''schedule'' \<and> (scheduled_publish = Flag True
             \<or> (\<exists>s. scheduled_publish = Text s \<and> normalized_is ''true'' s)))
          \<or> (event \<noteq> ''schedule'' \<and> event \<noteq> ''push'' \<and> explicit_publish = Some True)
          \<or> (event = ''workflow_dispatch'' \<and> explicit_publish = None
             \<and> (manual_publish = Flag True \<or> (\<exists>s. manual_publish = Text s \<and> normalized_is ''true'' s)))
      | None \<Rightarrow> explicit_publish = Some True)"

lemma normalized_exclusive:
  "normalized_is ''true'' s \<Longrightarrow> \<not> normalized_is '''' s \<and> \<not> normalized_is ''false'' s"
  by (auto simp: normalized_is_def split: option.splits)

lemma normalized_empty [simp]: "\<not> normalized_is ''true'' ''''" "normalized_is '''' ''''"
  by (simp_all add: normalized_is_def strip_points_def)

lemma scheduled_enabled_iff:
  "scheduled_publication_enabled v = Inr True \<longleftrightarrow> v = Flag True \<or> (\<exists>s. v = Text s \<and> normalized_is ''true'' s)"
  using normalized_exclusive
  by (cases v) (auto simp: scheduled_publication_enabled_def signal_text_def Let_def)

text \<open>
  C25.  Publication is opt-in.  A decision publishes exactly when a schedule is enabled by a true
  signal, or, outside push and schedule events, when the caller asks for it explicitly or a manual
  dispatch without such a request carries a true signal.  A push never publishes.
\<close>

theorem publication_is_opt_in:
  "(\<exists>d. resolve_publication_decision explicit event manual scheduled = Inr d \<and> should_publish d)
     \<longleftrightarrow> publishing_trigger explicit event manual scheduled"
proof (cases event)
  case None
  then show ?thesis
    by (cases explicit) (auto simp: resolve_publication_decision_def publishing_trigger_def decision_def should_publish_def)
next
  case (Some e)
  consider (push) "e = ''push''" | (schedule) "e = ''schedule''" | (other) "e \<noteq> ''push''" "e \<noteq> ''schedule''" by blast
  then show ?thesis
  proof cases
    case push
    then show ?thesis using Some
      by (simp add: resolve_publication_decision_def publishing_trigger_def decision_def should_publish_def)
  next
    case schedule
    have "(\<exists>d. resolve_publication_decision explicit event manual scheduled = Inr d \<and> should_publish d)
        \<longleftrightarrow> scheduled_publication_enabled scheduled = Inr True"
      using Some schedule
      by (cases "scheduled_publication_enabled scheduled")
        (auto simp: resolve_publication_decision_def decision_def should_publish_def)
    then show ?thesis using Some schedule by (simp add: scheduled_enabled_iff publishing_trigger_def)
  next
    case other
    then show ?thesis using Some
      by (cases explicit; cases manual)
        (auto simp: resolve_publication_decision_def publishing_trigger_def decision_def should_publish_def
          manual_publication_def signal_text_def)
  qed
qed

section \<open>\<^verbatim>\<open>publication.py\<close>\<close>

text \<open>The \<^verbatim>\<open>publishing\<close> section of a validated configuration; its flags are booleans by schema.\<close>

record publishing =
  pb_artifact :: bool
  pb_kv_enabled :: bool
  pb_github_enabled :: bool
  pb_github_allow_public :: bool

definition ACKNOWLEDGEMENT :: string where
  "ACKNOWLEDGEMENT = ''I_UNDERSTAND_THIS_PUBLISHES_PROXY_CREDENTIALS''"

definition publication_gate :: "publishing \<Rightarrow> string \<Rightarrow> string \<Rightarrow> gate_error + unit" where
  "publication_gate config mode acknowledgement =
     (if mode = ''artifact'' then (if \<not> pb_artifact config then Inl ArtifactDisabled else Inr ())
      else if mode = ''cloudflare_kv'' then
        (if \<not> pb_kv_enabled config then Inl KvDisabled
         else if pb_artifact config then Inl ArtifactMustBeDisabled
         else if pb_github_enabled config then Inl GithubReleaseMustBeDisabled
         else Inr ())
      else if acknowledgement \<noteq> ACKNOWLEDGEMENT then Inl AcknowledgementRequired
      else if mode = ''github_release'' then
        (if \<not> pb_github_enabled config then Inl GithubReleaseDisabled
         else if \<not> pb_github_allow_public config then Inl PublicReleaseBlocked
         else Inr ())
      else Inl (UnknownMode mode))"

text \<open>
  The modes that expose credentials outside the KV namespace need their own opt-in: the
  private KV mode is open exactly when it is enabled and every other mode is closed under every
  acknowledgement, release publication being switched off altogether.
\<close>

theorem publication_gate_exclusive:
  "publication_gate config ''cloudflare_kv'' ack = Inr () \<longleftrightarrow>
     pb_kv_enabled config \<and> \<not> pb_github_enabled config
     \<and> (\<nexists>mode ack'. mode \<noteq> ''cloudflare_kv'' \<and> publication_gate config mode ack' = Inr ())"
proof -
  have k: "publication_gate config ''cloudflare_kv'' a = Inr () \<longleftrightarrow>
      pb_kv_enabled config \<and> \<not> pb_artifact config \<and> \<not> pb_github_enabled config" for a
    by (simp add: publication_gate_def)
  have r: "publication_gate config ''artifact'' a = Inr () \<longleftrightarrow> pb_artifact config" for a
    by (simp add: publication_gate_def)
  have o: "pb_artifact config \<or> pb_github_enabled config"
    if "mode \<noteq> ''cloudflare_kv''" "publication_gate config mode a = Inr ()" for mode a
    using that by (cases "mode = ''artifact''"; cases "mode = ''github_release''")
      (simp_all add: publication_gate_def split: if_splits)
  have "(\<exists>mode a. mode \<noteq> ''cloudflare_kv'' \<and> publication_gate config mode a = Inr ())"
    if "pb_artifact config"
    using r that by (intro exI [of _ "''artifact''"]) simp
  then show ?thesis unfolding k using o by blast
qed

section \<open>\<^verbatim>\<open>release_reliability.py\<close>\<close>

datatype release_phase = Prepared | Qualified | Promoted | Published | Verified

record release_progress =
  rp_publish :: bool
  rp_history :: "release_phase list"

definition phase_text :: "release_phase \<Rightarrow> string" where
  "phase_text p = (case p of Prepared \<Rightarrow> ''prepared'' | Qualified \<Rightarrow> ''qualified'' | Promoted \<Rightarrow> ''promoted''
     | Published \<Rightarrow> ''published'' | Verified \<Rightarrow> ''verified'')"

definition current_phase :: "release_progress \<Rightarrow> string" where
  "current_phase st = (if rp_history st = [] then ''not_started'' else phase_text (last (rp_history st)))"

definition expected_next :: "release_progress \<Rightarrow> gate_error + release_phase" where
  "expected_next st =
     (if rp_history st = [] then Inr Prepared
      else (case last (rp_history st) of
        Prepared \<Rightarrow> Inr Qualified
      | Qualified \<Rightarrow> Inr Promoted
      | Promoted \<Rightarrow> Inr (if rp_publish st then Published else Verified)
      | Published \<Rightarrow> Inr Verified
      | Verified \<Rightarrow> Inl PhaseFinished))"

definition advance_phase :: "release_phase \<Rightarrow> release_progress \<Rightarrow> gate_error + release_progress" where
  "advance_phase phase st =
     (if phase \<in> set (rp_history st) then Inl PhaseEnteredTwice
      else bindE (expected_next st) (\<lambda>expected.
        if phase \<noteq> expected then Inl PhaseOutOfOrder
        else Inr (st\<lparr>rp_history := rp_history st @ [phase]\<rparr>)))"

definition safe_summary :: "release_progress \<Rightarrow> json" where
  "safe_summary st = JObj [(''phase'', JStr (current_phase st)),
     (''history'', JList (map (JStr \<circ> phase_text) (rp_history st))),
     (''publication_requested'', JBool (rp_publish st))]"

text \<open>The states a run can reach by successful calls of \<^verbatim>\<open>advance\<close>.\<close>

inductive progress_reachable :: "bool \<Rightarrow> release_progress \<Rightarrow> bool" for publish where
  progress_start: "progress_reachable publish \<lparr>rp_publish = publish, rp_history = []\<rparr>"
| progress_step: "progress_reachable publish st \<Longrightarrow> advance_phase phase st = Inr st' \<Longrightarrow> progress_reachable publish st'"

definition phase_order :: "bool \<Rightarrow> release_phase list" where
  "phase_order publish = [Prepared, Qualified, Promoted] @ (if publish then [Published] else []) @ [Verified]"

lemma phase_order_cases:
  assumes "phase_order publish = h @ t"
  shows "h \<in> {take n (phase_order publish) | n. n \<le> 5}"
proof -
  have "h = take (length h) (phase_order publish)" using assms by simp
  moreover have "length h \<le> length (phase_order publish)" using assms by simp
  then have "length h \<le> 5" by (cases publish) (simp_all add: phase_order_def)
  ultimately show ?thesis by blast
qed

lemma advance_prefix:
  assumes "rp_publish st = publish" and "phase_order publish = rp_history st @ t"
  shows "advance_phase p st = Inr st' \<longleftrightarrow>
     (\<exists>rest. t = p # rest) \<and> st' = st\<lparr>rp_history := rp_history st @ [p]\<rparr>"
proof -
  obtain n where n: "n \<le> 5" "rp_history st = take n (phase_order publish)"
    using phase_order_cases [OF assms(2)] by blast
  then have "n \<in> {0, 1, 2, 3, 4, 5}" by auto
  moreover have "t = drop n (phase_order publish)"
    using assms(2) n(2) by (metis append_eq_conv_conj append_take_drop_id same_append_eq)
  ultimately show ?thesis using assms(1) n(2)
    by (cases publish; cases p) (auto simp: phase_order_def advance_phase_def expected_next_def)
qed

text \<open>
  C26.  The release phases are entered in the documented order and only so: the reachable histories
  are exactly the prefixes of prepared, qualified, promoted, published when publication was
  requested, and verified.
\<close>

theorem progress_histories:
  "progress_reachable publish st \<longleftrightarrow>
     rp_publish st = publish \<and> (\<exists>rest. phase_order publish = rp_history st @ rest)"
proof
  assume "progress_reachable publish st"
  then show "rp_publish st = publish \<and> (\<exists>rest. phase_order publish = rp_history st @ rest)"
    by (induction rule: progress_reachable.induct) (auto simp: advance_prefix)
next
  assume st: "rp_publish st = publish \<and> (\<exists>rest. phase_order publish = rp_history st @ rest)"
  have "phase_order publish = h @ t \<Longrightarrow> progress_reachable publish \<lparr>rp_publish = publish, rp_history = h\<rparr>" for h t
  proof (induction h arbitrary: t rule: rev_induct)
    case Nil
    show ?case by (rule progress_start)
  next
    case (snoc p h)
    have "progress_reachable publish \<lparr>rp_publish = publish, rp_history = h\<rparr>"
      by (rule snoc.IH [of "p # t"]) (use snoc.prems in simp)
    then show ?case
      by (rule progress_step [where phase = p]) (use snoc.prems in \<open>simp add: advance_prefix\<close>)
  qed
  with st show "progress_reachable publish st" by (cases st) auto
qed

section \<open>\<^verbatim>\<open>release_readiness.py\<close>\<close>

record readiness_policy =
  ry_config_version :: int
  ry_policy_version :: int
  ry_minimum_cores :: int

definition readiness_policy_ok :: "readiness_policy \<Rightarrow> gate_error + unit" where
  "readiness_policy_ok p =
     (if ry_config_version p < 1 \<or> ry_policy_version p < 1 \<or> ry_minimum_cores p < 1
      then Inl ReadinessPolicyInvalid else Inr ())"

definition default_readiness_policy :: readiness_policy where
  "default_readiness_policy = \<lparr>ry_config_version = 2, ry_policy_version = 2, ry_minimum_cores = 2\<rparr>"

definition is_git_sha :: "string \<Rightarrow> bool" where
  "is_git_sha s \<longleftrightarrow> length s = 40 \<and> list_all is_lower_hex s"

definition flag_when :: "bool \<Rightarrow> string \<Rightarrow> string list" where
  "flag_when b s = (if b then [s] else [])"

text \<open>The non-empty strings of \<^verbatim>\<open>validated_cores\<close>.\<close>

fun core_names :: "json list \<Rightarrow> string list" where
  "core_names [] = []"
| "core_names (JStr s # xs) = (if s = '''' then core_names xs else s # core_names xs)"
| "core_names (_ # xs) = core_names xs"

definition manifest_cores :: "json dict \<Rightarrow> string list" where
  "manifest_cores mihomo = (case json_get mihomo ''validated_cores'' of JList xs \<Rightarrow> core_names xs | _ \<Rightarrow> [])"

text \<open>\<^verbatim>\<open>isinstance(x, str) and _SHA256.fullmatch(x)\<close>; the pattern is that of a release identifier.\<close>

definition sha_json :: "json \<Rightarrow> bool" where
  "sha_json j = (case j of JStr s \<Rightarrow> is_release_id s | _ \<Rightarrow> False)"

definition promotion_passed :: "json \<Rightarrow> bool" where
  "promotion_passed j = (case j of
      JObj d \<Rightarrow> json_get d ''status'' = JStr ''passed'' \<and> eq_int (json_get d ''violations'') 0
    | _ \<Rightarrow> False)"

definition matrix_passed :: "readiness_policy \<Rightarrow> json \<Rightarrow> bool" where
  "matrix_passed policy j = (case j of
      JObj d \<Rightarrow> json_get d ''status'' = JStr ''passed'' \<and> json_get d ''channel'' = JStr ''stable''
        \<and> \<not> int (length (remdups (manifest_cores d))) < ry_minimum_cores policy
    | _ \<Rightarrow> False)"

definition readiness_violations :: "json dict \<Rightarrow> string \<Rightarrow> readiness_policy \<Rightarrow> string list" where
  "readiness_violations m expected policy =
     (let release_id = json_get m ''release_id''; previous = json_get m ''previous_release_id'' in
        flag_when (json_get m ''publication_status'' \<noteq> JStr ''published'') ''publication_status''
      @ flag_when (json_get m ''release_status'' \<noteq> JStr ''published'') ''release_status''
      @ flag_when (\<not> sha_json release_id \<or> json_get m ''config_sha256'' \<noteq> release_id) ''release_identity''
      @ flag_when (json_get m ''commit_sha'' \<noteq> JStr expected) ''commit_sha''
      @ flag_when (\<not> eq_int (json_get m ''public_config_version'') (ry_config_version policy)) ''public_config_version''
      @ flag_when (\<not> eq_int (json_get m ''policy_model_version'') (ry_policy_version policy)) ''policy_model_version''
      @ flag_when (\<not> promotion_passed (json_get m ''promotion_guard'')) ''promotion_guard''
      @ flag_when (\<not> matrix_passed policy (json_get m ''mihomo'')) ''mihomo_matrix''
      @ flag_when (previous \<noteq> JNull \<and> (\<not> sha_json previous \<or> previous = release_id)) ''rollback_identity'')"

record readiness_result =
  rr_status :: string
  rr_violations :: "string list"
  rr_policy :: readiness_policy

definition assess_release_readiness ::
  "json dict \<Rightarrow> string \<Rightarrow> readiness_policy \<Rightarrow> gate_error + readiness_result"
where
  "assess_release_readiness m expected policy =
     (if \<not> is_git_sha expected then Inl ExpectedCommitInvalid
      else (let violations = readiness_violations m expected policy in
        Inr \<lparr>rr_status = (if violations = [] then ''passed'' else ''blocked''),
             rr_violations = sort violations, rr_policy = policy\<rparr>))"

definition validate_release_readiness ::
  "json dict \<Rightarrow> string \<Rightarrow> readiness_policy \<Rightarrow> gate_error + readiness_result"
where
  "validate_release_readiness m expected policy =
     bindE (assess_release_readiness m expected policy) (\<lambda>result.
       if rr_status result \<noteq> ''passed'' then Inl (ReadinessBlocked (rr_violations result))
       else Inr result)"

lemma flag_when_Nil [simp]: "flag_when b s = [] \<longleftrightarrow> \<not> b"
  by (simp add: flag_when_def)

text \<open>
  C27.  Readiness validation accepts a manifest exactly when it is complete evidence for the
  expected commit: published, its release identifier the digest of its configuration, the versions
  of the policy, a passed promotion guard without violations, enough distinct stable cores, and a
  predecessor, where one is named, that is a different well-formed release.  A malformed or missing
  field is never accepted.
\<close>

theorem readiness_exact:
  "(\<exists>result. validate_release_readiness m expected policy = Inr result) \<longleftrightarrow>
     is_git_sha expected \<and> json_get m ''commit_sha'' = JStr expected
     \<and> json_get m ''publication_status'' = JStr ''published'' \<and> json_get m ''release_status'' = JStr ''published''
     \<and> (\<exists>i. json_get m ''release_id'' = JStr i \<and> json_get m ''config_sha256'' = JStr i \<and> is_release_id i
          \<and> (json_get m ''previous_release_id'' = JNull
             \<or> (\<exists>p. json_get m ''previous_release_id'' = JStr p \<and> is_release_id p \<and> p \<noteq> i)))
     \<and> eq_int (json_get m ''public_config_version'') (ry_config_version policy)
     \<and> eq_int (json_get m ''policy_model_version'') (ry_policy_version policy)
     \<and> (\<exists>d. json_get m ''promotion_guard'' = JObj d \<and> json_get d ''status'' = JStr ''passed''
          \<and> eq_int (json_get d ''violations'') 0)
     \<and> (\<exists>d. json_get m ''mihomo'' = JObj d \<and> json_get d ''status'' = JStr ''passed''
          \<and> json_get d ''channel'' = JStr ''stable''
          \<and> ry_minimum_cores policy \<le> int (card (set (manifest_cores d))))"
proof -
  have sha: "sha_json j \<longleftrightarrow> (\<exists>s. j = JStr s \<and> is_release_id s)" for j
    by (cases j) (simp_all add: sha_json_def)
  have guard: "promotion_passed j \<longleftrightarrow> (\<exists>d. j = JObj d \<and> json_get d ''status'' = JStr ''passed''
      \<and> eq_int (json_get d ''violations'') 0)" for j
    by (cases j) (simp_all add: promotion_passed_def)
  have matrix: "matrix_passed policy j \<longleftrightarrow> (\<exists>d. j = JObj d \<and> json_get d ''status'' = JStr ''passed''
      \<and> json_get d ''channel'' = JStr ''stable'' \<and> ry_minimum_cores policy \<le> int (card (set (manifest_cores d))))" for j
    by (cases j) (auto simp: matrix_passed_def length_remdups_card_conv)
  have "(\<exists>result. validate_release_readiness m expected policy = Inr result) \<longleftrightarrow>
      is_git_sha expected \<and> readiness_violations m expected policy = []"
    by (auto simp: validate_release_readiness_def assess_release_readiness_def Let_def)
  also have "\<dots> \<longleftrightarrow> is_git_sha expected \<and> json_get m ''commit_sha'' = JStr expected
     \<and> json_get m ''publication_status'' = JStr ''published'' \<and> json_get m ''release_status'' = JStr ''published''
     \<and> (sha_json (json_get m ''release_id'') \<and> json_get m ''config_sha256'' = json_get m ''release_id''
          \<and> (json_get m ''previous_release_id'' = JNull
             \<or> (sha_json (json_get m ''previous_release_id'') \<and> json_get m ''previous_release_id'' \<noteq> json_get m ''release_id'')))
     \<and> eq_int (json_get m ''public_config_version'') (ry_config_version policy)
     \<and> eq_int (json_get m ''policy_model_version'') (ry_policy_version policy)
     \<and> promotion_passed (json_get m ''promotion_guard'') \<and> matrix_passed policy (json_get m ''mihomo'')"
    unfolding readiness_violations_def Let_def append_is_Nil_conv flag_when_Nil by blast
  finally show ?thesis unfolding guard matrix sha by auto
qed

end
