(* ===== verification/SchedulerHistory.thy ===== *)
theory SchedulerHistory
  imports JsonValues FloatFacts ReleaseGates
begin

text \<open>
  \<^verbatim>\<open>scheduler_history.py\<close>: the anonymous stability aggregates of browsing nodes.  Stored documents
  are decoded JSON; a cleaned record is typed.  The keyed digest is a parameter, the clock an
  argument; sets of names are lists whose order does not matter.
\<close>

datatype history_error =
    FingerprintInvalid
  | EmptyKeySource
  | EmptyFilter
  | FloatOverflow
  | IntegerTooLong
  | UnhashableVersion

definition STATE_VERSION :: int where "STATE_VERSION = 3"
definition LEGACY_STATE_VERSIONS :: "int list" where "LEGACY_STATE_VERSIONS = [1, 2]"
definition ALPHA :: rat where "ALPHA = (case float_of (3 / 10) of Fin a \<Rightarrow> a | _ \<Rightarrow> 0)"
definition ALPHA_REST :: rat where "ALPHA_REST = (case float_of (1 - ALPHA) of Fin a \<Rightarrow> a | _ \<Rightarrow> 0)"
definition LATENCY_ALPHA :: rat where "LATENCY_ALPHA = 1 / 4"
definition MIN_HISTORY_RUNS :: int where "MIN_HISTORY_RUNS = 2"
definition MIN_SUCCESS_EMA :: pyfloat where "MIN_SUCCESS_EMA = float_of (4 / 5)"
definition RECOVER_SUCCESS_EMA :: pyfloat where "RECOVER_SUCCESS_EMA = float_of (9 / 10)"
definition DEMOTE_AFTER_FAILURES :: int where "DEMOTE_AFTER_FAILURES = 2"
definition MAX_AGE_SECONDS :: int where "MAX_AGE_SECONDS = 30 * 24 * 60 * 60"
definition HISTORY_RECORDS :: nat where "HISTORY_RECORDS = 4096"

record node_record =
  nr_runs :: int
  nr_ema :: pyfloat
  nr_failures :: int
  nr_seen :: int
  nr_preferred :: bool

record cohort =
  co_runs :: int
  co_latency :: "pyfloat option"
  co_seen :: int

record history_state =
  hs_nodes :: "node_record dict"
  hs_cohort :: cohort

definition empty_cohort :: cohort where
  "empty_cohort = \<lparr>co_runs = 0, co_latency = None, co_seen = 0\<rparr>"

definition empty_history :: history_state where
  "empty_history = \<lparr>hs_nodes = [], hs_cohort = empty_cohort\<rparr>"

section \<open>Fingerprints\<close>

text \<open>\<open>hmac key message\<close> is the hexadecimal digest.\<close>

definition derive_fingerprint_key :: "(bytes \<Rightarrow> bytes \<Rightarrow> bytes) \<Rightarrow> string \<Rightarrow> history_error + bytes" where
  "derive_fingerprint_key hmac token =
     (if token = '''' then Inl EmptyKeySource
      else Inr (hmac token ''clash-relay/browsing-scheduler-history/v1''))"

definition fingerprint_runtime_name ::
  "(bytes \<Rightarrow> bytes \<Rightarrow> string) \<Rightarrow> string \<Rightarrow> bytes \<Rightarrow> history_error + string" where
  "fingerprint_runtime_name hmac runtime_name key =
     (if runtime_name = '''' \<or> key = '''' then Inl FingerprintInvalid else Inr (hmac key runtime_name))"

section \<open>Cleaning stored values\<close>

text \<open>An \<^verbatim>\<open>int\<close> that is not a \<^verbatim>\<open>bool\<close>.\<close>

definition plain_int :: "json \<Rightarrow> int option" where
  "plain_int j = (case j of JInt n \<Rightarrow> Some n | _ \<Rightarrow> None)"

text \<open>\<^verbatim>\<open>float(x)\<close> of an \<^verbatim>\<open>int\<close> or \<^verbatim>\<open>float\<close> that is not a \<^verbatim>\<open>bool\<close>; a huge integer overflows.\<close>

definition number_value :: "json \<Rightarrow> history_error + pyfloat option" where
  "number_value j = (case j of
      JFloat f \<Rightarrow> Inr (Some f)
    | JInt n \<Rightarrow> (case float_of_int n of Some f \<Rightarrow> Inr (Some f) | None \<Rightarrow> Inl FloatOverflow)
    | _ \<Rightarrow> Inr None)"

definition in_unit :: "pyfloat \<Rightarrow> bool" where
  "in_unit f \<longleftrightarrow> float_le (Fin 0) f \<and> float_le f (Fin 1)"

text \<open>\<^verbatim>\<open>record.get("historically_preferred", True)\<close>, if it is a boolean.\<close>

definition preferred_flag :: "json dict \<Rightarrow> bool option" where
  "preferred_flag d = (case map_of d ''historically_preferred'' of None \<Rightarrow> Some True
     | Some (JBool b) \<Rightarrow> Some b | Some _ \<Rightarrow> None)"

definition clean_node_record :: "json \<Rightarrow> history_error + node_record option" where
  "clean_node_record record = (case record of
     JObj d \<Rightarrow>
       (case plain_int (json_get d ''runs'') of None \<Rightarrow> Inr None
        | Some runs \<Rightarrow>
          if runs < 1 then Inr None
          else bindE (number_value (json_get d ''success_ema'')) (\<lambda>ema.
            (case ema of None \<Rightarrow> Inr None
             | Some f \<Rightarrow>
               if \<not> in_unit f then Inr None
               else (case (plain_int (json_get d ''consecutive_failed_runs''),
                           plain_int (json_get d ''last_seen_epoch''), preferred_flag d) of
                   (Some failures, Some last_seen, Some preferred) \<Rightarrow>
                     if failures < 0 \<or> last_seen < 0 then Inr None
                     else Inr (Some \<lparr>nr_runs = runs, nr_ema = float_round f 6, nr_failures = failures,
                                     nr_seen = last_seen, nr_preferred = preferred\<rparr>)
                 | _ \<Rightarrow> Inr None))))
   | _ \<Rightarrow> Inr None)"

text \<open>\<^verbatim>\<open>value.get(k, 0)\<close> where anything but a non-negative \<^verbatim>\<open>int\<close> counts as zero.\<close>

definition count_or_zero :: "json dict \<Rightarrow> string \<Rightarrow> int" where
  "count_or_zero d k = (case map_of d k of Some (JInt n) \<Rightarrow> if n < 0 then 0 else n | _ \<Rightarrow> 0)"

definition clean_cohort :: "json \<Rightarrow> history_error + cohort" where
  "clean_cohort value = (case value of
     JObj d \<Rightarrow>
       bindE (number_value (json_get d ''latency_ema_ms'')) (\<lambda>latency.
         Inr \<lparr>co_runs = count_or_zero d ''runs'',
              co_latency = (case latency of None \<Rightarrow> None
                | Some f \<Rightarrow> if float_less f (Fin 0) \<or> float_less (Fin 120000) f then None
                            else Some (float_round f 3)),
              co_seen = count_or_zero d ''last_seen_epoch''\<rparr>)
   | _ \<Rightarrow> Inr empty_cohort)"

text \<open>\<^verbatim>\<open>len(s)\<close> of a string: its code points.\<close>

definition text_length :: "string \<Rightarrow> nat" where
  "text_length s = (case utf8_points s of Some ps \<Rightarrow> length ps | None \<Rightarrow> length s)"

text \<open>The loop over the stored nodes: \<open>None\<close> is the early return of an invalid document.\<close>

fun clean_nodes :: "(string \<times> json) list \<Rightarrow> node_record dict \<Rightarrow> history_error + node_record dict option" where
  "clean_nodes [] clean = Inr (Some clean)"
| "clean_nodes ((fingerprint, row) # rest) clean =
     (if text_length fingerprint \<noteq> 64 then Inr None
      else bindE (clean_node_record row) (\<lambda>r.
        (case r of None \<Rightarrow> Inr None
         | Some x \<Rightarrow> clean_nodes rest (dict_set fingerprint x clean))))"

definition version_in :: "json \<Rightarrow> int list \<Rightarrow> bool" where
  "version_in j vs \<longleftrightarrow> list_ex (eq_int j) vs"

text \<open>Membership in a Python set raises \<^verbatim>\<open>TypeError\<close> on a list or mapping.\<close>

definition unhashable :: "json \<Rightarrow> bool" where
  "unhashable j \<longleftrightarrow> (case j of JList _ \<Rightarrow> True | JObj _ \<Rightarrow> True | _ \<Rightarrow> False)"

definition parse_history_document :: "json \<Rightarrow> history_error + history_state \<times> string" where
  "parse_history_document document = (case document of
     JObj d \<Rightarrow>
       (let version = json_get d ''version'' in
        if unhashable version then Inl UnhashableVersion
        else if \<not> version_in version (LEGACY_STATE_VERSIONS @ [STATE_VERSION])
        then Inr (empty_history, ''invalid'')
        else (case json_get d ''nodes'' of
          JObj nodes \<Rightarrow>
            bindE (clean_nodes nodes []) (\<lambda>clean.
              (case clean of None \<Rightarrow> Inr (empty_history, ''invalid'')
               | Some ns \<Rightarrow>
                 bindE (clean_cohort (if eq_int version 1 then JNull else json_get d ''cohort'')) (\<lambda>c.
                   Inr (\<lparr>hs_nodes = ns, hs_cohort = c\<rparr>,
                        if version_in version LEGACY_STATE_VERSIONS then ''migrated'' else ''loaded''))))
        | _ \<Rightarrow> Inr (empty_history, ''invalid'')))
   | _ \<Rightarrow> Inr (empty_history, ''invalid''))"

definition parse_history_bytes :: "bytes \<Rightarrow> history_error + history_state \<times> string" where
  "parse_history_bytes content =
     (if content = '''' then Inr (empty_history, ''missing'')
      else if \<not> valid_utf8 content then Inr (empty_history, ''invalid'')
      else (case json_loads content of
          Inl IntTooLong \<Rightarrow> Inl IntegerTooLong
        | Inl _ \<Rightarrow> Inr (empty_history, ''invalid'')
        | Inr document \<Rightarrow> parse_history_document document))"

section \<open>Preference\<close>

definition history_prefers :: "node_record \<Rightarrow> pyfloat \<Rightarrow> pyfloat \<Rightarrow> int \<Rightarrow> bool" where
  "history_prefers r min_success_ema recover_success_ema demote_after_failures =
     (if nr_preferred r then
        (if demote_after_failures \<le> nr_failures r then False
         else if 0 < nr_failures r \<and> nr_failures r < demote_after_failures then True
         else float_le min_success_ema (nr_ema r))
      else nr_failures r = 0 \<and> float_le recover_success_ema (nr_ema r))"

definition fresh_record :: "int \<Rightarrow> int \<Rightarrow> node_record \<Rightarrow> bool" where
  "fresh_record max_age now r \<longleftrightarrow> 0 < nr_seen r \<and> nr_seen r \<le> now \<and> now - nr_seen r \<le> max_age"

definition prefers_name ::
  "(bytes \<Rightarrow> bytes \<Rightarrow> string) \<Rightarrow> node_record dict \<Rightarrow> bytes \<Rightarrow> int \<Rightarrow> string \<Rightarrow> history_error + bool" where
  "prefers_name hmac nodes key now name =
     bindE (fingerprint_runtime_name hmac name key) (\<lambda>fp.
       (case map_of nodes fp of None \<Rightarrow> Inr True
        | Some r \<Rightarrow>
            if \<not> fresh_record MAX_AGE_SECONDS now r \<or> nr_runs r < MIN_HISTORY_RUNS then Inr True
            else Inr (history_prefers r MIN_SUCCESS_EMA RECOVER_SUCCESS_EMA DEMOTE_AFTER_FAILURES)))"

text \<open>Keep the names a fallible test accepts.\<close>

fun filterE :: "('a \<Rightarrow> 'e + bool) \<Rightarrow> 'a list \<Rightarrow> 'e + 'a list" where
  "filterE f [] = Inr []"
| "filterE f (x # xs) = bindE (f x) (\<lambda>b. bindE (filterE f xs) (\<lambda>ys. Inr (if b then x # ys else ys)))"

definition preferred_stable_names ::
  "(bytes \<Rightarrow> bytes \<Rightarrow> string) \<Rightarrow> string list \<Rightarrow> history_state \<Rightarrow> bytes \<Rightarrow> int \<Rightarrow> history_error + string list" where
  "preferred_stable_names hmac stables history key now =
     filterE (prefers_name hmac (hs_nodes history) key now) stables"

section \<open>Updating\<close>

definition update_cohort_latency :: "json \<Rightarrow> pyfloat option \<Rightarrow> int \<Rightarrow> history_error + cohort" where
  "update_cohort_latency stored current now =
     bindE (clean_cohort stored) (\<lambda>old.
       Inr (case current of None \<Rightarrow> old
        | Some c \<Rightarrow>
            if float_less c (Fin 0) \<or> float_less (Fin 120000) c then old
            else (let ema = (case co_latency old of
                      None \<Rightarrow> c
                    | Some l \<Rightarrow> if co_runs old = 0 then c
                        else float_add (float_scale l (1 - LATENCY_ALPHA)) (float_scale c LATENCY_ALPHA))
              in \<lparr>co_runs = co_runs old + 1, co_latency = Some (float_round ema 3), co_seen = now\<rparr>)))"

text \<open>The stored records young enough to keep.\<close>

fun retain_records :: "int \<Rightarrow> (string \<times> json) list \<Rightarrow> node_record dict \<Rightarrow> history_error + node_record dict" where
  "retain_records now [] nodes = Inr nodes"
| "retain_records now ((fingerprint, row) # rest) nodes =
     (case row of
        JObj d \<Rightarrow>
          (case plain_int (json_get d ''last_seen_epoch'') of
             Some last_seen \<Rightarrow>
               if 0 \<le> now - last_seen \<and> now - last_seen \<le> MAX_AGE_SECONDS
               then bindE (clean_node_record row) (\<lambda>r.
                 retain_records now rest (case r of None \<Rightarrow> nodes | Some x \<Rightarrow> dict_set fingerprint x nodes))
               else retain_records now rest nodes
           | None \<Rightarrow> retain_records now rest nodes)
      | _ \<Rightarrow> retain_records now rest nodes)"

definition current_ratio :: "string list \<Rightarrow> string list \<Rightarrow> string \<Rightarrow> pyfloat" where
  "current_ratio stables qualified name =
     (if name \<in> set stables then Fin 1 else if name \<in> set qualified then float_of (2 / 3) else Fin 0)"

text \<open>The record of a node after this run; \<open>old\<close> is its stored record, if any.\<close>

definition updated_record ::
  "string list \<Rightarrow> string list \<Rightarrow> string list option \<Rightarrow> int \<Rightarrow> node_record option \<Rightarrow> string \<Rightarrow> node_record" where
  "updated_record stables qualified preferred now old name =
     (let old_runs = (case old of None \<Rightarrow> 0 | Some r \<Rightarrow> nr_runs r);
          old_ema = (case old of None \<Rightarrow> Fin 1 | Some r \<Rightarrow> nr_ema r);
          old_failures = (case old of None \<Rightarrow> 0 | Some r \<Rightarrow> nr_failures r);
          ratio = current_ratio stables qualified name;
          ema = (if old_runs = 0 then ratio else float_add (float_scale old_ema ALPHA_REST) (float_scale ratio ALPHA));
          was = (case old of None \<Rightarrow> True | Some r \<Rightarrow> nr_preferred r)
      in \<lparr>nr_runs = old_runs + 1, nr_ema = float_round ema 6,
          nr_failures = (if name \<in> set qualified then 0 else old_failures + 1),
          nr_seen = now,
          nr_preferred = (case preferred of None \<Rightarrow> was
            | Some ps \<Rightarrow> if name \<in> set stables then name \<in> set ps else was)\<rparr>)"

fun update_names ::
  "(bytes \<Rightarrow> bytes \<Rightarrow> string) \<Rightarrow> bytes \<Rightarrow> string list \<Rightarrow> string list \<Rightarrow> string list option \<Rightarrow> int
    \<Rightarrow> string list \<Rightarrow> node_record dict \<Rightarrow> history_error + node_record dict" where
  "update_names hmac key stables qualified preferred now [] nodes = Inr nodes"
| "update_names hmac key stables qualified preferred now (name # names) nodes =
     bindE (fingerprint_runtime_name hmac name key) (\<lambda>fp.
       update_names hmac key stables qualified preferred now names
         (dict_set fp (updated_record stables qualified preferred now (map_of nodes fp) name) nodes))"

definition newest_records :: "node_record dict \<Rightarrow> node_record dict" where
  "newest_records nodes =
     (if HISTORY_RECORDS < length nodes
      then take HISTORY_RECORDS (sort_key (\<lambda>(_, r). - nr_seen r) nodes) else nodes)"

text \<open>\<^verbatim>\<open>history.get(k, {})\<close> where anything but a mapping counts as empty.\<close>

definition mapping_at :: "json dict \<Rightarrow> string \<Rightarrow> json dict" where
  "mapping_at d k = (case json_get d k of JObj m \<Rightarrow> m | _ \<Rightarrow> [])"

definition update_history ::
  "(bytes \<Rightarrow> bytes \<Rightarrow> string) \<Rightarrow> json dict \<Rightarrow> string list \<Rightarrow> string list \<Rightarrow> string list \<Rightarrow> bytes
    \<Rightarrow> string list option \<Rightarrow> pyfloat option \<Rightarrow> int \<Rightarrow> history_error + history_state" where
  "update_history hmac history all qualified stables key preferred latency now =
     bindE (retain_records now (mapping_at history ''nodes'') []) (\<lambda>kept.
     bindE (update_names hmac key stables qualified preferred now (sorted_set all) kept) (\<lambda>nodes.
     bindE (update_cohort_latency (json_get history ''cohort'') latency now) (\<lambda>c.
       Inr \<lparr>hs_nodes = sort_dict (newest_records nodes), hs_cohort = c\<rparr>)))"

section \<open>Stored form and summary\<close>

definition node_json :: "node_record \<Rightarrow> json" where
  "node_json r = JObj [(''runs'', JInt (nr_runs r)), (''success_ema'', JFloat (nr_ema r)),
     (''consecutive_failed_runs'', JInt (nr_failures r)), (''last_seen_epoch'', JInt (nr_seen r)),
     (''historically_preferred'', JBool (nr_preferred r))]"

definition cohort_json :: "cohort \<Rightarrow> json" where
  "cohort_json c = JObj [(''runs'', JInt (co_runs c)),
     (''latency_ema_ms'', case co_latency c of None \<Rightarrow> JNull | Some f \<Rightarrow> JFloat f),
     (''last_seen_epoch'', JInt (co_seen c))]"

definition history_json :: "history_state \<Rightarrow> json dict" where
  "history_json h = [(''version'', JInt STATE_VERSION),
     (''nodes'', JObj (map (\<lambda>(k, r). (k, node_json r)) (hs_nodes h))),
     (''cohort'', cohort_json (hs_cohort h))]"

definition history_summary ::
  "string \<Rightarrow> history_state \<Rightarrow> history_state \<Rightarrow> string list \<Rightarrow> string list \<Rightarrow> history_error + json" where
  "history_summary load_status before after stables preferred =
     bindE (clean_cohort (cohort_json (hs_cohort after))) (\<lambda>c. Inr (JObj
     [(''status'', JStr load_status), (''state_version'', JInt STATE_VERSION),
      (''records_before'', JInt (int (length (hs_nodes before)))),
      (''records_after'', JInt (int (length (hs_nodes after)))),
      (''stable_nodes'', JInt (int (card (set stables)))),
      (''preferred_stable_nodes'', JInt (int (card (set preferred)))),
      (''historically_demoted_nodes'', JInt (int (card (set stables - set preferred)))),
      (''cohort_latency_ema_ms'', case co_latency c of None \<Rightarrow> JNull | Some f \<Rightarrow> JFloat f),
      (''cohort_runs'', JInt (co_runs c))]))"

section \<open>Exact filters\<close>

definition RE2_META :: "char set" where
  "RE2_META = insert (CHR 0x5C) (set ''.+*?()|[]{}^$'')"

definition quote_re2_literal :: "string \<Rightarrow> string" where
  "quote_re2_literal s = concat (map (\<lambda>c. if c \<in> RE2_META then [CHR 0x5C, c] else [c]) s)"

definition exact_filter :: "string list \<Rightarrow> history_error + string" where
  "exact_filter names =
     (if names = [] then Inl EmptyFilter
      else Inr (''^('' @ join_with ''|'' (map quote_re2_literal (sorted_set names)) @ '')$''))"

end
