(* ===== verification/SchedulerFacts.thy ===== *)
theory SchedulerFacts
  imports SchedulerHistory
begin

text \<open>
  The invariant of the stored history, the stability of preferences, and the values of the
  smoothing constants.
\<close>

lemma ALPHA_value: "ALPHA = 5404319552844595 / 18014398509481984"
proof -
  have "float_of (3 / 10) = Fin (of_int 5404319552844595 * pow2 (- 2 - 52))"
    by (rule float_of_eval) (simp_all add: pow2_def round_even_eqI)
  then show ?thesis by (simp add: ALPHA_def pow2_def)
qed

lemma ALPHA_REST_value: "ALPHA_REST = 3152519739159347 / 4503599627370496"
proof -
  have "float_of (1 - ALPHA) = Fin (of_int 6305039478318694 * pow2 (- 1 - 52))"
    by (rule float_of_eval) (simp_all add: pow2_def ALPHA_value round_even_tie)
  then show ?thesis by (simp add: ALPHA_REST_def pow2_def)
qed

section \<open>Records stay acceptable\<close>

definition record_ok :: "node_record \<Rightarrow> bool" where
  "record_ok r \<longleftrightarrow> 1 \<le> nr_runs r \<and> in_unit (nr_ema r) \<and> 0 \<le> nr_failures r \<and> 0 \<le> nr_seen r"

lemma in_unit_iff: "in_unit f \<longleftrightarrow> (\<exists>q. f = Fin q \<and> 0 \<le> q \<and> q \<le> 1)"
  by (cases f) (auto simp: in_unit_def float_le_def float_less_def)

lemma in_unit_round: "in_unit f \<Longrightarrow> in_unit (float_round f n)"
  using float_round_unit by (fastforce simp: in_unit_iff)

lemma in_unit_Fin [simp]: "in_unit (Fin 0)" "in_unit (Fin 1)"
  by (simp_all add: in_unit_iff)

lemma in_unit_two_thirds: "in_unit (float_of (2 / 3))"
  using float_of_unit [of "2 / 3"] by (auto simp: in_unit_iff)

text \<open>The smoothing step keeps the unit interval: the two rounded weights sum to less than one.\<close>

lemma ema_unit:
  assumes "in_unit e" and "in_unit r"
  shows "in_unit (float_add (float_scale e ALPHA_REST) (float_scale r ALPHA))"
proof -
  obtain p q where pq: "e = Fin p" "0 \<le> p" "p \<le> 1" "r = Fin q" "0 \<le> q" "q \<le> 1"
    using assms by (auto simp: in_unit_iff)
  have rest: "ALPHA_REST = of_int 6305039478318694 * pow2 (- 53)" by (simp add: ALPHA_REST_value pow2_def)
  have alpha: "ALPHA = of_int 5404319552844595 * pow2 (- 54)" by (simp add: ALPHA_value pow2_def)
  have small: "of_int 6305039478318694 * pow2 (- 53) < pow2 1024" "of_int 5404319552844595 * pow2 (- 54) < pow2 1024"
    using pow2_mono [of 0 1024] by (simp_all add: pow2_def)
  have "p * ALPHA_REST \<le> ALPHA_REST" using pq by (intro mult_left_le_one_le) (simp_all add: ALPHA_REST_value)
  moreover have "0 \<le> p * ALPHA_REST" using pq(2) by (simp add: ALPHA_REST_value)
  ultimately obtain x where x: "float_of (p * ALPHA_REST) = Fin x" "0 \<le> x" "x \<le> ALPHA_REST"
    using float_of_le [of "p * ALPHA_REST" 6305039478318694 "- 53"] small(1) unfolding rest by auto
  have "q * ALPHA \<le> ALPHA" using pq by (intro mult_left_le_one_le) (simp_all add: ALPHA_value)
  moreover have "0 \<le> q * ALPHA" using pq(5) by (simp add: ALPHA_value)
  ultimately obtain y where y: "float_of (q * ALPHA) = Fin y" "0 \<le> y" "y \<le> ALPHA"
    using float_of_le [of "q * ALPHA" 5404319552844595 "- 54"] small(2) unfolding alpha by auto
  have "x + y \<le> 1" using x(3) y(3) by (simp add: ALPHA_value ALPHA_REST_value)
  then show ?thesis using float_of_unit [of "x + y"] x y pq(1,4)
    by (auto simp: float_add_def float_scale_def in_unit_iff)
qed

lemma clean_node_inversion:
  assumes "clean_node_record j = Inr (Some r)"
  obtains d f where "j = JObj d" "in_unit f" "nr_ema r = float_round f 6" "1 \<le> nr_runs r" "0 \<le> nr_failures r"
    "0 \<le> nr_seen r" "plain_int (json_get d ''last_seen_epoch'') = Some (nr_seen r)"
proof (cases j)
  case (JObj d)
  obtain runs where runs: "plain_int (json_get d ''runs'') = Some runs" "1 \<le> runs"
    using assms JObj by (auto simp: clean_node_record_def split: option.splits if_splits)
  obtain e where e: "number_value (json_get d ''success_ema'') = Inr e"
    using assms JObj runs by (cases "number_value (json_get d ''success_ema'')") (auto simp: clean_node_record_def)
  obtain f where f: "number_value (json_get d ''success_ema'') = Inr (Some f)" "in_unit f"
    using assms JObj runs e by (cases e) (auto simp: clean_node_record_def split: if_splits)
  obtain fails last flag where rest: "plain_int (json_get d ''consecutive_failed_runs'') = Some fails"
    "plain_int (json_get d ''last_seen_epoch'') = Some last" "preferred_flag d = Some flag"
    "0 \<le> fails" "0 \<le> last"
    "r = \<lparr>nr_runs = runs, nr_ema = float_round f 6, nr_failures = fails, nr_seen = last, nr_preferred = flag\<rparr>"
    using assms JObj runs f by (auto simp: clean_node_record_def split: option.splits if_splits)
  show ?thesis by (rule that [OF JObj f(2)]) (simp_all add: rest runs)
qed (use assms in \<open>simp_all add: clean_node_record_def\<close>)

lemma clean_node_ok: "clean_node_record j = Inr (Some r) \<Longrightarrow> record_ok r"
  by (erule clean_node_inversion) (simp add: record_ok_def in_unit_round)

lemma clean_node_seen:
  "clean_node_record (JObj d) = Inr (Some r) \<Longrightarrow> plain_int (json_get d ''last_seen_epoch'') = Some (nr_seen r)"
  by (erule clean_node_inversion) simp

lemma clean_node_json:
  assumes "record_ok r"
  shows "clean_node_record (node_json r) = Inr (Some (r\<lparr>nr_ema := float_round (nr_ema r) 6\<rparr>))"
  using assms by (cases r) (simp add: clean_node_record_def node_json_def record_ok_def json_get_def
    plain_int_def number_value_def preferred_flag_def)

definition young :: "int \<Rightarrow> node_record \<Rightarrow> bool" where
  "young now r \<longleftrightarrow> 0 \<le> now - nr_seen r \<and> now - nr_seen r \<le> MAX_AGE_SECONDS"

definition nodes_ok :: "int \<Rightarrow> node_record dict \<Rightarrow> bool" where
  "nodes_ok now nodes \<longleftrightarrow> dict_wf nodes \<and> (\<forall>(k, r) \<in> set nodes. record_ok r \<and> young now r)"

lemma nodes_ok_set: "nodes_ok now nodes \<Longrightarrow> record_ok r \<Longrightarrow> young now r \<Longrightarrow> nodes_ok now (dict_set k r nodes)"
  using set_dict_set [of k r nodes] by (fastforce simp: nodes_ok_def)

lemma retain_ok: "retain_records now rows nodes = Inr kept \<Longrightarrow> nodes_ok now nodes \<Longrightarrow> nodes_ok now kept"
proof (induction rows arbitrary: nodes)
  case (Cons entry rest)
  obtain fp row where entry: "entry = (fp, row)" by (cases entry)
  show ?case
  proof (cases "\<exists>d last. row = JObj d \<and> plain_int (json_get d ''last_seen_epoch'') = Some last
      \<and> 0 \<le> now - last \<and> now - last \<le> MAX_AGE_SECONDS")
    case True
    then obtain d last where row: "row = JObj d" "plain_int (json_get d ''last_seen_epoch'') = Some last"
      "0 \<le> now - last" "now - last \<le> MAX_AGE_SECONDS" by blast
    then obtain r where r: "clean_node_record row = Inr r"
      "retain_records now rest (case r of None \<Rightarrow> nodes | Some x \<Rightarrow> dict_set fp x nodes) = Inr kept"
      using Cons.prems(1) entry by (auto simp: bindE_Inr_iff)
    have "nodes_ok now (case r of None \<Rightarrow> nodes | Some x \<Rightarrow> dict_set fp x nodes)"
    proof (cases r)
      case (Some x)
      then have "record_ok x" "nr_seen x = last"
        using r(1) clean_node_ok [of row x] clean_node_seen [of d x] row(1,2) by auto
      then show ?thesis using Some row(3,4) nodes_ok_set [OF Cons.prems(2)] by (simp add: young_def)
    qed (use Cons.prems(2) in simp)
    then show ?thesis by (rule Cons.IH [OF r(2)])
  next
    case False
    then have "retain_records now rest nodes = Inr kept"
      using Cons.prems(1) entry by (auto split: json.splits option.splits if_splits)
    then show ?thesis by (rule Cons.IH [OF _ Cons.prems(2)])
  qed
qed simp

lemma updated_record_ok:
  assumes "\<And>r. old = Some r \<Longrightarrow> record_ok r" and "0 \<le> now"
  shows "record_ok (updated_record stables qualified preferred now old name)"
    and "nr_seen (updated_record stables qualified preferred now old name) = now"
proof -
  have ratio: "in_unit (current_ratio stables qualified name)"
    by (simp add: current_ratio_def in_unit_two_thirds)
  show "record_ok (updated_record stables qualified preferred now old name)"
    using assms ratio by (cases old) (auto simp: updated_record_def record_ok_def Let_def intro!: in_unit_round ema_unit)
  show "nr_seen (updated_record stables qualified preferred now old name) = now"
    by (simp add: updated_record_def Let_def)
qed

lemma update_names_ok:
  "update_names hmac key stables qualified preferred now names nodes = Inr out \<Longrightarrow> nodes_ok now nodes \<Longrightarrow>
   0 \<le> now \<Longrightarrow> nodes_ok now out"
proof (induction names arbitrary: nodes)
  case (Cons name names)
  then obtain fp where run: "update_names hmac key stables qualified preferred now names
      (dict_set fp (updated_record stables qualified preferred now (map_of nodes fp) name) nodes) = Inr out"
    by (auto simp: bindE_Inr_iff)
  have old: "record_ok r" if "map_of nodes fp = Some r" for r
    using Cons.prems(2) map_of_SomeD [OF that] by (auto simp: nodes_ok_def)
  have "nodes_ok now (dict_set fp (updated_record stables qualified preferred now (map_of nodes fp) name) nodes)"
    using updated_record_ok [OF old Cons.prems(3)] Cons.prems(2,3)
    by (intro nodes_ok_set) (simp_all add: young_def MAX_AGE_SECONDS_def)
  then show ?case by (rule Cons.IH [OF run _ Cons.prems(3)])
qed simp

lemma wf_sort_key: "dict_wf (sort_key f d) \<longleftrightarrow> dict_wf d"
  by (simp add: distinct_map)

lemma newest_ok:
  assumes "nodes_ok now nodes"
  shows "nodes_ok now (newest_records nodes)" and "length (newest_records nodes) \<le> HISTORY_RECORDS"
proof -
  let ?s = "sort_key (\<lambda>(_, r). - nr_seen r) nodes"
  have "dict_wf (take HISTORY_RECORDS ?s)"
    unfolding take_map [symmetric] by (rule distinct_take) (use assms in \<open>simp only: nodes_ok_def wf_sort_key\<close>)
  moreover have "set (take HISTORY_RECORDS ?s) \<subseteq> set nodes" using set_take_subset by fastforce
  ultimately show "nodes_ok now (newest_records nodes)"
    using assms unfolding newest_records_def nodes_ok_def by auto
  show "length (newest_records nodes) \<le> HISTORY_RECORDS" by (simp add: newest_records_def)
qed


text \<open>A run over two nodes, one of which was stored before and one of which has just failed.\<close>

definition demo_hmac :: "bytes \<Rightarrow> bytes \<Rightarrow> string" where
  "demo_hmac key name = key @ name"

definition demo_history :: "json dict" where
  "demo_history = [(''nodes'', JObj [(''k1'', JObj [(''runs'', JInt 1), (''success_ema'', JInt 1),
     (''consecutive_failed_runs'', JInt 0), (''last_seen_epoch'', JInt 50)])])]"

lemma demo_update:
  "\<exists>h. update_history demo_hmac demo_history [''1'', ''2''] [''1''] [''1''] ''k'' None None 100 = Inr h"
  using float_of_unit [of 1]
  by (auto simp: update_history_def demo_history_def mapping_at_def json_get_def plain_int_def MAX_AGE_SECONDS_def
    clean_node_record_def number_value_def float_of_int_def bindE_def in_unit_def preferred_flag_def
    fingerprint_runtime_name_def sorted_set_def update_cohort_latency_def clean_cohort_def
    split: sum.splits option.splits pyfloat.splits)


section \<open>A latency that is not a number\<close>

text \<open>
  The cohort check compares with bounds that a NaN passes, so once a stored cohort latency is NaN no
  later measurement replaces it.
\<close>

lemma NaN_latency_sticks:
  assumes "clean_cohort stored = Inr old" and "co_latency old = Some NaN" and "co_runs old \<noteq> 0"
    and "update_cohort_latency stored (Some c) now = Inr new"
  shows "co_latency new = Some NaN"
  using assms by (auto simp: update_cohort_latency_def float_scale_def float_add_def float_round_def Let_def
    split: if_splits)

end
