(* ===== verification/SchedulerPolicy.thy ===== *)
theory SchedulerPolicy
  imports SchedulerFacts
begin

text \<open>
  \<^verbatim>\<open>scheduler_policy.py\<close>: the declared scheduler settings with their validation, and the preference
  rule that takes its thresholds from them.  The settings are the values after the conversions of
  \<^verbatim>\<open>load_scheduler_policy\<close>; reading and composing the policy document is file input.
\<close>

datatype policy_error =
    AttemptsRange
  | ReserveRange
  | SwitchIntervalRange
  | MinRunsRange
  | MinEmaRange
  | RecoverEmaRange
  | DemoteRange
  | MaxAgeRange
  | PassTtlRange
  | FailureTtlRange
  | OpenaiPassTtlRange
  | OpenaiFailureTtlRange

record browsing_policy =
  bp_attempts :: int
  bp_reserve_successes :: int
  bp_region_switch_interval :: int

record history_policy =
  hp_min_runs :: int
  hp_min_success_ema :: pyfloat
  hp_recover_success_ema :: pyfloat
  hp_demote_after_failures :: int
  hp_max_age_seconds :: int

record ai_cache_policy =
  ap_pass_ttl :: int
  ap_failure_ttl :: int
  ap_openai_pass_ttl :: int
  ap_openai_failure_ttl :: int

record scheduler_policy =
  sp_declared :: bool
  sp_browsing :: browsing_policy
  sp_history :: history_policy
  sp_ai_cache :: ai_cache_policy

definition default_browsing_policy :: browsing_policy where
  "default_browsing_policy = \<lparr>bp_attempts = 3, bp_reserve_successes = 2, bp_region_switch_interval = 300\<rparr>"

definition default_history_policy :: history_policy where
  "default_history_policy = \<lparr>hp_min_runs = 2, hp_min_success_ema = float_of (4 / 5),
     hp_recover_success_ema = float_of (9 / 10), hp_demote_after_failures = 2,
     hp_max_age_seconds = 30 * 24 * 60 * 60\<rparr>"

definition default_ai_cache_policy :: ai_cache_policy where
  "default_ai_cache_policy = \<lparr>ap_pass_ttl = 6 * 60 * 60, ap_failure_ttl = 60 * 60,
     ap_openai_pass_ttl = 2 * 60 * 60, ap_openai_failure_ttl = 60 * 60\<rparr>"

definition default_scheduler_policy :: scheduler_policy where
  "default_scheduler_policy = \<lparr>sp_declared = False, sp_browsing = default_browsing_policy,
     sp_history = default_history_policy, sp_ai_cache = default_ai_cache_policy\<rparr>"

definition check_scheduler_policy :: "scheduler_policy \<Rightarrow> policy_error + scheduler_policy" where
  "check_scheduler_policy p =
     (let b = sp_browsing p; h = sp_history p; c = sp_ai_cache p in
      if bp_attempts b < 1 \<or> 10 < bp_attempts b then Inl AttemptsRange
      else if bp_reserve_successes b < 1 \<or> bp_attempts b < bp_reserve_successes b then Inl ReserveRange
      else if bp_region_switch_interval b < 60 \<or> 3600 < bp_region_switch_interval b then Inl SwitchIntervalRange
      else if hp_min_runs h < 1 \<or> 100 < hp_min_runs h then Inl MinRunsRange
      else if \<not> (float_le (Fin 0) (hp_min_success_ema h) \<and> float_le (hp_min_success_ema h) (Fin 1)) then Inl MinEmaRange
      else if \<not> (float_le (hp_min_success_ema h) (hp_recover_success_ema h)
               \<and> float_le (hp_recover_success_ema h) (Fin 1)) then Inl RecoverEmaRange
      else if hp_demote_after_failures h < 1 \<or> 10 < hp_demote_after_failures h then Inl DemoteRange
      else if hp_max_age_seconds h < 3600 \<or> 90 * 24 * 60 * 60 < hp_max_age_seconds h then Inl MaxAgeRange
      else if ap_pass_ttl c < 60 \<or> 24 * 60 * 60 < ap_pass_ttl c then Inl PassTtlRange
      else if ap_failure_ttl c < 60 \<or> ap_pass_ttl c < ap_failure_ttl c then Inl FailureTtlRange
      else if ap_openai_pass_ttl c < 60 \<or> 24 * 60 * 60 < ap_openai_pass_ttl c then Inl OpenaiPassTtlRange
      else if ap_openai_failure_ttl c < 60 \<or> ap_openai_pass_ttl c < ap_openai_failure_ttl c then Inl OpenaiFailureTtlRange
      else Inr p)"

definition policy_prefers_name ::
  "(bytes \<Rightarrow> bytes \<Rightarrow> string) \<Rightarrow> node_record dict \<Rightarrow> bytes \<Rightarrow> history_policy \<Rightarrow> int \<Rightarrow> string \<Rightarrow> history_error + bool"
where
  "policy_prefers_name hmac nodes key policy now name =
     bindE (fingerprint_runtime_name hmac name key) (\<lambda>fp.
       Inr (case map_of nodes fp of None \<Rightarrow> True
        | Some r \<Rightarrow>
          (let fresh = 0 < nr_seen r \<and> nr_seen r \<le> now \<and> now - nr_seen r \<le> hp_max_age_seconds policy in
           if \<not> fresh \<or> nr_runs r < hp_min_runs policy then True
           else if nr_preferred r then
             (if hp_demote_after_failures policy \<le> nr_failures r then False
              else if 0 < nr_failures r \<and> nr_failures r < hp_demote_after_failures policy then True
              else float_le (hp_min_success_ema policy) (nr_ema r))
           else nr_failures r = 0 \<and> float_le (hp_recover_success_ema policy) (nr_ema r))))"

definition preferred_stable_names_from_policy ::
  "(bytes \<Rightarrow> bytes \<Rightarrow> string) \<Rightarrow> string list \<Rightarrow> history_state \<Rightarrow> bytes \<Rightarrow> history_policy \<Rightarrow> int
    \<Rightarrow> history_error + string list" where
  "preferred_stable_names_from_policy hmac stables history key policy now =
     filterE (policy_prefers_name hmac (hs_nodes history) key policy now) stables"

lemma ema_values:
  "float_of (4 / 5) = Fin (3602879701896397 / 4503599627370496)"
  "float_of (9 / 10) = Fin (8106479329266893 / 9007199254740992)"
proof -
  have "float_of (4 / 5) = Fin (of_int 7205759403792794 * pow2 (- 1 - 52))"
    by (rule float_of_eval) (simp_all add: pow2_def round_even_eqI)
  then show "float_of (4 / 5) = Fin (3602879701896397 / 4503599627370496)" by (simp add: pow2_def)
  have "float_of (9 / 10) = Fin (of_int 8106479329266893 * pow2 (- 1 - 52))"
    by (rule float_of_eval) (simp_all add: pow2_def round_even_eqI)
  then show "float_of (9 / 10) = Fin (8106479329266893 / 9007199254740992)" by (simp add: pow2_def)
qed

lemma default_policy_valid: "check_scheduler_policy default_scheduler_policy = Inr default_scheduler_policy"
  by (simp add: check_scheduler_policy_def default_scheduler_policy_def default_browsing_policy_def
    default_history_policy_def default_ai_cache_policy_def ema_values Let_def)

lemma default_policy_rule:
  "policy_prefers_name hmac nodes key default_history_policy now = prefers_name hmac nodes key now"
  by (rule ext) (auto simp: policy_prefers_name_def prefers_name_def default_history_policy_def fresh_record_def
    history_prefers_def MIN_HISTORY_RUNS_def MAX_AGE_SECONDS_def MIN_SUCCESS_EMA_def RECOVER_SUCCESS_EMA_def
    DEMOTE_AFTER_FAILURES_def bindE_def Let_def split: sum.splits option.splits)

text \<open>
  The two preference rules of the program agree: with the default policy, which validation
  accepts, the policy-driven rule selects exactly the names the built-in rule selects, for every
  history, key and time.
\<close>

theorem preference_rules_agree:
  "check_scheduler_policy default_scheduler_policy = Inr default_scheduler_policy
   \<and> preferred_stable_names_from_policy hmac stables history key (sp_history default_scheduler_policy) now
     = preferred_stable_names hmac stables history key now"
proof (intro conjI default_policy_valid)
  show "preferred_stable_names_from_policy hmac stables history key (sp_history default_scheduler_policy) now
     = preferred_stable_names hmac stables history key now"
    by (simp add: preferred_stable_names_from_policy_def preferred_stable_names_def default_policy_rule
      default_scheduler_policy_def)
qed

lemma filterE_set: "filterE f xs = Inr ys \<Longrightarrow> set ys = {x \<in> set xs. f x = Inr True} \<and> (\<forall>x \<in> set xs. \<exists>b. f x = Inr b)"
proof (induction xs arbitrary: ys)
  case (Cons x xs)
  then obtain b zs where "f x = Inr b" "filterE f xs = Inr zs" "ys = (if b then x # zs else zs)"
    by (auto simp: bindE_Inr_iff)
  with Cons.IH show ?case by (cases b) auto
qed simp

text \<open>The name of a run is kept when its record allows it.\<close>

definition record_prefers :: "history_policy \<Rightarrow> int \<Rightarrow> node_record \<Rightarrow> bool" where
  "record_prefers policy now r \<longleftrightarrow>
     \<not> fresh_record (hp_max_age_seconds policy) now r \<or> nr_runs r < hp_min_runs policy
     \<or> history_prefers r (hp_min_success_ema policy) (hp_recover_success_ema policy) (hp_demote_after_failures policy)"

lemma policy_rule_unfold:
  assumes "fingerprint_runtime_name hmac name key = Inr fp"
  shows "policy_prefers_name hmac nodes key policy now name =
     Inr (case map_of nodes fp of None \<Rightarrow> True | Some r \<Rightarrow> record_prefers policy now r)"
  using assms by (auto simp: policy_prefers_name_def record_prefers_def fresh_record_def history_prefers_def Let_def
    split: option.splits)



end
