(* ===== verification/NetworkAddress.thy ===== *)
theory NetworkAddress
  imports PyText Json "HOL-Library.Word"
begin

unbundle bit_operations_syntax

text \<open>
  \<^verbatim>\<open>network_address_policy.py\<close> over the part of Python's \<^verbatim>\<open>ipaddress\<close> module that it uses: the two
  literal syntaxes, packed addresses, network membership and the special-purpose tables of CPython
  3.11.  An IPv4 address is a \<open>32 word\<close>, an IPv6 address a \<open>128 word\<close> with its zone.
\<close>

section \<open>\<^verbatim>\<open>ipaddress\<close>\<close>

datatype ip_address = V4 "32 word" | V6 "128 word" "string option"

text \<open>What \<^verbatim>\<open>ipaddress.ip_address\<close> is given here: a literal or a packed address.\<close>

datatype ip_source = Literal string | Packed bytes

definition bytes_value :: "bytes \<Rightarrow> nat" where
  "bytes_value s = foldl (\<lambda>n c. 256 * n + of_char c) 0 s"

definition parse_octet :: "string \<Rightarrow> nat option" where
  "parse_octet s =
     (if s = [] \<or> \<not> list_all is_digit s then None
      else if 3 < length s then None
      else if s \<noteq> ''0'' \<and> hd s = CHR ''0'' then None
      else if 255 < digits_value 0 s then None
      else Some (digits_value 0 s))"

definition v4_of_text :: "string \<Rightarrow> 32 word option" where
  "v4_of_text s =
     (case split_on CHR ''.'' s of
        [a, b, c, d] \<Rightarrow>
          (case (parse_octet a, parse_octet b, parse_octet c, parse_octet d) of
             (Some a, Some b, Some c, Some d) \<Rightarrow> Some (of_nat (((a * 256 + b) * 256 + c) * 256 + d))
           | _ \<Rightarrow> None)
      | _ \<Rightarrow> None)"

text \<open>\<^verbatim>\<open>IPv4Address(text)\<close>; a slash is rejected before anything else.\<close>

definition parse_v4 :: "string \<Rightarrow> 32 word option" where
  "parse_v4 s = (if CHR ''/'' \<in> set s then None else v4_of_text s)"

fun hex_number :: "nat \<Rightarrow> string \<Rightarrow> nat option" where
  "hex_number n [] = Some n"
| "hex_number n (c # s) = (case hex_value c of None \<Rightarrow> None | Some d \<Rightarrow> hex_number (16 * n + d) s)"

definition parse_hextet :: "string \<Rightarrow> nat option" where
  "parse_hextet s = (if s = [] \<or> 4 < length s then None else hex_number 0 s)"

fun hextets_value :: "nat \<Rightarrow> string list \<Rightarrow> nat option" where
  "hextets_value n [] = Some n"
| "hextets_value n (h # hs) =
     (case parse_hextet h of None \<Rightarrow> None | Some v \<Rightarrow> hextets_value (65536 * n + v) hs)"

text \<open>An IPv4 suffix becomes two hextets; \<^verbatim>\<open>'%x' % v\<close> writes lower-case digits without padding.\<close>

definition hextet_text :: "nat \<Rightarrow> string" where
  "hextet_text v =
     (let digits = [hex_digit (v div 4096), hex_digit (v div 256 mod 16), hex_digit (v div 16 mod 16),
                    hex_digit (v mod 16)];
          rest = dropWhile (\<lambda>c. c = CHR ''0'') digits in
      if rest = [] then ''0'' else rest)"

definition expand_suffix :: "string list \<Rightarrow> string list option" where
  "expand_suffix parts =
     (if CHR ''.'' \<in> set (last parts) then
        (case parse_v4 (last parts) of None \<Rightarrow> None
         | Some a \<Rightarrow> Some (butlast parts @ [hextet_text (unat a div 65536), hextet_text (unat a mod 65536)]))
      else Some parts)"

text \<open>The inner positions at which nothing stands between two colons.\<close>

definition skip_indexes :: "string list \<Rightarrow> nat list" where
  "skip_indexes parts = filter (\<lambda>i. parts ! i = []) [1..<length parts - 1]"

definition hextets_of_parts :: "string list \<Rightarrow> nat option" where
  "hextets_of_parts parts =
     (case skip_indexes parts of
        [] \<Rightarrow> if length parts \<noteq> 8 \<or> hd parts = [] \<or> last parts = [] then None else hextets_value 0 parts
      | [i] \<Rightarrow>
          (let hi = (if hd parts = [] then i - 1 else i);
               lo = (if last parts = [] then length parts - i - 2 else length parts - i - 1) in
           if hd parts = [] \<and> hi \<noteq> 0 \<or> last parts = [] \<and> lo \<noteq> 0 then None
           else if 8 < hi + lo + 1 then None
           else (case hextets_value 0 (take hi parts) of None \<Rightarrow> None
             | Some v \<Rightarrow> hextets_value (v * 65536 ^ (8 - (hi + lo))) (drop (length parts - lo) parts)))
      | _ \<Rightarrow> None)"

definition v6_of_text :: "string \<Rightarrow> 128 word option" where
  "v6_of_text s =
     (let parts = split_on CHR '':'' s in
      if length parts < 3 then None
      else (case expand_suffix parts of None \<Rightarrow> None
        | Some parts \<Rightarrow>
            if 9 < length parts then None else map_option of_nat (hextets_of_parts parts)))"

text \<open>\<^verbatim>\<open>IPv6Address(text)\<close> with its zone after a percent sign.\<close>

definition parse_v6 :: "string \<Rightarrow> (128 word \<times> string option) option" where
  "parse_v6 s =
     (if CHR ''/'' \<in> set s then None
      else (let addr = takeWhile (\<lambda>c. c \<noteq> CHR ''%'') s; rest = dropWhile (\<lambda>c. c \<noteq> CHR ''%'') s in
        if rest = [] then map_option (\<lambda>a. (a, None)) (v6_of_text addr)
        else if tl rest = [] \<or> CHR ''%'' \<in> set (tl rest) then None
        else map_option (\<lambda>a. (a, Some (tl rest))) (v6_of_text addr)))"

text \<open>\<open>None\<close> is \<^verbatim>\<open>ValueError\<close>.\<close>

definition ip_address :: "ip_source \<Rightarrow> ip_address option" where
  "ip_address source = (case source of
     Literal s \<Rightarrow> (case parse_v4 s of Some a \<Rightarrow> Some (V4 a)
       | None \<Rightarrow> map_option (\<lambda>(a, zone). V6 a zone) (parse_v6 s))
   | Packed b \<Rightarrow> if length b = 4 then Some (V4 (of_nat (bytes_value b)))
       else if length b = 16 then Some (V6 (of_nat (bytes_value b)) None) else None)"

text \<open>A network is its address with the number of prefix bits.\<close>

type_synonym 'a network = "'a word \<times> nat"

definition in_network :: "'a::len word \<Rightarrow> 'a network \<Rightarrow> bool" where
  "in_network a net \<longleftrightarrow>
     drop_bit (LENGTH('a) - snd net) a = drop_bit (LENGTH('a) - snd net) (fst net)"

definition v4 :: "nat \<Rightarrow> nat \<Rightarrow> nat \<Rightarrow> nat \<Rightarrow> 32 word" where
  "v4 a b c d = of_nat (((a * 256 + b) * 256 + c) * 256 + d)"

definition V4_PRIVATE :: "32 network list" where
  "V4_PRIVATE =
     [(v4 0 0 0 0, 8), (v4 10 0 0 0, 8), (v4 127 0 0 0, 8), (v4 169 254 0 0, 16), (v4 172 16 0 0, 12),
      (v4 192 0 0 0, 24), (v4 192 0 0 170, 31), (v4 192 0 2 0, 24), (v4 192 168 0 0, 16),
      (v4 198 18 0 0, 15), (v4 198 51 100 0, 24), (v4 203 0 113 0, 24), (v4 240 0 0 0, 4),
      (v4 255 255 255 255, 32)]"

definition V4_PRIVATE_EXCEPTIONS :: "32 network list" where
  "V4_PRIVATE_EXCEPTIONS = [(v4 192 0 0 9, 32), (v4 192 0 0 10, 32)]"

definition V6_PRIVATE :: "128 network list" where
  "V6_PRIVATE =
     [(1, 128), (0, 128), (0xFFFF00000000, 96), (0x0064FF9B000100000000000000000000, 48),
      (0x01000000000000000000000000000000, 64), (0x20010000000000000000000000000000, 23),
      (0x20010DB8000000000000000000000000, 32), (0x20020000000000000000000000000000, 16),
      (0xFC000000000000000000000000000000, 7), (0xFE800000000000000000000000000000, 10)]"

definition V6_PRIVATE_EXCEPTIONS :: "128 network list" where
  "V6_PRIVATE_EXCEPTIONS =
     [(0x20010001000000000000000000000001, 128), (0x20010001000000000000000000000002, 128),
      (0x20010003000000000000000000000000, 32), (0x20010004011200000000000000000000, 48),
      (0x20010020000000000000000000000000, 28), (0x20010030000000000000000000000000, 28)]"

definition V6_RESERVED :: "128 network list" where
  "V6_RESERVED =
     [(0, 8), (0x01000000000000000000000000000000, 8), (0x02000000000000000000000000000000, 7),
      (0x04000000000000000000000000000000, 6), (0x08000000000000000000000000000000, 5),
      (0x10000000000000000000000000000000, 4), (0x40000000000000000000000000000000, 3),
      (0x60000000000000000000000000000000, 3), (0x80000000000000000000000000000000, 3),
      (0xA0000000000000000000000000000000, 3), (0xC0000000000000000000000000000000, 3),
      (0xE0000000000000000000000000000000, 4), (0xF0000000000000000000000000000000, 5),
      (0xF8000000000000000000000000000000, 6), (0xFE000000000000000000000000000000, 9)]"

definition v4_private :: "32 word \<Rightarrow> bool" where
  "v4_private a \<longleftrightarrow> list_ex (in_network a) V4_PRIVATE \<and> \<not> list_ex (in_network a) V4_PRIVATE_EXCEPTIONS"

definition v6_private :: "128 word \<Rightarrow> bool" where
  "v6_private a \<longleftrightarrow> list_ex (in_network a) V6_PRIVATE \<and> \<not> list_ex (in_network a) V6_PRIVATE_EXCEPTIONS"

definition ipv4_mapped :: "128 word \<Rightarrow> 32 word option" where
  "ipv4_mapped a = (if drop_bit 32 a = 0xFFFF then Some (ucast a) else None)"

section \<open>\<^verbatim>\<open>network_address_policy.py\<close>\<close>

datatype address_admission =
  GLOBAL | LOOPBACK | PRIVATE | LINK_LOCAL | SHARED | MULTICAST | RESERVED | UNSPECIFIED
  | DOCUMENTATION | OTHER_SPECIAL

definition SHARED_NET :: "32 network" where
  "SHARED_NET = (v4 100 64 0 0, 10)"

definition DOCUMENTATION_V4 :: "32 network list" where
  "DOCUMENTATION_V4 = [(v4 192 0 2 0, 24), (v4 198 51 100 0, 24), (v4 203 0 113 0, 24)]"

definition DOCUMENTATION_V6 :: "128 network list" where
  "DOCUMENTATION_V6 = [(0x20010DB8000000000000000000000000, 32)]"

definition classify_v4 :: "32 word \<Rightarrow> address_admission" where
  "classify_v4 a =
     (if in_network a (v4 127 0 0 0, 8) then LOOPBACK
      else if a = 0 then UNSPECIFIED
      else if in_network a (v4 169 254 0 0, 16) then LINK_LOCAL
      else if in_network a SHARED_NET then SHARED
      else if in_network a (v4 224 0 0 0, 4) then MULTICAST
      else if list_ex (in_network a) DOCUMENTATION_V4 then DOCUMENTATION
      else if v4_private a then PRIVATE
      else if in_network a (v4 240 0 0 0, 4) then RESERVED
      else if \<not> in_network a (v4 100 64 0 0, 10) \<and> \<not> v4_private a then GLOBAL
      else OTHER_SPECIAL)"

text \<open>The remaining case of an IPv6 address, one that is not IPv4-mapped.\<close>

definition classify_v6 :: "128 word \<Rightarrow> address_admission" where
  "classify_v6 a =
     (if a = 1 then LOOPBACK
      else if a = 0 then UNSPECIFIED
      else if in_network a (0xFE800000000000000000000000000000, 10) then LINK_LOCAL
      else if in_network a (0xFF000000000000000000000000000000, 8) then MULTICAST
      else if list_ex (in_network a) DOCUMENTATION_V6 then DOCUMENTATION
      else if v6_private a then PRIVATE
      else if list_ex (in_network a) V6_RESERVED then RESERVED
      else if \<not> v6_private a then GLOBAL
      else OTHER_SPECIAL)"

definition classify_address :: "ip_address \<Rightarrow> address_admission" where
  "classify_address address = (case address of
     V4 a \<Rightarrow> classify_v4 a
   | V6 a (Some zone) \<Rightarrow> OTHER_SPECIAL
   | V6 a None \<Rightarrow> (case ipv4_mapped a of Some b \<Rightarrow> classify_v4 b | None \<Rightarrow> classify_v6 a))"

definition classify_ip_address :: "ip_source \<Rightarrow> address_admission option" where
  "classify_ip_address source = map_option classify_address (ip_address source)"

definition is_global_address :: "ip_source \<Rightarrow> bool" where
  "is_global_address source = (case classify_ip_address source of None \<Rightarrow> False | Some c \<Rightarrow> c = GLOBAL)"

datatype address_error = NotGlobalAddress

definition require_global_address :: "ip_source \<Rightarrow> address_error + unit" where
  "require_global_address source = (if is_global_address source then Inr () else Inl NotGlobalAddress)"

end
