(* ===== verification/DnsWire.thy ===== *)
theory DnsWire
  imports NetworkAddress Effects
begin

text \<open>
  \<^verbatim>\<open>dns_wire.py\<close>: building a DNS query, the bounded parser of a response, and the probe over HTTPS.
  The IDNA codec and the HTTPS exchange are parameters.  The \<^verbatim>\<open>errno\<close> constants that the module
  looks up in \<^verbatim>\<open>socket\<close> are not attributes of it, so both of its tables are empty and an
  unclassified \<^verbatim>\<open>OSError\<close> is a transport error.
\<close>

unbundle bit_operations_syntax

datatype dns_error = InvalidName | TruncatedMessage | PointerLoop | StructError

definition TYPE_A :: int where "TYPE_A = 1"
definition TYPE_AAAA :: int where "TYPE_AAAA = 28"
definition RCODE_NOERROR :: nat where "RCODE_NOERROR = 0"
definition RCODE_NXDOMAIN :: nat where "RCODE_NXDOMAIN = 3"
definition MAX_RESPONSE_BYTES :: nat where "MAX_RESPONSE_BYTES = 65536"
definition FLAGS_RECURSION_DESIRED :: nat where "FLAGS_RECURSION_DESIRED = 0x0100"
definition FLAGS_RESPONSE :: nat where "FLAGS_RESPONSE = 0x8000"
definition COMPRESSION_POINTER :: nat where "COMPRESSION_POINTER = 0xC0"
definition MAX_POINTER_JUMPS :: nat where "MAX_POINTER_JUMPS = 64"

definition ANSWER_CATEGORIES :: "string set" where
  "ANSWER_CATEGORIES = {''answered'', ''nxdomain'', ''no_answer'', ''server_failure''}"

definition TRANSPORT_CATEGORIES :: "string set" where
  "TRANSPORT_CATEGORIES =
     {''dns_failure'', ''connect_timeout'', ''refused'', ''http_error'', ''transport_error''}"

section \<open>Building a query\<close>

text \<open>\<^verbatim>\<open>struct.pack("!H", n)\<close> for a number in range.\<close>

definition be16 :: "nat \<Rightarrow> bytes" where
  "be16 n = [char_of (n div 256), char_of (n mod 256)]"

definition label_wire :: "(string \<Rightarrow> bytes option) \<Rightarrow> string \<Rightarrow> dns_error + bytes" where
  "label_wire idna label =
     (case if list_all is_ascii label then Some label else idna label of
        None \<Rightarrow> Inl InvalidName
      | Some wire \<Rightarrow>
          if \<not> (1 \<le> length wire \<and> length wire \<le> 63) then Inl InvalidName
          else Inr (char_of (length wire) # wire))"

definition query_header :: bytes where
  "query_header = be16 0 @ be16 FLAGS_RECURSION_DESIRED @ be16 1 @ be16 0 @ be16 0 @ be16 0"

definition build_query :: "(string \<Rightarrow> bytes option) \<Rightarrow> string \<Rightarrow> int \<Rightarrow> dns_error + bytes" where
  "build_query idna hostname qtype =
     (let labels = split_on CHR ''.'' (rstrip_on CHR ''.'' hostname) in
      if hostname = [] \<or> labels = [] \<or> [] \<in> set labels then Inl InvalidName
      else bindE (mapE (label_wire idna) labels) (\<lambda>question.
        if \<not> (0 \<le> qtype \<and> qtype < 65536) then Inl StructError
        else Inr (query_header @ concat question @ [CHR 0x00] @ be16 (nat qtype) @ be16 1)))"

section \<open>Parsing a response\<close>

definition byte_at :: "bytes \<Rightarrow> nat \<Rightarrow> nat" where
  "byte_at p i = of_char (p ! i)"

definition be16_at :: "bytes \<Rightarrow> nat \<Rightarrow> nat" where
  "be16_at p i = 256 * byte_at p i + byte_at p (i + 1)"

text \<open>One round of the loop of \<^verbatim>\<open>_skip_name\<close>, \<open>e\<close> being its variable \<^verbatim>\<open>end\<close>.\<close>

function skip_loop :: "bytes \<Rightarrow> nat \<Rightarrow> nat \<Rightarrow> nat option \<Rightarrow> dns_error + nat" where
  "skip_loop p jumps pos e =
     (if length p \<le> pos then Inl TruncatedMessage
      else if byte_at p pos = 0 then Inr (case e of Some past \<Rightarrow> past | None \<Rightarrow> pos + 1)
      else if byte_at p pos AND COMPRESSION_POINTER \<noteq> 0 then
        (if length p \<le> pos + 1 then Inl TruncatedMessage
         else if MAX_POINTER_JUMPS < jumps + 1 then Inl PointerLoop
         else skip_loop p (jumps + 1) (push_bit 8 (byte_at p pos AND 0x3F) OR byte_at p (pos + 1))
                (case e of None \<Rightarrow> Some (pos + 2) | Some past \<Rightarrow> Some past))
      else skip_loop p jumps (pos + 1 + byte_at p pos) e)"
  by pat_completeness auto
termination
  by (relation "measures [\<lambda>(p, jumps, pos, e). MAX_POINTER_JUMPS - jumps, \<lambda>(p, jumps, pos, e). length p - pos]") auto

declare skip_loop.simps [simp del]

definition skip_name :: "bytes \<Rightarrow> nat \<Rightarrow> dns_error + nat" where
  "skip_name p offset = skip_loop p 0 offset None"

definition public_address :: "bytes \<Rightarrow> bool" where
  "public_address b = is_global_address (Packed b)"

fun skip_questions :: "bytes \<Rightarrow> nat \<Rightarrow> nat \<Rightarrow> dns_error + nat" where
  "skip_questions p 0 offset = Inr offset"
| "skip_questions p (Suc n) offset =
     bindE (skip_name p offset) (\<lambda>offset.
       if length p < offset + 4 then Inl TruncatedMessage else skip_questions p n (offset + 4))"

fun scan_answers :: "bytes \<Rightarrow> int \<Rightarrow> nat \<Rightarrow> nat \<Rightarrow> dns_error + bool" where
  "scan_answers p qtype 0 offset = Inr False"
| "scan_answers p qtype (Suc n) offset =
     bindE (skip_name p offset) (\<lambda>offset.
       if length p < offset + 10 then Inl TruncatedMessage
       else (let rtype = be16_at p offset; rdlength = be16_at p (offset + 8); start = offset + 10 in
         if length p < start + rdlength then Inl TruncatedMessage
         else if int rtype = qtype \<and> public_address (take rdlength (drop start p)) then Inr True
         else scan_answers p qtype n (start + rdlength)))"

definition parse_response :: "bytes \<Rightarrow> int \<Rightarrow> bool \<times> string" where
  "parse_response p qtype =
     (if length p < 12 then (False, ''malformed_response'')
      else (let flags = be16_at p 2; qdcount = be16_at p 4; ancount = be16_at p 6; rcode = flags AND 0x0F in
        if flags AND FLAGS_RESPONSE = 0 then (False, ''malformed_response'')
        else if rcode = RCODE_NXDOMAIN then (False, ''nxdomain'')
        else if rcode \<noteq> RCODE_NOERROR then (False, ''server_failure'')
        else (case bindE (skip_questions p qdcount 12) (scan_answers p qtype ancount) of
            Inl e \<Rightarrow> (False, ''malformed_response'')
          | Inr True \<Rightarrow> (True, ''answered'')
          | Inr False \<Rightarrow> (False, ''no_answer''))))"

section \<open>The probe\<close>

datatype os_failure = TimedOut | ConnectionRefused | NameResolution | OtherOSError int

text \<open>\<^verbatim>\<open>URLError.reason\<close> is a text or an exception.\<close>

datatype url_reason = ReasonText string | ReasonOS os_failure | ReasonOther

datatype transport_failure = HTTPFailure int | URLFailure url_reason | OSFailure os_failure | ValueFailure

text \<open>
  \<open>Escapes\<close> is an exception outside \<^verbatim>\<open>OSError\<close> and \<^verbatim>\<open>ValueError\<close>, such as
  \<^verbatim>\<open>http.client.IncompleteRead\<close>.
\<close>

datatype exchange_reply = Payload bytes | Fails transport_failure | Escapes

definition os_category :: "os_failure \<Rightarrow> string" where
  "os_category failure = (case failure of
     TimedOut \<Rightarrow> ''connect_timeout'' | ConnectionRefused \<Rightarrow> ''refused'' | NameResolution \<Rightarrow> ''dns_failure''
   | OtherOSError errno \<Rightarrow> ''transport_error'')"

definition transport_category :: "transport_failure \<Rightarrow> string" where
  "transport_category failure = (case failure of
     HTTPFailure code \<Rightarrow> ''http_error''
   | URLFailure (ReasonOS reason) \<Rightarrow> os_category reason
   | URLFailure _ \<Rightarrow> ''transport_error''
   | OSFailure reason \<Rightarrow> os_category reason
   | ValueFailure \<Rightarrow> ''transport_error'')"

text \<open>The URL-safe alphabet, and the encoding with its padding stripped.\<close>

definition sextet :: "nat \<Rightarrow> char" where
  "sextet n =
     (if n < 26 then char_of (65 + n) else if n < 52 then char_of (71 + n) else if n < 62 then char_of (n - 4)
      else if n = 62 then CHR ''-'' else CHR ''_'')"

fun base64url :: "bytes \<Rightarrow> string" where
  "base64url [] = []"
| "base64url [a] = (let n = of_char a * 16 :: nat in [sextet (n div 64), sextet (n mod 64)])"
| "base64url [a, b] =
     (let n = (of_char a * 256 + of_char b) * 4 :: nat in
      [sextet (n div 4096), sextet (n div 64 mod 64), sextet (n mod 64)])"
| "base64url (a # b # c # s) =
     (let n = (of_char a * 256 + of_char b) * 256 + of_char c :: nat in
      [sextet (n div 262144), sextet (n div 4096 mod 64), sextet (n div 64 mod 64), sextet (n mod 64)]
        @ base64url s)"

text \<open>\<open>None\<close>: an exception leaves the probe.\<close>

definition probe_doh ::
  "(string \<Rightarrow> bytes option) \<Rightarrow> (string \<Rightarrow> exchange_reply) \<Rightarrow> string \<Rightarrow> string \<Rightarrow> int \<Rightarrow> (bool \<times> string) option" where
  "probe_doh idna exchange endpoint hostname qtype =
     (case build_query idna hostname qtype of
        Inl StructError \<Rightarrow> None
      | Inl e \<Rightarrow> Some (False, ''transport_error'')
      | Inr query \<Rightarrow>
          (case exchange (endpoint @ ''?dns='' @ base64url query) of
             Escapes \<Rightarrow> None
           | Fails failure \<Rightarrow> Some (False, transport_category failure)
           | Payload payload \<Rightarrow> Some (parse_response (take MAX_RESPONSE_BYTES payload) qtype)))"

end
