(* ===== verification/AddressFacts.thy ===== *)
theory AddressFacts
  imports NetworkAddress JsonFacts
begin

text \<open>
  The addresses that the policy calls global, as ranges of numbers, and what the literal syntax
  reads back.
\<close>

section \<open>Networks as ranges\<close>

lemma in_network_nat:
  fixes a n :: "'a::len word"
  shows "in_network a (n, p) \<longleftrightarrow> unat a div 2 ^ (LENGTH('a) - p) = unat n div 2 ^ (LENGTH('a) - p)"
  by (simp only: in_network_def word_unat_eq_iff unat_drop_bit_eq fst_conv snd_conv) (simp add: drop_bit_eq_div)

lemma div_eq_range: "0 < q \<Longrightarrow> (a::nat) div q = c \<longleftrightarrow> c * q \<le> a \<and> a < c * q + q"
  by (metis add.commute div_nat_eqI dividend_less_div_times less_eq_div_iff_mult_less_eq mult.commute mult_Suc
      order_refl)

lemma in_network_range:
  fixes a n :: "'a::len word"
  assumes "unat n mod 2 ^ (LENGTH('a) - p) = 0"
  shows "in_network a (n, p) \<longleftrightarrow> unat n \<le> unat a \<and> unat a < unat n + 2 ^ (LENGTH('a) - p)"
  using assms by (simp add: in_network_nat div_eq_range [of "2 ^ (LENGTH('a) - p)"] minus_mod_eq_div_mult [symmetric])

lemma v4_number [simp]:
  "a < 256 \<Longrightarrow> b < 256 \<Longrightarrow> c < 256 \<Longrightarrow> d < 256 \<Longrightarrow> unat (v4 a b c d) = ((a * 256 + b) * 256 + c) * 256 + d"
  by (simp only: v4_def unat_of_nat) (simp add: take_bit_eq_mod)

text \<open>Membership of a number in a list of closed ranges.\<close>

definition in_ranges :: "nat \<Rightarrow> (nat \<times> nat) list \<Rightarrow> bool" where
  "in_ranges n rs \<longleftrightarrow> list_ex (\<lambda>(lo, hi). lo \<le> n \<and> n \<le> hi) rs"

text \<open>
  The blocks that are not globally reachable unicast: 0/8, 10/8, 100.64/10, 127/8, 169.254/16,
  172.16/12, 192.0.0/24, 192.0.2/24, 192.168/16, 198.18/15, 198.51.100/24, 203.0.113/24 and all from
  224.0.0.0 on.
\<close>

definition SPECIAL_V4 :: "(nat \<times> nat) list" where
  "SPECIAL_V4 =
     [(0, 0x00FFFFFF), (0x0A000000, 0x0AFFFFFF), (0x64400000, 0x647FFFFF), (0x7F000000, 0x7FFFFFFF),
      (0xA9FE0000, 0xA9FEFFFF), (0xAC100000, 0xAC1FFFFF), (0xC0000000, 0xC00000FF), (0xC0000200, 0xC00002FF),
      (0xC0A80000, 0xC0A8FFFF), (0xC6120000, 0xC613FFFF), (0xC6336400, 0xC63364FF), (0xCB007100, 0xCB0071FF),
      (0xE0000000, 0xFFFFFFFF)]"

text \<open>The two addresses of 192.0.0.0/24 that are reachable: 192.0.0.9 and 192.0.0.10.\<close>

definition EXCEPTIONS_V4 :: "nat list" where
  "EXCEPTIONS_V4 = [0xC0000009, 0xC000000A]"

definition global_v4 :: "nat \<Rightarrow> bool" where
  "global_v4 n \<longleftrightarrow> \<not> in_ranges n SPECIAL_V4 \<or> n \<in> set EXCEPTIONS_V4"

lemma v4_bound: "unat (a :: 32 word) < 4294967296"
  by (rule unsigned_less [of a, simplified])

lemma less_Suc_bound: "n < m \<longleftrightarrow> n \<le> m - 1" if "0 < m" for n m :: nat
  using that by auto

lemma classify_v4_global: "classify_v4 a = GLOBAL \<longleftrightarrow> global_v4 (unat a)"
proof -
  define n where "n = unat a"
  have zero: "a = 0 \<longleftrightarrow> n = 0" by (simp add: n_def unat_eq_0)
  have range: "in_network a (m, p) \<longleftrightarrow> unat m \<le> n \<and> n \<le> unat m + (2 ^ (32 - p) - 1)"
    if "unat m mod 2 ^ (32 - p) = 0" for m p
    using in_network_range [of m p a] that by (auto simp: n_def less_Suc_bound)
  have "n < 4294967296" unfolding n_def by (rule v4_bound)
  then have top: "n \<le> 4294967295" by simp
  consider "n = 0xC0000009" | "n = 0xC000000A" | "n \<noteq> 0xC0000009" "n \<noteq> 0xC000000A" by blast
  then have "classify_v4 a = GLOBAL \<longleftrightarrow> global_v4 n"
  proof cases
    case 3
    then show ?thesis
      using top
      by (simp add: classify_v4_def SHARED_NET_def DOCUMENTATION_V4_def v4_private_def V4_PRIVATE_def
        V4_PRIVATE_EXCEPTIONS_def range zero global_v4_def EXCEPTIONS_V4_def in_ranges_def SPECIAL_V4_def)
  qed (simp_all add: classify_v4_def SHARED_NET_def DOCUMENTATION_V4_def v4_private_def V4_PRIVATE_def
      V4_PRIVATE_EXCEPTIONS_def range zero global_v4_def EXCEPTIONS_V4_def)
  then show ?thesis by (simp add: n_def)
qed

text \<open>
  IPv6: the reachable blocks are 2000::/3 and, as \<^verbatim>\<open>ipaddress\<close> has it, the deprecated fec0::/10,
  without 2001::/23 (its six assigned sub-blocks excepted), 2001:db8::/32 and 2002::/16.
\<close>

definition UNICAST_V6 :: "(nat \<times> nat) list" where
  "UNICAST_V6 =
     [(0x20000000000000000000000000000000, 0x3FFFFFFFFFFFFFFFFFFFFFFFFFFFFFFF),
      (0xFEC00000000000000000000000000000, 0xFEFFFFFFFFFFFFFFFFFFFFFFFFFFFFFF)]"

definition SPECIAL_V6 :: "(nat \<times> nat) list" where
  "SPECIAL_V6 =
     [(0x20010000000000000000000000000000, 0x200101FFFFFFFFFFFFFFFFFFFFFFFFFF),
      (0x20010DB8000000000000000000000000, 0x20010DB8FFFFFFFFFFFFFFFFFFFFFFFF),
      (0x20020000000000000000000000000000, 0x2002FFFFFFFFFFFFFFFFFFFFFFFFFFFF)]"

definition EXCEPTIONS_V6 :: "(nat \<times> nat) list" where
  "EXCEPTIONS_V6 =
     [(0x20010001000000000000000000000001, 0x20010001000000000000000000000002),
      (0x20010003000000000000000000000000, 0x20010003FFFFFFFFFFFFFFFFFFFFFFFF),
      (0x20010004011200000000000000000000, 0x200100040112FFFFFFFFFFFFFFFFFFFF),
      (0x20010020000000000000000000000000, 0x2001003FFFFFFFFFFFFFFFFFFFFFFFFF)]"

definition global_v6 :: "nat \<Rightarrow> bool" where
  "global_v6 n \<longleftrightarrow> in_ranges n UNICAST_V6 \<and> (\<not> in_ranges n SPECIAL_V6 \<or> in_ranges n EXCEPTIONS_V6)"

lemma v6_bound: "unat (a :: 128 word) < 0x100000000000000000000000000000000"
  by (rule unsigned_less [of a, simplified])

lemma exceptions_v6:
  "list_ex (in_network a) V6_PRIVATE_EXCEPTIONS \<longleftrightarrow> in_ranges (unat a) EXCEPTIONS_V6"
  by (simp add: V6_PRIVATE_EXCEPTIONS_def EXCEPTIONS_V6_def in_ranges_def in_network_range) auto

text \<open>Adjacent ranges merge: the reserved blocks are three intervals.\<close>

lemma merge_ranges:
  "m' = Suc m \<Longrightarrow> lo \<le> m' \<Longrightarrow> m \<le> hi \<Longrightarrow>
     in_ranges n ((lo, m) # (m', hi) # rs) \<longleftrightarrow> in_ranges n ((lo, hi) # rs)"
  by (auto simp: in_ranges_def)

definition RESERVED_V6 :: "(nat \<times> nat) list" where
  "RESERVED_V6 =
     [(0, 0x1FFFFFFFFFFFFFFFFFFFFFFFFFFFFFFF),
      (0x40000000000000000000000000000000, 0xFBFFFFFFFFFFFFFFFFFFFFFFFFFFFFFF),
      (0xFE000000000000000000000000000000, 0xFE7FFFFFFFFFFFFFFFFFFFFFFFFFFFFF)]"

lemma in_ranges_Cons: "in_ranges n ((lo, hi) # rs) \<longleftrightarrow> lo \<le> n \<and> n \<le> hi \<or> in_ranges n rs"
  by (simp add: in_ranges_def)

lemma in_ranges_Nil: "in_ranges n [] \<longleftrightarrow> False"
  by (simp add: in_ranges_def)

lemma in_network_ranges:
  fixes a m :: "'a::len word"
  assumes "unat m mod 2 ^ (LENGTH('a) - p) = 0"
  shows "in_network a (m, p) \<longleftrightarrow> unat m \<le> unat a \<and> unat a \<le> unat m + (2 ^ (LENGTH('a) - p) - 1)"
  using in_network_range [OF assms, of a] by (auto simp: less_Suc_bound)

lemma reserved_v6: "list_ex (in_network a) V6_RESERVED \<longleftrightarrow> in_ranges (unat a) RESERVED_V6"
proof -
  have "list_ex (in_network a) V6_RESERVED \<longleftrightarrow> in_ranges (unat a)
     [(0, 0x00FFFFFFFFFFFFFFFFFFFFFFFFFFFFFF), (0x01000000000000000000000000000000, 0x01FFFFFFFFFFFFFFFFFFFFFFFFFFFFFF),
      (0x02000000000000000000000000000000, 0x03FFFFFFFFFFFFFFFFFFFFFFFFFFFFFF),
      (0x04000000000000000000000000000000, 0x07FFFFFFFFFFFFFFFFFFFFFFFFFFFFFF),
      (0x08000000000000000000000000000000, 0x0FFFFFFFFFFFFFFFFFFFFFFFFFFFFFFF),
      (0x10000000000000000000000000000000, 0x1FFFFFFFFFFFFFFFFFFFFFFFFFFFFFFF)]
   \<or> in_ranges (unat a)
     [(0x40000000000000000000000000000000, 0x5FFFFFFFFFFFFFFFFFFFFFFFFFFFFFFF),
      (0x60000000000000000000000000000000, 0x7FFFFFFFFFFFFFFFFFFFFFFFFFFFFFFF),
      (0x80000000000000000000000000000000, 0x9FFFFFFFFFFFFFFFFFFFFFFFFFFFFFFF),
      (0xA0000000000000000000000000000000, 0xBFFFFFFFFFFFFFFFFFFFFFFFFFFFFFFF),
      (0xC0000000000000000000000000000000, 0xDFFFFFFFFFFFFFFFFFFFFFFFFFFFFFFF),
      (0xE0000000000000000000000000000000, 0xEFFFFFFFFFFFFFFFFFFFFFFFFFFFFFFF),
      (0xF0000000000000000000000000000000, 0xF7FFFFFFFFFFFFFFFFFFFFFFFFFFFFFF),
      (0xF8000000000000000000000000000000, 0xFBFFFFFFFFFFFFFFFFFFFFFFFFFFFFFF)]
   \<or> in_ranges (unat a)
     [(0xFE000000000000000000000000000000, 0xFE7FFFFFFFFFFFFFFFFFFFFFFFFFFFFF)]"
    unfolding V6_RESERVED_def by (simp add: in_network_ranges in_ranges_Cons in_ranges_Nil)
  also have "\<dots> \<longleftrightarrow> in_ranges (unat a) [RESERVED_V6 ! 0] \<or> in_ranges (unat a) [RESERVED_V6 ! 1]
     \<or> in_ranges (unat a) [RESERVED_V6 ! 2]"
    unfolding RESERVED_V6_def by (simp add: merge_ranges)
  also have "\<dots> \<longleftrightarrow> in_ranges (unat a) RESERVED_V6"
    by (simp add: RESERVED_V6_def in_ranges_Cons in_ranges_Nil)
  finally show ?thesis .
qed

lemma classify_v6_global: "classify_v6 a = GLOBAL \<longleftrightarrow> global_v6 (unat a)"
proof -
  define n where "n = unat a"
  have small: "a = 0 \<longleftrightarrow> n = 0" "a = 1 \<longleftrightarrow> n = 1" by (simp_all add: n_def word_unat_eq_iff)
  have range: "in_network a (m, p) \<longleftrightarrow> unat m \<le> n \<and> n \<le> unat m + (2 ^ (128 - p) - 1)"
    if "unat m mod 2 ^ (128 - p) = 0" for m p
    using in_network_range [of m p a] that by (auto simp: n_def less_Suc_bound)
  have top: "n \<le> 0xFFFFFFFFFFFFFFFFFFFFFFFFFFFFFFFF"
    using v6_bound [of a] by (simp add: n_def)
  show ?thesis
  proof (cases "in_ranges n EXCEPTIONS_V6")
    case True
    then have public: "\<not> v6_private a" by (simp add: v6_private_def exceptions_v6 n_def)
    have "0x20010001000000000000000000000001 \<le> n \<and> n \<le> 0x2001003FFFFFFFFFFFFFFFFFFFFFFFFF"
      using True by (auto simp: in_ranges_def EXCEPTIONS_V6_def)
    then have "classify_v6 a = GLOBAL" and "in_ranges n UNICAST_V6"
      using public
      by (simp_all add: classify_v6_def DOCUMENTATION_V6_def range small n_def [symmetric] in_ranges_Cons
        in_ranges_Nil UNICAST_V6_def reserved_v6 RESERVED_V6_def)
    then show ?thesis using True by (simp add: global_v6_def n_def [symmetric])
  next
    case False
    then have only_nets: "v6_private a \<longleftrightarrow> list_ex (in_network a) V6_PRIVATE"
      by (simp add: v6_private_def exceptions_v6 n_def)
    consider "n \<le> 0x1FFFFFFFFFFFFFFFFFFFFFFFFFFFFFFF"
      | "0x20000000000000000000000000000000 \<le> n" "n \<le> 0x3FFFFFFFFFFFFFFFFFFFFFFFFFFFFFFF"
      | "0x40000000000000000000000000000000 \<le> n" "n \<le> 0xFBFFFFFFFFFFFFFFFFFFFFFFFFFFFFFF"
      | "0xFC000000000000000000000000000000 \<le> n" "n \<le> 0xFDFFFFFFFFFFFFFFFFFFFFFFFFFFFFFF"
      | "0xFE000000000000000000000000000000 \<le> n" "n \<le> 0xFE7FFFFFFFFFFFFFFFFFFFFFFFFFFFFF"
      | "0xFE800000000000000000000000000000 \<le> n" "n \<le> 0xFEBFFFFFFFFFFFFFFFFFFFFFFFFFFFFF"
      | "0xFEC00000000000000000000000000000 \<le> n" "n \<le> 0xFEFFFFFFFFFFFFFFFFFFFFFFFFFFFFFF"
      | "0xFF000000000000000000000000000000 \<le> n"
      by linarith
    then show ?thesis
      using False only_nets top
      by cases (simp_all add: classify_v6_def DOCUMENTATION_V6_def range small global_v6_def n_def [symmetric]
        V6_PRIVATE_def in_ranges_Cons in_ranges_Nil UNICAST_V6_def SPECIAL_V6_def reserved_v6 RESERVED_V6_def)
  qed
qed

section \<open>Literals\<close>

definition dotted :: "nat \<Rightarrow> nat \<Rightarrow> nat \<Rightarrow> nat \<Rightarrow> string" where
  "dotted a b c d = join_on CHR ''.'' (map nat_digits [a, b, c, d])"

lemma digit_chars: "is_digit c \<Longrightarrow> \<exists>k < (10 :: nat). c = char_of (48 + k)"
  by (intro exI [of _ "of_char c - (48 :: nat)"]) (auto simp: is_digit_def char_le_iff)

lemma nat_digits_value:
  assumes "list_all is_digit s" and "s \<noteq> []" and "hd s = CHR ''0'' \<longrightarrow> s = ''0''"
  shows "nat_digits (digits_value 0 s) = s"
  using assms
proof (induction s rule: rev_induct)
  case (snoc c s)
  then obtain k :: nat where k: "k < 10" "c = char_of (48 + k)" using digit_chars [of c] by auto
  show ?case
  proof (cases "s = []")
    case True
    with k show ?thesis by (simp add: nat_digits.simps [of k])
  next
    case False
    with snoc.prems have "hd s \<noteq> CHR ''0''" by auto
    with False snoc have IH: "nat_digits (digits_value 0 s) = s" by simp
    have "digits_value 0 s \<noteq> 0"
    proof
      assume "digits_value 0 s = 0"
      with IH have "s = nat_digits 0" by simp
      also have "\<dots> = ''0''" by code_simp
      finally show False using \<open>hd s \<noteq> CHR ''0''\<close> by simp
    qed
    with k IH show ?thesis
      by (simp add: digits_value_append nat_digits.simps [of "digits_value 0 s * 10 + k"])
  qed
qed simp

lemma length_octet: "n < 256 \<Longrightarrow> length (nat_digits n) \<le> 3"
  by (simp add: nat_digits.simps [of n] nat_digits.simps [of "n div 10"] nat_digits.simps [of "n div 10 div 10"])

lemma parse_octet_iff: "parse_octet s = Some n \<longleftrightarrow> s = nat_digits n \<and> n < 256"
proof
  assume "parse_octet s = Some n"
  then show "s = nat_digits n \<and> n < 256"
    using nat_digits_value [of s] by (auto simp: parse_octet_def split: if_splits)
next
  assume n: "s = nat_digits n \<and> n < 256"
  obtain c t where c: "nat_digits n = c # t" "c = CHR ''0'' \<longrightarrow> t = [] \<and> n = 0" using hd_nat_digits by blast
  then show "parse_octet s = Some n"
    using n length_octet [of n] nat_digits_digit [of n] digits_value_nat_digits [of n]
    by (auto simp: parse_octet_def)
qed

lemma split_dotted: "split_on CHR ''.'' (dotted a b c d) = map nat_digits [a, b, c, d]"
  unfolding dotted_def
proof (rule split_on_join)
  have "CHR ''.'' \<notin> set (nat_digits n)" for n
    using nat_digits_digit [of n] by (auto simp: list_all_iff is_digit_def char_le_iff)
  then show "\<forall>w \<in> set (map nat_digits [a, b, c, d]). CHR ''.'' \<notin> set w" by simp
qed simp

lemma v4_of_text_iff:
  "v4_of_text s = Some w \<longleftrightarrow>
     (\<exists>a b c d. s = dotted a b c d \<and> a < 256 \<and> b < 256 \<and> c < 256 \<and> d < 256 \<and> w = v4 a b c d)"
proof
  assume "v4_of_text s = Some w"
  then obtain p q r t a b c d where parts: "split_on CHR ''.'' s = [p, q, r, t]"
      and octets: "parse_octet p = Some a" "parse_octet q = Some b" "parse_octet r = Some c" "parse_octet t = Some d"
      and w: "w = v4 a b c d"
    by (auto simp: v4_of_text_def v4_def split: list.splits option.splits)
  have "s = join_on CHR ''.'' [p, q, r, t]" using join_split_on [of "CHR ''.''" s] parts by simp
  then have "s = dotted a b c d" using octets by (simp add: dotted_def parse_octet_iff)
  then show "\<exists>a b c d. s = dotted a b c d \<and> a < 256 \<and> b < 256 \<and> c < 256 \<and> d < 256 \<and> w = v4 a b c d"
    using octets w by (auto simp: parse_octet_iff)
next
  assume "\<exists>a b c d. s = dotted a b c d \<and> a < 256 \<and> b < 256 \<and> c < 256 \<and> d < 256 \<and> w = v4 a b c d"
  then obtain a b c d where s: "s = dotted a b c d" and bounds: "a < 256" "b < 256" "c < 256" "d < 256"
      and w: "w = v4 a b c d" by blast
  have "parse_octet (nat_digits n) = Some n" if "n < 256" for n using that by (simp add: parse_octet_iff)
  then show "v4_of_text s = Some w" using bounds by (simp add: v4_of_text_def s split_dotted w v4_def)
qed

lemma dotted_no_slash: "CHR ''/'' \<notin> set (dotted a b c d)"
proof -
  have "CHR ''/'' \<notin> set (nat_digits n)" for n
    using nat_digits_digit [of n] by (auto simp: list_all_iff is_digit_def char_le_iff)
  then show ?thesis by (simp add: dotted_def join_on_def)
qed

lemma parse_v4_iff:
  "parse_v4 s = Some w \<longleftrightarrow>
     (\<exists>a b c d. s = dotted a b c d \<and> a < 256 \<and> b < 256 \<and> c < 256 \<and> d < 256 \<and> w = v4 a b c d)"
  using dotted_no_slash v4_of_text_iff [of s w] by (auto simp: parse_v4_def)

section \<open>The policy\<close>

lemma parse_v6_v4: "parse_v4 s = Some a \<Longrightarrow> ip_address (Literal s) = Some (V4 a)"
  by (simp add: ip_address_def)

lemma mapped_value:
  "ipv4_mapped a = (if unat a div 2 ^ 32 = 0xFFFF then Some (ucast a) else None)"
proof -
  have "drop_bit 32 a = 0xFFFF \<longleftrightarrow> unat a div 2 ^ 32 = 0xFFFF"
    by (simp only: word_unat_eq_iff unat_drop_bit_eq) (simp add: drop_bit_eq_div)
  then show ?thesis by (simp add: ipv4_mapped_def)
qed

lemma mapped_number: "unat (ucast (a :: 128 word) :: 32 word) = unat a mod 2 ^ 32"
  by (simp add: unsigned_ucast_eq take_bit_eq_mod)

lemma octets_number:
  "(((x div 16777216) * 256 + x div 65536 mod 256) * 256 + x div 256 mod 256) * 256 + x mod 256 = (x :: nat)"
proof -
  have "x div 16777216 = x div 65536 div 256" and "x div 65536 = x div 256 div 256" by (simp_all add: div_mult2_eq [symmetric])
  then show ?thesis by (metis div_mult_mod_eq)
qed

lemma number_octets:
  assumes "a < 256" and "b < 256" and "c < 256" and "d < (256 :: nat)"
    and "x = ((a * 256 + b) * 256 + c) * 256 + d"
  shows "x div 16777216 = a \<and> x div 65536 mod 256 = b \<and> x div 256 mod 256 = c \<and> x mod 256 = d"
proof -
  have step: "(q * 256 + r) div 256 = q" "(q * 256 + r) mod 256 = r" if "r < 256" for q r :: nat
    using that by simp_all
  have "x div 256 = (a * 256 + b) * 256 + c" "x mod 256 = d" by (simp_all only: assms(5) step [OF assms(4)])
  moreover from this have "x div 256 div 256 = a * 256 + b" "x div 256 mod 256 = c"
    by (simp_all only: step [OF assms(3)])
  moreover from this have "x div 256 div 256 div 256 = a" "x div 256 div 256 mod 256 = b"
    by (simp_all only: step [OF assms(2)])
  moreover have "x div 16777216 = x div 256 div 256 div 256" "x div 65536 = x div 256 div 256"
    by (simp_all add: div_mult2_eq [symmetric])
  ultimately show ?thesis by (simp only: simp_thms)
qed

lemma global_packed4:
  "length b = 4 \<Longrightarrow> is_global_address (Packed b) \<longleftrightarrow> global_v4 (bytes_value b mod 2 ^ 32)"
  by (simp add: is_global_address_def classify_ip_address_def classify_address_def ip_address_def
      classify_v4_global unat_of_nat take_bit_eq_mod)


lemma bytes_value_append: "bytes_value (s @ t) = bytes_value s * 256 ^ length t + bytes_value t"
proof -
  have "foldl (\<lambda>n c. 256 * n + of_char c) k t = k * 256 ^ length t + bytes_value t" for k :: nat
  proof (induction t arbitrary: k)
    case (Cons c t)
    have "bytes_value (c # t) = foldl (\<lambda>n c. 256 * n + of_char c) (of_char c) t" by (simp add: bytes_value_def)
    then show ?case by (simp only: foldl_Cons Cons.IH) (simp add: algebra_simps)
  qed (simp add: bytes_value_def)
  from this [of "bytes_value s"] show ?thesis by (simp add: bytes_value_def)
qed

lemma bytes_value_zeros: "bytes_value (replicate n (char_of (0 :: nat))) = 0"
  by (induction n) (simp_all add: bytes_value_def)

text \<open>
  C31.  The forms of one IPv4 address are classified alike: its dotted text, its four bytes, and the
  sixteen bytes of the IPv4-mapped IPv6 address, which inherits the classification.
\<close>

theorem forms_agree:
  assumes "a < 256" and "b < 256" and "c < 256" and "d < 256"
  defines "octets \<equiv> map char_of [a, b, c, d]"
  shows "classify_ip_address (Literal (dotted a b c d)) = Some (classify_v4 (v4 a b c d))
    \<and> classify_ip_address (Packed octets) = Some (classify_v4 (v4 a b c d))
    \<and> classify_ip_address (Packed (replicate 10 (char_of (0::nat)) @ [char_of (255::nat), char_of (255::nat)] @ octets))
        = Some (classify_v4 (v4 a b c d))"
proof -
  let ?n = "((a * 256 + b) * 256 + c) * 256 + d"
  let ?mapped = "replicate 10 (char_of (0::nat)) @ [char_of (255::nat), char_of (255::nat)] @ octets"
  have small: "?n < 4294967296" using assms(1-4) by simp
  have text_form: "ip_address (Literal (dotted a b c d)) = Some (V4 (v4 a b c d))"
    by (rule parse_v6_v4) (use assms(1-4) parse_v4_iff in blast)
  have packed: "ip_address (Packed octets) = Some (V4 (v4 a b c d))"
    using assms(1-4) by (simp add: ip_address_def octets_def bytes_value_def v4_def ac_simps)
  have "bytes_value octets = ?n" "length octets = 4"
    using assms(1-4) by (simp_all add: bytes_value_def octets_def ac_simps)
  moreover have "bytes_value (replicate 10 (char_of (0::nat)) @ [char_of (255::nat), char_of (255::nat)]) = 0xFFFF"
    by (simp add: bytes_value_append bytes_value_zeros) (simp add: bytes_value_def)
  ultimately have "bytes_value ?mapped = 0xFFFF * 2 ^ 32 + ?n"
    using bytes_value_append [of "replicate 10 (char_of (0::nat)) @ [char_of (255::nat), char_of (255::nat)]" octets]
    by simp
  then have six: "ip_address (Packed ?mapped) = Some (V6 (of_nat (0xFFFF * 2 ^ 32 + ?n)) None)"
    by (simp add: ip_address_def octets_def del: of_nat_add of_nat_mult)
  have number: "unat (of_nat (0xFFFF * 2 ^ 32 + ?n) :: 128 word) = 0xFFFF * 2 ^ 32 + ?n"
    using small by (simp only: unat_of_nat) (simp add: take_bit_eq_mod)
  have "(0xFFFF * 2 ^ 32 + ?n) div 2 ^ 32 = 0xFFFF" "(0xFFFF * 2 ^ 32 + ?n) mod 2 ^ 32 = ?n"
    using small by (simp, simp only: mod_mult_self3, simp)
  then have "ipv4_mapped (of_nat (0xFFFF * 2 ^ 32 + ?n)) = Some (v4 a b c d)"
    using assms(1-4) mapped_number [of "of_nat (0xFFFF * 2 ^ 32 + ?n)"]
    by (simp only: mapped_value number if_True simp_thms option.inject word_unat_eq_iff v4_number)
  then show ?thesis
    by (simp only: classify_ip_address_def text_form packed six option.map classify_address_def
        ip_address.case option.case)
qed

theorem forms_agree_witness:
  "classify_ip_address (Literal (dotted 8 8 8 8)) = Some GLOBAL
   \<and> classify_ip_address (Packed (map char_of [10, 0, 0, 1 :: nat])) = Some PRIVATE"
  using forms_agree [of 8 8 8 8] forms_agree [of 10 0 0 1]
  by (simp add: classify_v4_def SHARED_NET_def DOCUMENTATION_V4_def v4_private_def V4_PRIVATE_def
      V4_PRIVATE_EXCEPTIONS_def in_network_range word_unat_eq_iff)

end
