(* ===== verification/DnsFacts.thy ===== *)
theory DnsFacts
  imports DnsWire AddressFacts
begin

text \<open>
  The DNS wire format: a name is always left behind within the message, an \<^verbatim>\<open>answered\<close> verdict rests
  on a record inside the message, and a well-formed response with compressed names gets the verdict
  of its answer section, whatever follows it.
\<close>

section \<open>Names\<close>

lemma label_flag: "n < 64 \<Longrightarrow> n AND COMPRESSION_POINTER = 0" for n :: nat
proof -
  have "list_all (\<lambda>n. n AND COMPRESSION_POINTER = 0) [0..<64]" by code_simp
  then show "n < 64 \<Longrightarrow> n AND COMPRESSION_POINTER = 0" by (simp add: list_all_iff)
qed

lemma skip_loop_bounds:
  "skip_loop p jumps pos e = Inr r \<Longrightarrow> (case e of None \<Rightarrow> pos < r \<and> r \<le> length p | Some past \<Rightarrow> r = past)"
proof (induction p jumps pos e rule: skip_loop.induct)
  case (1 p jumps pos e)
  consider "length p \<le> pos" | "pos < length p" "byte_at p pos = 0"
    | "pos < length p" "byte_at p pos \<noteq> 0" "byte_at p pos AND COMPRESSION_POINTER \<noteq> 0"
    | "pos < length p" "byte_at p pos \<noteq> 0" "byte_at p pos AND COMPRESSION_POINTER = 0" by linarith
  then show ?case
  proof cases
    case 1
    with "1.prems" show ?thesis by (simp add: skip_loop.simps [of p jumps pos])
  next
    case 2
    with "1.prems" show ?thesis by (auto simp: skip_loop.simps [of p jumps pos] split: option.splits)
  next
    case 3
    with "1.prems" have "\<not> length p \<le> pos + 1" and "\<not> MAX_POINTER_JUMPS < jumps + 1"
      by (auto simp: skip_loop.simps [of p jumps pos] split: if_splits)
    with 3 "1.IH"(1) "1.prems" show ?thesis
      by (auto simp: skip_loop.simps [of p jumps pos] split: option.splits)
  next
    case 4
    with "1.IH"(2) "1.prems" show ?thesis
      by (auto simp: skip_loop.simps [of p jumps pos] split: option.splits)
  qed
qed

lemma skip_name_bounds: "skip_name p offset = Inr r \<Longrightarrow> offset < r \<and> r \<le> length p"
  using skip_loop_bounds [of p 0 offset None r] by (simp add: skip_name_def)

text \<open>The labels of a name, each with its length.\<close>

definition encode_labels :: "bytes list \<Rightarrow> bytes" where
  "encode_labels ls = concat (map (\<lambda>l. char_of (length l) # l) ls)"

definition labels_ok :: "bytes list \<Rightarrow> bool" where
  "labels_ok ls \<longleftrightarrow> list_all (\<lambda>l. 1 \<le> length l \<and> length l \<le> 63) ls"

lemma encode_labels_simps [simp]:
  "encode_labels [] = []" "encode_labels (l # ls) = char_of (length l) # l @ encode_labels ls"
  by (simp_all add: encode_labels_def)

lemma labels_ok_simps [simp]:
  "labels_ok []" "labels_ok (l # ls) \<longleftrightarrow> 1 \<le> length l \<and> length l \<le> 63 \<and> labels_ok ls"
  by (simp_all add: labels_ok_def)

lemma skip_labels:
  assumes "labels_ok ls"
  shows "skip_loop (pre @ encode_labels ls @ post) jumps (length pre) e =
     skip_loop (pre @ encode_labels ls @ post) jumps (length pre + length (encode_labels ls)) e"
  using assms
proof (induction ls arbitrary: pre)
  case (Cons l ls)
  let ?p = "pre @ char_of (length l) # l @ encode_labels ls @ post"
  have len: "byte_at ?p (length pre) = length l" using Cons.prems by (simp add: byte_at_def nth_append)
  have flag: "byte_at ?p (length pre) AND COMPRESSION_POINTER = 0"
    unfolding len by (rule label_flag) (use Cons.prems in simp)
  have "skip_loop ?p jumps (length pre) e = skip_loop ?p jumps (length (pre @ char_of (length l) # l)) e"
    using Cons.prems flag by (subst skip_loop.simps) (auto simp: len add.assoc)
  also have "\<dots> = skip_loop ?p jumps (length (pre @ char_of (length l) # l) + length (encode_labels ls)) e"
    using Cons.IH [of "pre @ char_of (length l) # l"] Cons.prems by simp
  finally show ?case by (simp add: add.assoc)
qed simp

text \<open>A name of a message: all of its labels, or some and a pointer to the name of the first question.\<close>

datatype wire_name = Whole "bytes list" | Compressed "bytes list"

fun encode_name :: "wire_name \<Rightarrow> bytes" where
  "encode_name (Whole ls) = encode_labels ls @ [CHR 0x00]"
| "encode_name (Compressed ls) = encode_labels ls @ [CHR 0xC0, CHR 0x0C]"

fun name_ok :: "wire_name \<Rightarrow> bool" where
  "name_ok (Whole ls) = labels_ok ls"
| "name_ok (Compressed ls) = labels_ok ls"

lemma skip_whole:
  assumes "labels_ok ls"
  shows "skip_loop (pre @ encode_labels ls @ CHR 0x00 # post) jumps (length pre) e =
     Inr (case e of Some past \<Rightarrow> past | None \<Rightarrow> length pre + length (encode_labels ls) + 1)"
proof -
  have "byte_at (pre @ encode_labels ls @ CHR 0x00 # post) (length pre + length (encode_labels ls)) = 0"
    using nth_append_length [of "pre @ encode_labels ls" "CHR 0x00" post] by (simp add: byte_at_def)
  then show ?thesis
    by (simp only: skip_labels [OF assms] skip_loop.simps [of _ _ "length pre + length (encode_labels ls)"])
      (simp split: option.splits)
qed

lemma skip_compressed:
  assumes "labels_ok ls" and "labels_ok target" and "length front = 12"
    and p: "p = pre @ encode_labels ls @ CHR 0xC0 # CHR 0x0C # post"
    and q: "p = front @ encode_labels target @ CHR 0x00 # others"
  shows "skip_name p (length pre) = Inr (length pre + length (encode_labels ls) + 2)"
proof -
  let ?pos = "length pre + length (encode_labels ls)"
  have "byte_at p ?pos = 0xC0" "byte_at p (?pos + 1) = 12"
    using nth_append_length [of "pre @ encode_labels ls" "CHR 0xC0" "CHR 0x0C # post"]
      nth_append_length [of "pre @ encode_labels ls @ [CHR 0xC0]" "CHR 0x0C" post]
    by (simp_all add: byte_at_def p)
  moreover have "?pos + 1 < length p" by (simp add: p)
  ultimately have "skip_loop p 0 ?pos None = skip_loop p 1 12 (Some (?pos + 2))"
    by (subst skip_loop.simps) (simp add: COMPRESSION_POINTER_def MAX_POINTER_JUMPS_def)
  also have "\<dots> = Inr (?pos + 2)"
    using skip_whole [OF assms(2), of front others 1 "Some (?pos + 2)"] assms(3) by (simp add: q)
  finally show ?thesis
    using skip_labels [OF assms(1), of pre "CHR 0xC0 # CHR 0x0C # post" 0 None] by (simp add: skip_name_def p)
qed

section \<open>Messages\<close>

text \<open>A record of the answer section; \<open>rr_middle\<close> is its class and time to live.\<close>

record resource =
  rr_name :: wire_name
  rr_type :: nat
  rr_middle :: bytes
  rr_data :: bytes

definition encode_resource :: "resource \<Rightarrow> bytes" where
  "encode_resource r =
     encode_name (rr_name r) @ be16 (rr_type r) @ rr_middle r @ be16 (length (rr_data r)) @ rr_data r"

definition resource_ok :: "resource \<Rightarrow> bool" where
  "resource_ok r \<longleftrightarrow> name_ok (rr_name r) \<and> rr_type r < 65536 \<and> length (rr_middle r) = 6 \<and> length (rr_data r) < 65536"

text \<open>A question: its name, all of it, and four bytes of type and class.\<close>

definition encode_question :: "bytes list \<times> bytes \<Rightarrow> bytes" where
  "encode_question q = encode_name (Whole (fst q)) @ snd q"

definition question_ok :: "bytes list \<times> bytes \<Rightarrow> bool" where
  "question_ok q \<longleftrightarrow> labels_ok (fst q) \<and> length (snd q) = 4"

text \<open>\<open>ident\<close> is the transaction number, \<open>counts\<close> the sizes of the sections that are not read.\<close>

definition encode_response ::
  "bytes \<Rightarrow> nat \<Rightarrow> bytes \<Rightarrow> (bytes list \<times> bytes) list \<Rightarrow> resource list \<Rightarrow> bytes \<Rightarrow> bytes" where
  "encode_response ident flags counts questions answers rest =
     ident @ be16 flags @ be16 (length questions) @ be16 (length answers) @ counts
       @ concat (map encode_question questions) @ concat (map encode_resource answers) @ rest"

lemma of_char_of_byte [simp]: "n < 256 \<Longrightarrow> of_char (char_of n) = n" for n :: nat
  by simp

lemma length_be16 [simp]: "length (be16 n) = 2"
  by (simp add: be16_def)

lemma be16_at_encoded: "n < 65536 \<Longrightarrow> be16_at (pre @ be16 n @ post) (length pre) = n"
  by (simp add: be16_at_def byte_at_def be16_def nth_append)

lemma be16_at_here: "n < 65536 \<Longrightarrow> i = length pre \<Longrightarrow> p = pre @ be16 n @ post \<Longrightarrow> be16_at p i = n"
  by (simp add: be16_at_encoded)

text \<open>Every name of a message is skipped, given the first question.\<close>

definition names_resolve :: "bytes \<Rightarrow> bool" where
  "names_resolve p \<longleftrightarrow> (\<forall>pre name post. name_ok name \<longrightarrow> p = pre @ encode_name name @ post \<longrightarrow>
     skip_name p (length pre) = Inr (length pre + length (encode_name name)))"

lemma names_resolveI:
  assumes "length front = 12" and "labels_ok target" and q: "p = front @ encode_labels target @ CHR 0x00 # others"
  shows "names_resolve p"
  unfolding names_resolve_def
proof (intro allI impI)
  fix pre name post
  assume name: "name_ok name" and p: "p = pre @ encode_name name @ post"
  show "skip_name p (length pre) = Inr (length pre + length (encode_name name))"
  proof (cases name)
    case (Whole ls)
    with name p skip_whole [of ls pre post 0 None] show ?thesis by (simp add: skip_name_def)
  next
    case (Compressed ls)
    with name p have "p = pre @ encode_labels ls @ CHR 0xC0 # CHR 0x0C # post" by simp
    from skip_compressed [OF _ assms(2,1) this q] name Compressed show ?thesis by simp
  qed
qed

lemma skip_questions_encoded:
  assumes "names_resolve p" and "p = pre @ concat (map encode_question qs) @ post" and "list_all question_ok qs"
  shows "skip_questions p (length qs) (length pre) = Inr (length pre + length (concat (map encode_question qs)))"
  using assms
proof (induction qs arbitrary: pre)
  case (Cons q qs)
  let ?name = "encode_name (Whole (fst q))"
  have q: "labels_ok (fst q)" "length (snd q) = 4" using Cons.prems by (simp_all add: question_ok_def)
  have "p = pre @ ?name @ snd q @ concat (map encode_question qs) @ post"
    using Cons.prems by (simp add: encode_question_def [of q])
  then have skip: "skip_name p (length pre) = Inr (length pre + length ?name)"
    using Cons.prems(1) q unfolding names_resolve_def by (metis name_ok.simps(1))
  have rest: "p = (pre @ ?name @ snd q) @ concat (map encode_question qs) @ post"
    using Cons.prems by (simp add: encode_question_def [of q])
  then have "\<not> length p < length pre + length ?name + 4" using q by simp
  then show ?case
    using Cons.IH [OF Cons.prems(1) rest] Cons.prems q skip
    by (simp add: encode_question_def [of q] add.assoc del: encode_name.simps)
qed simp

definition matches_query :: "int \<Rightarrow> resource \<Rightarrow> bool" where
  "matches_query qtype r \<longleftrightarrow> int (rr_type r) = qtype \<and> is_global_address (Packed (rr_data r))"

lemma scan_answers_encoded:
  assumes "names_resolve p" and "p = pre @ concat (map encode_resource rs) @ post" and "list_all resource_ok rs"
  shows "scan_answers p qtype (length rs) (length pre) = Inr (list_ex (matches_query qtype) rs)"
  using assms
proof (induction rs arbitrary: pre)
  case (Cons r rs)
  let ?name = "encode_name (rr_name r)" and ?rest = "concat (map encode_resource rs) @ post"
  have r: "name_ok (rr_name r)" "rr_type r < 65536" "length (rr_middle r) = 6" "length (rr_data r) < 65536"
    using Cons.prems by (simp_all add: resource_ok_def)
  have p: "p = pre @ ?name @ be16 (rr_type r) @ rr_middle r @ be16 (length (rr_data r)) @ rr_data r @ ?rest"
    using Cons.prems by (simp add: encode_resource_def [of r])
  have skip: "skip_name p (length pre) = Inr (length pre + length ?name)"
    using Cons.prems(1) r p unfolding names_resolve_def by metis
  have type: "be16_at p (length pre + length ?name) = rr_type r"
    by (rule be16_at_here [where pre = "pre @ ?name"]) (use r p in simp_all)
  have len: "be16_at p (length pre + length ?name + 8) = length (rr_data r)"
    by (rule be16_at_here [where pre = "pre @ ?name @ be16 (rr_type r) @ rr_middle r"]) (use r p in simp_all)
  have data: "take (length (rr_data r)) (drop (length pre + length ?name + 10) p) = rr_data r"
    using r by (simp add: p)
  have bound: "\<not> length p < length pre + length ?name + 10"
      "\<not> length p < length pre + length ?name + 10 + length (rr_data r)"
    using r by (simp_all add: p)
  let ?pre = "pre @ ?name @ be16 (rr_type r) @ rr_middle r @ be16 (length (rr_data r)) @ rr_data r"
  have next_start: "length ?pre = length pre + length ?name + 10 + length (rr_data r)" using r by simp
  have "p = ?pre @ concat (map encode_resource rs) @ post" using p by simp
  from Cons.IH [OF Cons.prems(1) this] Cons.prems(3)
  have IH: "scan_answers p qtype (length rs) (length pre + length ?name + 10 + length (rr_data r)) =
      Inr (list_ex (matches_query qtype) rs)"
    unfolding next_start by simp
  show ?case
    using skip bound by (simp add: Let_def type len data matches_query_def [of qtype r] public_address_def IH) blast
qed simp

lemma encoded_sections:
  assumes p_def: "p = encode_response ident flags counts questions answers rest"
    and "length ident = 2" and "length counts = 4" and "flags < 65536"
    and "questions \<noteq> []" and "length questions < 65536" and "length answers < 65536"
    and "list_all question_ok questions" and "list_all resource_ok answers"
  shows "12 \<le> length p" and "be16_at p 2 = flags"
    and "bindE (skip_questions p (be16_at p 4) 12) (scan_answers p qtype (be16_at p 6)) =
      Inr (list_ex (matches_query qtype) answers)"
proof -
  define front where "front = ident @ be16 flags @ be16 (length questions) @ be16 (length answers) @ counts"
  have front: "length front = 12" using assms by (simp add: front_def)
  have p: "p = front @ concat (map encode_question questions) @ concat (map encode_resource answers) @ rest"
    by (simp add: p_def encode_response_def front_def)
  obtain q qs where q: "questions = q # qs" using assms(5) by (cases questions) auto
  have resolve: "names_resolve p"
  proof (rule names_resolveI [OF front, of "fst q"])
    show "labels_ok (fst q)" using assms(8) by (simp add: q question_ok_def)
    show "p = front @ encode_labels (fst q) @ CHR 0x00 # (snd q @ concat (map encode_question qs)
        @ concat (map encode_resource answers) @ rest)"
      by (simp add: p q encode_question_def [of q])
  qed
  show "be16_at p 2 = flags"
    by (rule be16_at_here [where pre = ident]) (use assms(2,4) in \<open>simp_all add: p front_def\<close>)
  have question_field: "be16_at p 4 = length questions"
    by (rule be16_at_here [where pre = "ident @ be16 flags"]) (use assms(2,6) in \<open>simp_all add: p front_def\<close>)
  have answer_field: "be16_at p 6 = length answers"
    by (rule be16_at_here [where pre = "ident @ be16 flags @ be16 (length questions)"])
      (use assms(2,7) in \<open>simp_all add: p front_def\<close>)
  show "12 \<le> length p" using front by (simp add: p)
  have "skip_questions p (length questions) 12 = Inr (12 + length (concat (map encode_question questions)))"
    using skip_questions_encoded [OF resolve p] assms(8) front by simp
  moreover have "scan_answers p qtype (length answers) (12 + length (concat (map encode_question questions))) =
      Inr (list_ex (matches_query qtype) answers)"
    using scan_answers_encoded [OF resolve, of "front @ concat (map encode_question questions)" answers rest]
      assms(9) front by (simp add: p)
  ultimately show "bindE (skip_questions p (be16_at p 4) 12) (scan_answers p qtype (be16_at p 6)) =
      Inr (list_ex (matches_query qtype) answers)"
    by (simp add: question_field answer_field)
qed

text \<open>
  C33.  A well-formed response is given the verdict of its answer section: \<^verbatim>\<open>answered\<close> exactly when
  one of its records has the queried type and a global address, \<^verbatim>\<open>no_answer\<close> otherwise.  Names may
  be compressed; the authority and additional sections (\<open>rest\<close>) never count.
\<close>

theorem response_verdict:
  assumes "length ident = 2" and "length counts = 4" and "flags < 65536"
    and "flags AND FLAGS_RESPONSE \<noteq> 0" and "flags AND 0x0F = RCODE_NOERROR"
    and "questions \<noteq> []" and "length questions < 65536" and "length answers < 65536"
    and "list_all question_ok questions" and "list_all resource_ok answers"
  shows "parse_response (encode_response ident flags counts questions answers rest) qtype =
     (if list_ex (matches_query qtype) answers then (True, ''answered'') else (False, ''no_answer''))"
  using encoded_sections(1,2) [OF refl assms(1-3) assms(6-10), where rest = rest]
    encoded_sections(3) [OF refl assms(1-3) assms(6-10), where qtype = qtype and rest = rest] assms(4,5)
  by (simp add: parse_response_def Let_def RCODE_NOERROR_def RCODE_NXDOMAIN_def)

text \<open>A response to a query for \<^verbatim>\<open>a.b\<close>: a compressed answer with a global address, and one more.\<close>

definition demo_response :: bytes where
  "demo_response = encode_response [CHR 0x00, CHR 0x00] 0x8180 [CHR 0x00, CHR 0x00, CHR 0x00, CHR 0x00]
     [([''a'', ''b''], be16 1 @ be16 1)]
     [\<lparr>rr_name = Compressed [], rr_type = 5, rr_middle = be16 1 @ be16 0 @ be16 60, rr_data = ''x''\<rparr>,
      \<lparr>rr_name = Compressed [''c''], rr_type = 1, rr_middle = be16 1 @ be16 0 @ be16 60,
       rr_data = [CHR 0x5D, CHR 0xB8, CHR 0xD8, CHR 0x22]\<rparr>] []"

lemma demo_global: "is_global_address (Packed [CHR 0x5D, CHR 0xB8, CHR 0xD8, CHR 0x22])"
  by (simp add: global_packed4 bytes_value_def global_v4_def in_ranges_def SPECIAL_V4_def)

theorem response_verdict_witness: "parse_response demo_response TYPE_A = (True, ''answered'')"
  unfolding demo_response_def
  by (subst response_verdict)
    (simp_all add: FLAGS_RESPONSE_def RCODE_NOERROR_def question_ok_def resource_ok_def TYPE_A_def matches_query_def demo_global)

lemma demo_verdict: "parse_response demo_response 1 = (True, ''answered'')"
proof -
  note sections = encoded_sections(1,2) [OF demo_response_def] encoded_sections(3) [OF demo_response_def, where qtype = 1]
  have "list_ex (matches_query 1)
     [\<lparr>rr_name = Compressed [], rr_type = 5, rr_middle = be16 1 @ be16 0 @ be16 60, rr_data = ''x''\<rparr>,
      \<lparr>rr_name = Compressed [''c''], rr_type = 1, rr_middle = be16 1 @ be16 0 @ be16 60,
       rr_data = [CHR 0x5D, CHR 0xB8, CHR 0xD8, CHR 0x22]\<rparr>]"
    by (simp add: matches_query_def demo_global)
  with sections show ?thesis
    by (simp add: parse_response_def Let_def question_ok_def resource_ok_def FLAGS_RESPONSE_def
      RCODE_NXDOMAIN_def RCODE_NOERROR_def)
qed

section \<open>Arbitrary payloads\<close>

text \<open>A record at an offset: its type, and its data within the message.\<close>

definition record_at :: "bytes \<Rightarrow> nat \<Rightarrow> int \<Rightarrow> bytes \<Rightarrow> bool" where
  "record_at p i rtype d \<longleftrightarrow> 12 < i \<and> i + 10 + length d \<le> length p \<and> int (be16_at p i) = rtype
     \<and> length d = be16_at p (i + 8) \<and> d = take (length d) (drop (i + 10) p)"

lemma scan_answers_sound:
  assumes "scan_answers p qtype n offset = Inr True" and "12 \<le> offset"
  shows "\<exists>i d. record_at p i qtype d \<and> is_global_address (Packed d)"
  using assms
proof (induction n arbitrary: offset)
  case (Suc n)
  then obtain i where skip: "skip_name p offset = Inr i" by (cases "skip_name p offset") auto
  let ?d = "take (be16_at p (i + 8)) (drop (i + 10) p)"
  have i: "12 < i" using skip_name_bounds [OF skip] Suc.prems(2) by simp
  have bound: "i + 10 + be16_at p (i + 8) \<le> length p"
    using Suc.prems(1) skip by (auto simp: Let_def split: if_splits)
  show ?case
  proof (cases "int (be16_at p i) = qtype \<and> public_address ?d")
    case True
    then have "record_at p i qtype ?d" using i bound by (simp add: record_at_def)
    with True show ?thesis by (auto simp: public_address_def)
  next
    case False
    with Suc.prems(1) skip have "scan_answers p qtype n (i + 10 + be16_at p (i + 8)) = Inr True"
      by (auto simp: Let_def split: if_splits)
    from Suc.IH [OF this] i show ?thesis by simp
  qed
qed simp

lemma skip_questions_ge: "skip_questions p n offset = Inr r \<Longrightarrow> offset \<le> r"
proof (induction n arbitrary: offset)
  case (Suc n)
  then obtain i where skip: "skip_name p offset = Inr i" by (cases "skip_name p offset") auto
  with Suc.prems have "skip_questions p n (i + 4) = Inr r" by (auto split: if_splits)
  from Suc.IH [OF this] skip_name_bounds [OF skip] show ?case by simp
qed simp

lemma parse_response_verdicts:
  "snd (parse_response p qtype) \<in> insert ''malformed_response'' ANSWER_CATEGORIES"
  "fst (parse_response p qtype) \<longleftrightarrow> snd (parse_response p qtype) = ''answered''"
  by (auto simp: parse_response_def Let_def ANSWER_CATEGORIES_def split: sum.splits bool.splits)

lemma parse_response_sound:
  assumes "fst (parse_response p qtype)"
  shows "\<exists>i d. record_at p i qtype d \<and> is_global_address (Packed d)"
proof -
  from assms obtain offset where "skip_questions p (be16_at p 4) 12 = Inr offset"
      and "scan_answers p qtype (be16_at p 6) offset = Inr True"
    by (auto simp: parse_response_def Let_def bindE_Inr_iff split: if_splits sum.splits bool.splits)
  with scan_answers_sound skip_questions_ge show ?thesis by blast
qed

lemma transport_category_known: "transport_category f \<in> TRANSPORT_CATEGORIES" "transport_category f \<noteq> ''answered''"
  by (auto simp: transport_category_def os_category_def TRANSPORT_CATEGORIES_def
      split: transport_failure.splits url_reason.splits os_failure.splits)



section \<open>Queries\<close>

lemma label_wire_Inr:
  "label_wire idna label = Inr w \<longleftrightarrow>
     (\<exists>l. (if list_all is_ascii label then Some label else idna label) = Some l \<and> 1 \<le> length l \<and> length l \<le> 63
        \<and> w = char_of (length l) # l)"
  by (auto simp: label_wire_def split: option.splits if_splits)

lemma labels_wire:
  assumes "mapE (label_wire idna) labels = Inr question"
  shows "\<exists>ls. map Some ls = map (\<lambda>l. if list_all is_ascii l then Some l else idna l) labels
     \<and> labels_ok ls \<and> concat question = encode_labels ls"
  using assms
proof (induction labels arbitrary: question)
  case (Cons label labels)
  then obtain w q where w: "label_wire idna label = Inr w" and q: "mapE (label_wire idna) labels = Inr q"
      and question: "question = w # q"
    by (auto split: sum.splits)
  from Cons.IH [OF q] obtain ls where
    ls: "map Some ls = map (\<lambda>l. if list_all is_ascii l then Some l else idna l) labels"
      "labels_ok ls" "concat q = encode_labels ls" by blast
  from w obtain l where l: "(if list_all is_ascii label then Some label else idna label) = Some l"
      "1 \<le> length l" "length l \<le> 63" "w = char_of (length l) # l"
    unfolding label_wire_Inr by blast
  show ?case
    by (rule exI [of _ "l # ls"]) (use l ls question in simp)
qed simp

text \<open>
  A query that is built holds the labels of the host name, each as it is or as the IDNA codec
  gives it and never longer than 63 bytes; the module's own name reader stops exactly before the
  type, which is the one asked for.
\<close>

theorem query_roundtrip:
  assumes "build_query idna hostname qtype = Inr p"
  shows "\<exists>ls. map Some ls = map (\<lambda>l. if list_all is_ascii l then Some l else idna l)
        (split_on CHR ''.'' (rstrip_on CHR ''.'' hostname))
     \<and> labels_ok ls \<and> p = query_header @ encode_labels ls @ CHR 0x00 # be16 (nat qtype) @ be16 1
     \<and> skip_name p 12 = Inr (length p - 4) \<and> int (be16_at p (length p - 4)) = qtype"
proof -
  from assms obtain question where range: "0 \<le> qtype" "qtype < 65536"
      and question: "mapE (label_wire idna) (split_on CHR ''.'' (rstrip_on CHR ''.'' hostname)) = Inr question"
      and p: "p = query_header @ concat question @ CHR 0x00 # be16 (nat qtype) @ be16 1"
    by (auto simp: build_query_def Let_def bindE_Inr_iff split: if_splits)
  from labels_wire [OF question] obtain ls where
    ls: "map Some ls = map (\<lambda>l. if list_all is_ascii l then Some l else idna l)
        (split_on CHR ''.'' (rstrip_on CHR ''.'' hostname))"
      "labels_ok ls" "concat question = encode_labels ls" by blast
  have header: "length query_header = 12" by (simp add: query_header_def)
  have wire: "p = query_header @ encode_labels ls @ CHR 0x00 # be16 (nat qtype) @ be16 1" by (simp add: p ls)
  have end_of_name: "length p - 4 = 12 + length (encode_labels ls) + 1" by (simp add: wire header)
  have "skip_name p 12 = Inr (length p - 4)"
    using skip_whole [OF ls(2), of query_header "be16 (nat qtype) @ be16 1" 0 None] header end_of_name
    by (simp add: skip_name_def wire)
  moreover have "be16_at p (length p - 4) = nat qtype"
    by (rule be16_at_here [where pre = "query_header @ encode_labels ls @ [CHR 0x00]" and post = "be16 1"])
      (use range end_of_name header in \<open>simp_all add: wire\<close>)
  ultimately show ?thesis using ls wire range by auto
qed

theorem query_roundtrip_witness:
  "\<exists>p. build_query Some ''a.b'' 1 = Inr p \<and> skip_name p 12 = Inr (length p - 4)"
proof -
  obtain p where "build_query Some ''a.b'' 1 = Inr p"
    by (simp add: build_query_def rstrip_on_def label_wire_def Let_def)
  with query_roundtrip [OF this] show ?thesis by blast
qed

end
