(* ===== verification/PyUnicode.thy ===== *)
theory PyUnicode
  imports JsonFacts PyText
begin

text \<open>
  Strings as sequences of code points: the methods that look at characters rather than at bytes, and
  the round trip between the two views.
\<close>

definition text_of :: "nat list \<Rightarrow> string" where
  "text_of ps = concat (map utf8_encode ps)"

text \<open>The points of a string; every Python string has them.\<close>

definition points_of :: "string \<Rightarrow> nat list" where
  "points_of s = (case utf8_points s of Some ps \<Rightarrow> ps | None \<Rightarrow> [])"

text \<open>\<^verbatim>\<open>s.strip()\<close>, \<^verbatim>\<open>s.lstrip()\<close> and \<^verbatim>\<open>"".join(s.split())\<close>\<close>

definition py_strip :: "string \<Rightarrow> string" where
  "py_strip s = text_of (strip_points (points_of s))"

definition py_lstrip :: "string \<Rightarrow> string" where
  "py_lstrip s = text_of (dropWhile point_space (points_of s))"

definition without_space :: "string \<Rightarrow> string" where
  "without_space s = text_of (filter (\<lambda>p. \<not> point_space p) (points_of s))"

section \<open>Round trip\<close>

lemma low6_less: "low6 d < 64" if "cont d"
  using that by (auto simp: cont_def low6_def Let_def)

lemma utf8_points_bound: "utf8_points s = Some ps \<Longrightarrow> \<forall>p \<in> set ps. p < 1114112"
proof (induction s arbitrary: ps rule: utf8_points.induct)
  case (2 c s)
  define b where "b = (of_char c :: nat)"
  note unf = utf8_points.simps(2) [of c s, unfolded Let_def, folded b_def]
  note run = "2.prems" [unfolded unf]
  consider "b < 128" | "194 \<le> b" "b < 224" | "224 \<le> b" "b < 240" | "240 \<le> b" "b < 245"
    | "128 \<le> b" "b < 194 \<or> 245 \<le> b" by linarith
  then show ?case
  proof cases
    case 1
    with run obtain ps' where "utf8_points s = Some ps'" "ps = b # ps'" by auto
    with "2.IH"(1) [OF b_def] 1 show ?thesis by simp
  next
    case 2
    with run obtain d s1 where s: "s = d # s1" by (cases s) auto
    with run 2 obtain ps' where d: "cont d" "utf8_points s1 = Some ps'" "ps = ((b - 192) * 64 + low6 d) # ps'"
      by (auto split: if_splits)
    with "2.IH"(2) [OF b_def _ _ s d(1) d(2)] 2 low6_less [OF d(1)] show ?thesis by auto
  next
    case 3
    with run obtain d e s2 where s: "s = d # e # s2"
      by (cases s; cases "tl s") auto
    with run 3 obtain ps' where d: "cont d" "cont e" "utf8_points s2 = Some ps'"
        "ps = ((b - 224) * 4096 + low6 d * 64 + low6 e) # ps'" "2048 \<le> (b - 224) * 4096 + low6 d * 64 + low6 e"
      by (auto split: if_splits)
    with "2.IH"(3) [OF b_def _ _ _ s refl refl conjI [OF d(1) conjI [OF d(2,5)]] d(3)] 3 low6_less [OF d(1)] low6_less [OF d(2)]
    show ?thesis by auto
  next
    case 4
    with run obtain d e f s3 where s: "s = d # e # f # s3"
      by (cases s; cases "tl s"; cases "tl (tl s)") auto
    with run 4 obtain ps' where d: "cont d" "cont e" "cont f" "utf8_points s3 = Some ps'"
        "ps = ((b - 240) * 262144 + low6 d * 4096 + low6 e * 64 + low6 f) # ps'"
        "(b - 240) * 262144 + low6 d * 4096 + low6 e * 64 + low6 f \<le> 1114111"
        "65536 \<le> (b - 240) * 262144 + low6 d * 4096 + low6 e * 64 + low6 f"
      by (auto split: if_splits)
    with "2.IH"(4) [OF b_def _ _ _ _ s refl refl refl conjI [OF d(1) conjI [OF d(2) conjI [OF d(3) conjI [OF d(7,6)]]]] d(4)] 4 show ?thesis by auto
  next
    case 5
    with run show ?thesis by auto
  qed
qed simp

lemma cont_char: "x < 64 \<Longrightarrow> cont (char_of (128 + x :: nat)) \<and> low6 (char_of (128 + x :: nat)) = x"
  by (simp add: cont_def low6_def Let_def)

lemma base64_digits:
  fixes p :: nat
  shows "p div 4096 * 4096 + p div 64 mod 64 * 64 + p mod 64 = p"
    and "p div 262144 * 262144 + p div 4096 mod 64 * 4096 + p div 64 mod 64 * 64 + p mod 64 = p"
proof -
  have "p div 4096 = p div 64 div 64" "p div 262144 = p div 4096 div 64" by (simp_all add: div_mult2_eq [symmetric])
  then show "p div 4096 * 4096 + p div 64 mod 64 * 64 + p mod 64 = p"
    "p div 262144 * 262144 + p div 4096 mod 64 * 4096 + p div 64 mod 64 * 64 + p mod 64 = p"
    using div_mult_mod_eq [of "p div 4096" 64] div_mult_mod_eq [of "p div 64" 64] div_mult_mod_eq [of p 64] by linarith+
qed

lemma of_char_small: "x < 256 \<Longrightarrow> of_char (char_of (x :: nat)) = (x :: nat)"
  by simp

lemma utf8_points_two:
  assumes "2 \<le> x" and "x < 32" and "y < 64"
  shows "utf8_points (char_of (192 + x :: nat) # char_of (128 + y :: nat) # s) = map_option ((#) (x * 64 + y)) (utf8_points s)"
  using assms cont_char [OF assms(3)] of_char_small [of "192 + x"] by (simp add: Let_def del: of_char_of)

lemma utf8_points_three:
  assumes "x < 16" and "y < 64" and "z < 64" and "2048 \<le> x * 4096 + y * 64 + z"
  shows "utf8_points (char_of (224 + x :: nat) # char_of (128 + y :: nat) # char_of (128 + z :: nat) # s) =
    map_option ((#) (x * 4096 + y * 64 + z)) (utf8_points s)"
  using assms cont_char [OF assms(2)] cont_char [OF assms(3)] of_char_small [of "224 + x"]
  by (simp add: Let_def del: of_char_of)

lemma utf8_points_four:
  assumes "x < 5" and "w < 64" and "y < 64" and "z < 64"
    and "65536 \<le> x * 262144 + w * 4096 + y * 64 + z" and "x * 262144 + w * 4096 + y * 64 + z \<le> 1114111"
  shows "utf8_points (char_of (240 + x :: nat) # char_of (128 + w :: nat) # char_of (128 + y :: nat) # char_of (128 + z :: nat) # s) =
    map_option ((#) (x * 262144 + w * 4096 + y * 64 + z)) (utf8_points s)"
  using assms cont_char [OF assms(2)] cont_char [OF assms(3)] cont_char [OF assms(4)] of_char_small [of "240 + x"]
  by (simp add: Let_def del: of_char_of)

lemma utf8_points_encode:
  assumes "p < 1114112"
  shows "utf8_points (utf8_encode p @ s) = map_option ((#) p) (utf8_points s)"
proof -
  consider "p < 128" | "128 \<le> p" "p < 2048" | "2048 \<le> p" "p < 65536" | "65536 \<le> p" by linarith
  then show ?thesis
  proof cases
    case 1
    then show ?thesis by (simp add: utf8_encode_def)
  next
    case 2
    then have "2 \<le> p div 64" "p div 64 < 32" by linarith+
    from utf8_points_two [OF this, of "p mod 64" s] 2 show ?thesis by (simp add: utf8_encode_def del: utf8_points.simps)
  next
    case 3
    then have "p div 4096 < 16" by linarith
    from utf8_points_three [OF this, of "p div 64 mod 64" "p mod 64" s, unfolded base64_digits] 3
    show ?thesis by (simp add: utf8_encode_def del: utf8_points.simps)
  next
    case 4
    from assms have "p div 262144 < 5" by linarith
    from utf8_points_four [OF this, of "p div 4096 mod 64" "p div 64 mod 64" "p mod 64" s, unfolded base64_digits] 4 assms
    show ?thesis by (simp add: utf8_encode_def del: utf8_points.simps)
  qed
qed

lemma utf8_points_text: "\<forall>p \<in> set ps. p < 1114112 \<Longrightarrow> utf8_points (text_of ps) = Some ps"
  by (induction ps) (simp_all add: text_of_def utf8_points_encode)

lemma points_bound: "p \<in> set (points_of s) \<Longrightarrow> p < 1114112"
  by (cases "utf8_points s") (use utf8_points_bound in \<open>auto simp: points_of_def\<close>)

lemma points_of_text: "\<forall>p \<in> set ps. p < 1114112 \<Longrightarrow> points_of (text_of ps) = ps"
  by (simp add: points_of_def utf8_points_text)

section \<open>Stripping\<close>

lemma set_strip_points: "set (strip_points ps) \<subseteq> set ps"
  by (auto simp: strip_points_def dest!: set_dropWhileD)

lemma dropWhile_idem [simp]: "dropWhile P (dropWhile P xs) = dropWhile P xs"
  by (induction xs) simp_all

lemma strip_points_ends:
  "strip_points ps = [] \<or> (\<not> point_space (hd (strip_points ps)) \<and> \<not> point_space (last (strip_points ps)))"
proof (cases "strip_points ps")
  case (Cons q qs)
  define xs where "xs = dropWhile point_space ps"
  have strip: "strip_points ps = rev (dropWhile point_space (rev xs))" by (simp add: strip_points_def xs_def)
  have "\<not> point_space (hd (dropWhile point_space (rev xs)))"
    using Cons strip by (metis hd_dropWhile list.distinct(1) rev.simps(1))
  moreover have "\<exists>zs. xs = strip_points ps @ zs"
    by (metis strip rev_append rev_rev_ident takeWhile_dropWhile_id)
  then have "hd (strip_points ps) = hd xs" using Cons by auto
  moreover have "xs \<noteq> []" using strip Cons by auto
  then have "\<not> point_space (hd xs)" using hd_dropWhile xs_def by metis
  ultimately show ?thesis using Cons strip by (metis last_rev list.distinct(1) rev.simps(1))
qed simp

lemma strip_points_idem [simp]: "strip_points (strip_points ps) = strip_points ps"
proof (cases "strip_points ps")
  case (Cons q qs)
  with strip_points_ends [of ps] have "\<not> point_space (hd (q # qs))" "\<not> point_space (hd (rev (q # qs)))"
    unfolding hd_rev by (simp_all del: last.simps)
  then have "dropWhile point_space (q # qs) = q # qs" "dropWhile point_space (rev (q # qs)) = rev (q # qs)"
    by (simp, metis dropWhile_eq_self_iff)
  then show ?thesis unfolding Cons by (simp only: strip_points_def rev_rev_ident)
qed (simp only:, simp add: strip_points_def)

lemma points_py_strip: "points_of (py_strip s) = strip_points (points_of s)"
  unfolding py_strip_def by (rule points_of_text) (use set_strip_points points_bound in blast)

lemma py_strip_idem [simp]: "py_strip (py_strip s) = py_strip s"
  by (metis points_py_strip strip_points_idem py_strip_def)

lemma py_strip_length: "length (points_of (py_strip s)) \<le> length (points_of s)"
proof -
  have "length (strip_points ps) \<le> length ps" for ps
    using length_dropWhile_le [of point_space "rev (dropWhile point_space ps)"] length_dropWhile_le [of point_space ps]
    by (simp add: strip_points_def)
  then show ?thesis by (simp add: points_py_strip)
qed

section \<open>ASCII texts\<close>

lemma points_of_ascii: "ascii_text s \<Longrightarrow> points_of s = map of_char s"
  by (simp add: points_of_def utf8_points_ascii)

lemma text_of_ascii: "ascii_text s \<Longrightarrow> text_of (map of_char s) = s"
  by (induction s) (simp_all add: text_of_def utf8_encode_char)

lemma point_space_ascii: "is_ascii c \<Longrightarrow> point_space (of_char c) = is_space c"
  by (auto simp: point_space_def is_space_def is_ascii_def Let_def)

lemma strip_points_id:
  assumes "ps \<noteq> [] \<Longrightarrow> \<not> point_space (hd ps) \<and> \<not> point_space (last ps)"
  shows "strip_points ps = ps"
proof (cases ps)
  case (Cons q qs)
  with assms have "dropWhile point_space ps = ps" by simp
  moreover have "dropWhile point_space (rev ps) = rev ps"
    unfolding dropWhile_eq_self_iff hd_rev using assms by blast
  ultimately show ?thesis by (simp add: strip_points_def)
qed (simp add: strip_points_def)

lemma py_strip_ascii:
  assumes "ascii_text s" and "s \<noteq> [] \<Longrightarrow> \<not> is_space (hd s) \<and> \<not> is_space (last s)"
  shows "py_strip s = s"
proof -
  have "is_ascii c" if "c \<in> set s" for c using assms(1) that by (auto simp: list_all_iff)
  then have "strip_points (map of_char s) = map of_char s"
    using assms(2) by (intro strip_points_id) (auto simp: hd_map last_map point_space_ascii)
  then show ?thesis using assms(1) by (simp add: py_strip_def points_of_ascii text_of_ascii)
qed

lemma py_strip_eq: "ascii_text s \<Longrightarrow> py_strip s = strip s"
proof -
  assume s: "ascii_text s"
  have drop: "dropWhile point_space (map of_char t) = map of_char (dropWhile is_space t)" if "ascii_text t" for t
    using that by (induction t) (simp_all add: point_space_ascii)
  have rest: "ascii_text (rev (dropWhile is_space s))"
    using s set_dropWhileD by (fastforce simp: list_all_iff)
  have "ascii_text (strip s)"
    using rest set_dropWhileD by (fastforce simp: strip_def list_all_iff)
  moreover have "strip_points (map of_char s) = map of_char (strip s)"
    using drop [OF s] drop [OF rest] by (simp add: strip_points_def strip_def rev_map)
  ultimately show ?thesis using s by (simp add: py_strip_def points_of_ascii text_of_ascii)
qed

end
