(* ===== verification/Models.thy ===== *)
theory Models
  imports SourceIdentity ReleaseIdentity PyUnicode
begin

text \<open>
  The records of \<^verbatim>\<open>models.py\<close> that pass between the stages, and the runtime name of a node.  A
  \<^verbatim>\<open>frozenset\<close> is a set; a node's proxy is a decoded mapping.
\<close>

record subscription_spec =
  spec_id :: string
  spec_display_name :: string
  spec_enabled :: bool
  spec_required :: bool
  spec_secret_name :: string
  spec_ingest_order :: int
  spec_on_error :: string
  spec_allowed_uses :: "string set"
  spec_allowed_countries :: "string set"
  spec_default_capabilities :: "string set"
  spec_default_cost_level :: string
  spec_client_profile :: string
  spec_max_node_multiplier :: "pyfloat option"
  spec_deny_name_patterns :: "string list"
  spec_node_metadata :: "json dict dict"
  spec_name_rules :: "json dict list"

record node_occurrence =
  source_id :: string
  source_display_name :: string
  source_ingest_order :: int
  source_allowed_uses :: "string set"
  source_allowed_countries :: "string set"
  original_name :: string
  country :: string
  capabilities :: "string set"
  cost_level :: string

record node = node_occurrence +
  proxy :: "json dict"
  node_fingerprint :: string
  occurrences :: "node_occurrence list"

section \<open>Runtime names\<close>

text \<open>
  The shortened original name: newlines become blanks, white space is stripped at the ends, and 96
  characters are kept.
\<close>

definition point_blank :: "nat \<Rightarrow> nat" where
  "point_blank p = (if p = 10 \<or> p = 13 then 32 else p)"

definition short_name :: "string \<Rightarrow> string" where
  "short_name s = (case utf8_points s of
     Some ps \<Rightarrow> concat (map utf8_encode (take 96 (strip_points (map point_blank ps)))) | None \<Rightarrow> s)"

text \<open>\<open>sha\<close> is the hexadecimal digest.\<close>

definition runtime_proxy_name :: "(bytes \<Rightarrow> string) \<Rightarrow> node \<Rightarrow> string \<Rightarrow> label_error + string" where
  "runtime_proxy_name sha n scope =
     (let digest = take 10 (sha (scope @ CHR 0x00 # source_id n @ CHR 0x00 # node_fingerprint n)) in
      bindE (runtime_source_label (source_id n)) (\<lambda>label.
        Inr (CHR ''['' # scope @ ''] '' @ label @ ''/'' @ short_name (original_name n) @ '' #'' @ digest)))"

section \<open>Labels\<close>

lemma source_charI: "is_lower c \<Longrightarrow> source_char c" "is_digit c \<Longrightarrow> source_char c" "source_char CHR ''_''"
  by (simp_all add: source_char_def)

lemma valid_source_chars: "valid_source_id s \<Longrightarrow> list_all source_char s"
  by (cases s) (auto simp: valid_source_id_def source_charI)

lemma label_valid: "runtime_source_label s = Inr l \<Longrightarrow> valid_source_id l"
  by (auto simp: runtime_source_label_def long_source_number_def Let_def valid_source_id_def LONG_SOURCE_PREFIX_def
      is_lower_def char_le_iff list_all_iff source_char_def split: if_splits list.splits)

definition labels_map :: "string dict \<Rightarrow> string list \<Rightarrow> bool" where
  "labels_map m ids \<longleftrightarrow> (\<forall>i \<in> set ids. \<exists>l. runtime_source_label i = Inr l \<and> map_of m l = Some i)"

lemma add_label_keeps:
  assumes "add_label i m = Inr m'"
  shows "map_of m l = Some v \<Longrightarrow> map_of m' l = Some v"
    and "\<exists>l. runtime_source_label i = Inr l \<and> map_of m' l = Some i"
proof -
  from assms obtain a where a: "runtime_source_label i = Inr a" by (auto simp: add_label_def bindE_Inr_iff)
  with assms have m': "m' = dict_set a i m" and old: "map_of m a = None \<or> map_of m a = Some i"
    by (cases "map_of m a"; auto simp: add_label_def split: if_splits)+
  show "map_of m l = Some v \<Longrightarrow> map_of m' l = Some v" using old by (auto simp: m')
  show "\<exists>l. runtime_source_label i = Inr l \<and> map_of m' l = Some i" using a by (auto simp: m')
qed

lemma foldE_add_label:
  assumes "foldE add_label ids m = Inr m'"
  shows "(map_of m l = Some v \<longrightarrow> map_of m' l = Some v) \<and> labels_map m' ids"
  using assms
proof (induction ids arbitrary: m)
  case (Cons i ids)
  then obtain m1 where m1: "add_label i m = Inr m1" "foldE add_label ids m1 = Inr m'" by (auto split: sum.splits)
  have keep: "map_of m1 l = Some v \<longrightarrow> map_of m' l = Some v" for l v
    using m1(2)
  proof (induction ids arbitrary: m1)
    case (Cons j ids)
    then obtain m2 where "add_label j m1 = Inr m2" "foldE add_label ids m2 = Inr m'" by (auto split: sum.splits)
    with Cons.IH [of m2] add_label_keeps(1) [of j m1 m2] show ?case by blast
  qed simp
  from Cons.IH [OF m1(2)] keep add_label_keeps [OF m1(1)] show ?case by (auto simp: labels_map_def)
qed (simp add: labels_map_def)

lemma canonical_label:
  assumes "validate_runtime_source_labels known = Inr m" and "i \<in> set known"
  shows "\<exists>l. runtime_source_label i = Inr l \<and> canonical_source_id l known = Inr i"
proof -
  have "labels_map m (sorted_set known)"
    using assms(1) foldE_add_label unfolding validate_runtime_source_labels_def by blast
  then obtain l where "runtime_source_label i = Inr l" "map_of m l = Some i"
    using assms(2) by (auto simp: labels_map_def)
  with label_valid assms(1) show ?thesis by (auto simp: canonical_source_id_def)
qed

section \<open>A runtime name gives back its source\<close>

lemma newline_byte: "char_of n = CHR 0x0A \<longleftrightarrow> n mod 256 = (10 :: nat)"
  by (simp add: char_of_eq_iff take_bit_eq_mod)

lemma utf8_encode_newline: "p < 1114112 \<Longrightarrow> p \<noteq> 10 \<Longrightarrow> CHR 0x0A \<notin> set (utf8_encode p)"
proof -
  assume p: "p < 1114112" "p \<noteq> 10"
  then have "char_of p \<noteq> CHR 0x0A" if "p < 128" using that newline_byte [of p] by simp
  moreover have "char_of (128 + q mod 64) \<noteq> CHR 0x0A" for q :: nat
    using newline_byte [of "128 + q mod 64"] by simp
  moreover have "char_of (192 + p div 64) \<noteq> CHR 0x0A" if "p < 2048"
    using that newline_byte [of "192 + p div 64"] by simp
  moreover have "char_of (224 + p div 4096) \<noteq> CHR 0x0A" if "p < 65536"
    using that newline_byte [of "224 + p div 4096"] by simp
  moreover have "char_of (240 + p div 262144) \<noteq> CHR 0x0A"
    using p newline_byte [of "240 + p div 262144"] by simp
  ultimately show ?thesis by (simp add: utf8_encode_def) metis
qed

lemma short_name_newline:
  assumes "utf8_points s = Some ps"
  shows "CHR 0x0A \<notin> set (short_name s)"
proof -
  have "p < 1114112 \<and> p \<noteq> 10" if "p \<in> set (take 96 (strip_points (map point_blank ps)))" for p
  proof -
    have "p \<in> set (map point_blank ps)"
      using that set_take_subset set_strip_points by (metis subsetD)
    then show ?thesis using utf8_points_bound [OF assms] by (auto simp: point_blank_def)
  qed
  then show ?thesis using utf8_encode_newline by (auto simp: short_name_def assms)
qed

lemma digest_tailI:
  assumes "s \<noteq> []" and "CHR 0x0A \<notin> set s" and "length d = 10" and "list_all is_lower_hex d"
  shows "digest_tail (s @ '' #'' @ d)"
  using assms by (simp add: digest_tail_def Let_def)

text \<open>A scope token, as the generator forms it.\<close>

definition is_scope :: "string \<Rightarrow> bool" where
  "is_scope s = (case s of [] \<Rightarrow> False | c # t \<Rightarrow> is_upper c \<and> list_all scope_char t)"

lemma class_bounds:
  "\<not> scope_char CHR '']''" "\<not> source_char CHR ''/''"
  by (simp_all add: scope_char_def source_char_def is_upper_def is_lower_def is_digit_def char_le_iff)

lemma parse_built_name:
  assumes "is_scope scope" and "valid_source_id label" and "name_tail t"
  shows "parse_runtime_source_name (CHR ''['' # scope @ '']'' @ '' '' @ label @ ''/'' @ t) = Some label"
proof -
  obtain c u where scope: "scope = c # u" "is_upper c" "list_all scope_char u"
    using assms(1) by (auto simp: is_scope_def split: list.splits)
  have "dropWhile scope_char (u @ '']'' @ '' '' @ label @ ''/'' @ t) = '']'' @ '' '' @ label @ ''/'' @ t"
    using scope(3) class_bounds by (simp add: dropWhile_append list_all_iff)
  moreover have "takeWhile source_char (label @ ''/'' @ t) = label" "dropWhile source_char (label @ ''/'' @ t) = ''/'' @ t"
    using valid_source_chars [OF assms(2)] class_bounds by (simp_all add: takeWhile_append dropWhile_append list_all_iff)
  ultimately show ?thesis using assms scope class_bounds by (simp add: parse_runtime_source_name_def Let_def)
qed

text \<open>
  C36.  A runtime name the generator builds identifies its source: the reader finds the label in it,
  and the label leads back to the subscription, provided the known labels are unambiguous and the
  shortened name is not empty.
\<close>

theorem runtime_name_identifies_source:
  assumes "runtime_proxy_name sha n scope = Inr name"
    and "is_scope scope" and "digest sha"
    and "utf8_points (original_name n) \<noteq> None" and "short_name (original_name n) \<noteq> []"
    and "validate_runtime_source_labels known = Inr m" and "source_id n \<in> set known"
  shows "\<exists>label. parse_runtime_source_name name = Some label \<and> canonical_source_id label known = Inr (source_id n)"
proof -
  let ?d = "take 10 (sha (scope @ CHR 0x00 # source_id n @ CHR 0x00 # node_fingerprint n))"
  obtain label where label: "runtime_source_label (source_id n) = Inr label"
      "canonical_source_id label known = Inr (source_id n)"
    using canonical_label [OF assms(6,7)] by blast
  with assms(1) have name: "name = CHR ''['' # scope @ '']'' @ '' '' @ label @ ''/'' @ short_name (original_name n) @ '' #'' @ ?d"
    by (simp add: runtime_proxy_name_def Let_def)
  have "length ?d = 10" "list_all is_lower_hex ?d"
    using digest.sha_id [OF assms(3)] by (auto simp: is_release_id_def list_all_iff dest: in_set_takeD)
  moreover obtain ps where "utf8_points (original_name n) = Some ps" using assms(4) by auto
  ultimately have "digest_tail (short_name (original_name n) @ '' #'' @ ?d)"
    by (intro digest_tailI assms(5) short_name_newline)
  then have "name_tail (short_name (original_name n) @ '' #'' @ ?d)" by (simp add: name_tail_def)
  from parse_built_name [OF assms(2) label_valid [OF label(1)] this] label(2) name show ?thesis by auto
qed

text \<open>A node of the first numbered subscription, with a digest of one letter.\<close>

definition plain_sha :: "bytes \<Rightarrow> string" where
  "plain_sha content = replicate 64 CHR ''a''"

definition demo_node :: node where
  "demo_node = \<lparr>source_id = ''subscription_1'', source_display_name = ''first'', source_ingest_order = 1,
     source_allowed_uses = {''ai''}, source_allowed_countries = {''*''}, original_name = '' JP 01 '',
     country = ''JP'', capabilities = {}, cost_level = ''low'', proxy = [], node_fingerprint = ''f'', occurrences = []\<rparr>"

interpretation plain: digest plain_sha
  by unfold_locales (simp add: plain_sha_def is_release_id_def list_all_iff is_lower_hex_def char_le_iff)

lemma demo_short_name: "short_name '' JP 01 '' = ''JP 01''"
  by code_simp

theorem runtime_name_identifies_source_witness:
  "\<exists>name. runtime_proxy_name plain_sha demo_node ''AI'' = Inr name \<and> parse_runtime_source_name name = Some ''sub_1''"
proof -
  have label: "runtime_source_label ''subscription_1'' = Inr ''sub_1''" by code_simp
  then obtain name where name: "runtime_proxy_name plain_sha demo_node ''AI'' = Inr name"
    by (simp add: runtime_proxy_name_def demo_node_def)
  have known: "validate_runtime_source_labels [''subscription_1''] = Inr [(''sub_1'', ''subscription_1'')]"
    by code_simp
  have other: "canonical_source_id l [''subscription_1''] = Inr ''subscription_1'' \<Longrightarrow> l = ''sub_1''" for l
    by (auto simp: canonical_source_id_def known split: if_splits)
  have "is_scope ''AI''" by (simp add: is_scope_def is_upper_def scope_char_def char_le_iff)
  with runtime_name_identifies_source [OF name this plain.digest_axioms _ _ known] demo_short_name other
  show ?thesis using name by (auto simp: demo_node_def)
qed

end
