(* ===== verification/NodeSelection.thy ===== *)
theory NodeSelection
  imports Models "HOL-Library.Product_Lexorder" "HOL-Library.Multiset"
begin

text \<open>
  \<^verbatim>\<open>selector.py\<close>: which nodes a pool takes in a region, from which of their sources, and in which
  order.  A selector document is typed; \<^verbatim>\<open>str.casefold\<close> is a parameter.  A selection never takes a
  source outside its allowed uses and countries, and it does not depend on the order of its input.
\<close>

record pool_selector =
  capabilities_any :: "string set"
  capabilities_all :: "string set"
  excluded_capabilities :: "string set"
  allowed_cost_levels :: "string set"
  selector_source_use :: string

definition occurrences_of :: "node \<Rightarrow> node_occurrence list" where
  "occurrences_of n = (if occurrences n \<noteq> [] then occurrences n else [node_occurrence.truncate n])"

definition source_allows :: "node_occurrence \<Rightarrow> string \<Rightarrow> bool" where
  "source_allows item source_use \<longleftrightarrow> ''*'' \<in> source_allowed_uses item \<or> source_use \<in> source_allowed_uses item"

definition country_allowed_by_source :: "node_occurrence \<Rightarrow> bool" where
  "country_allowed_by_source item \<longleftrightarrow>
     ''*'' \<in> source_allowed_countries item \<or> country item \<in> source_allowed_countries item"

definition eligible_occurrence :: "pool_selector \<Rightarrow> string \<Rightarrow> node_occurrence \<Rightarrow> bool" where
  "eligible_occurrence sel region item =
     (if \<not> source_allows item (selector_source_use sel) \<or> \<not> country_allowed_by_source item then False
      else if region \<noteq> ''ANY'' \<and> country item \<noteq> region then False
      else if capabilities_any sel \<noteq> {} \<and> capabilities_any sel \<inter> capabilities item = {} then False
      else if \<not> capabilities_all sel \<subseteq> capabilities item then False
      else if excluded_capabilities sel \<inter> capabilities item \<noteq> {} then False
      else \<not> (allowed_cost_levels sel \<noteq> {} \<and> cost_level item \<notin> allowed_cost_levels sel))"

definition project_occurrence :: "node \<Rightarrow> node_occurrence \<Rightarrow> node" where
  "project_occurrence n item =
     n\<lparr>source_id := source_id item, source_display_name := source_display_name item,
       source_ingest_order := source_ingest_order item, source_allowed_uses := source_allowed_uses item,
       source_allowed_countries := source_allowed_countries item, original_name := original_name item,
       country := country item, capabilities := capabilities item, cost_level := cost_level item\<rparr>"

definition occurrence_key :: "(string \<Rightarrow> string) \<Rightarrow> node_occurrence \<Rightarrow> int \<times> string \<times> string \<times> string" where
  "occurrence_key casefold item =
     (source_ingest_order item, source_id item, country item, casefold (original_name item))"

definition node_key :: "(string \<Rightarrow> string) \<Rightarrow> node \<Rightarrow> int \<times> string \<times> string \<times> string \<times> string" where
  "node_key casefold n =
     (source_ingest_order n, source_id n, country n, casefold (original_name n), node_fingerprint n)"

text \<open>The first of the least eligible occurrences, as \<^verbatim>\<open>min\<close> gives it.\<close>

definition choose_occurrence ::
  "(string \<Rightarrow> string) \<Rightarrow> pool_selector \<Rightarrow> string \<Rightarrow> node \<Rightarrow> node option" where
  "choose_occurrence casefold sel region n =
     (let eligible = filter (eligible_occurrence sel region) (occurrences_of n) in
      if eligible = [] then None
      else Some (project_occurrence n (arg_min_list (occurrence_key casefold) eligible)))"

definition select_nodes :: "(string \<Rightarrow> string) \<Rightarrow> node list \<Rightarrow> pool_selector \<Rightarrow> string \<Rightarrow> node list" where
  "select_nodes casefold nodes sel region =
     sort_key (node_key casefold) (List.map_filter (choose_occurrence casefold sel region) nodes)"

section \<open>What a selection contains\<close>

lemma eligible_iff:
  "eligible_occurrence sel region item \<longleftrightarrow>
     source_allows item (selector_source_use sel) \<and> country_allowed_by_source item
     \<and> (region = ''ANY'' \<or> country item = region)
     \<and> (capabilities_any sel = {} \<or> capabilities_any sel \<inter> capabilities item \<noteq> {})
     \<and> capabilities_all sel \<subseteq> capabilities item \<and> excluded_capabilities sel \<inter> capabilities item = {}
     \<and> (allowed_cost_levels sel = {} \<or> cost_level item \<in> allowed_cost_levels sel)"
  by (auto simp: eligible_occurrence_def)

lemma arg_min_list_in: "xs \<noteq> [] \<Longrightarrow> arg_min_list f xs \<in> set xs"
  by (induction f xs rule: arg_min_list.induct) (auto simp: Let_def)

lemma choose_occurrence_None:
  "choose_occurrence casefold sel region n = None \<longleftrightarrow>
     \<not> (\<exists>item \<in> set (occurrences_of n). eligible_occurrence sel region item)"
  by (auto simp: choose_occurrence_def Let_def filter_empty_conv)

lemma mset_map_filter: "mset (List.map_filter f xs) = image_mset the (filter_mset (\<lambda>x. x \<noteq> None) (image_mset f (mset xs)))"
  by (induction xs) (auto simp: List.map_filter_simps split: option.splits)

lemma sort_key_unique:
  fixes f :: "'a \<Rightarrow> 'b::linorder"
  assumes "mset xs = mset ys" and "inj_on f (set xs)"
  shows "sort_key f xs = sort_key f ys"
proof (rule properties_for_sort_key)
  show "mset (sort_key f ys) = mset xs" using assms(1) by simp
  show "sorted (map f (sort_key f ys))" by simp
  fix k assume k: "k \<in> set (sort_key f ys)"
  then have kx: "k \<in> set xs" using assms(1) by (metis mset_eq_setD set_sort)
  have *: "filter (\<lambda>x. f k = f x) zs = replicate (count (mset zs) k) k" if "set zs = set xs" for zs
  proof -
    have "filter (\<lambda>x. f k = f x) zs = filter ((=) k) zs"
      using assms(2) kx that by (intro filter_cong) (auto dest: inj_onD)
    also have "\<dots> = replicate (count (mset zs) k) k"
      by (simp add: replicate_count_mset_eq_filter_eq)
    finally show ?thesis .
  qed
  have "set (sort_key f ys) = set xs" using assms(1) by (metis mset_eq_setD set_sort)
  with * [of "sort_key f ys"] * [of xs] assms(1) show "filter (\<lambda>x. f k = f x) (sort_key f ys) = filter (\<lambda>x. f k = f x) xs"
    by simp
qed

lemma set_map_filter: "set (List.map_filter f xs) = {y. \<exists>x \<in> set xs. f x = Some y}"
  by (induction xs) (auto simp: List.map_filter_simps split: option.splits)

lemma length_map_filter: "length (List.map_filter f xs) = length (filter (\<lambda>x. f x \<noteq> None) xs)"
  by (induction xs) (auto simp: List.map_filter_simps)

lemma choose_occurrence_iff:
  "choose_occurrence casefold sel region n = Some m \<longleftrightarrow>
     (\<exists>item \<in> set (occurrences_of n). eligible_occurrence sel region item
        \<and> item = arg_min_list (occurrence_key casefold) (filter (eligible_occurrence sel region) (occurrences_of n))
        \<and> m = project_occurrence n item)"
proof -
  let ?e = "filter (eligible_occurrence sel region) (occurrences_of n)"
  have "?e \<noteq> [] \<Longrightarrow> arg_min_list (occurrence_key casefold) ?e \<in> set ?e" by (rule arg_min_list_in)
  then show ?thesis by (auto simp: choose_occurrence_def Let_def filter_empty_conv)
qed

text \<open>The result does not depend on the order of the nodes, where no two selected ones have one key.\<close>

theorem selection_order_irrelevant:
  assumes "mset nodes' = mset nodes"
    and "inj_on (node_key casefold) (set (List.map_filter (choose_occurrence casefold sel region) nodes))"
  shows "select_nodes casefold nodes' sel region = select_nodes casefold nodes sel region"
  unfolding select_nodes_def
  by (rule sort_key_unique [symmetric]) (use assms in \<open>simp_all add: mset_map_filter\<close>)

text \<open>
  C35.  A pool takes exactly the nodes with an eligible occurrence, each projected on the first of
  its least eligible occurrences, as often as it is given and in the order of the keys; eligible
  means that the source allows the pool's use and the country, that the region fits, and that the
  capabilities and the cost level meet the declared sets.
\<close>

theorem selection_exact:
  "(m \<in> set (select_nodes casefold nodes sel region) \<longleftrightarrow>
      (\<exists>n \<in> set nodes. \<exists>item \<in> set (occurrences_of n).
         item = arg_min_list (occurrence_key casefold) (filter (eligible_occurrence sel region) (occurrences_of n))
         \<and> m = project_occurrence n item
         \<and> source_allows item (selector_source_use sel) \<and> country_allowed_by_source item
         \<and> region \<in> {''ANY'', country item}
         \<and> (capabilities_any sel = {} \<or> (\<exists>c \<in> capabilities_any sel. c \<in> capabilities item))
         \<and> capabilities_all sel \<subseteq> capabilities item \<and> excluded_capabilities sel \<inter> capabilities item = {}
         \<and> (allowed_cost_levels sel = {} \<or> cost_level item \<in> allowed_cost_levels sel)))
   \<and> length (select_nodes casefold nodes sel region) =
      length (filter (\<lambda>n. \<exists>item \<in> set (occurrences_of n). eligible_occurrence sel region item) nodes)
   \<and> sorted (map (node_key casefold) (select_nodes casefold nodes sel region))"
proof (intro conjI)
  show "m \<in> set (select_nodes casefold nodes sel region) \<longleftrightarrow>
      (\<exists>n \<in> set nodes. \<exists>item \<in> set (occurrences_of n).
         item = arg_min_list (occurrence_key casefold) (filter (eligible_occurrence sel region) (occurrences_of n))
         \<and> m = project_occurrence n item
         \<and> source_allows item (selector_source_use sel) \<and> country_allowed_by_source item
         \<and> region \<in> {''ANY'', country item}
         \<and> (capabilities_any sel = {} \<or> (\<exists>c \<in> capabilities_any sel. c \<in> capabilities item))
         \<and> capabilities_all sel \<subseteq> capabilities item \<and> excluded_capabilities sel \<inter> capabilities item = {}
         \<and> (allowed_cost_levels sel = {} \<or> cost_level item \<in> allowed_cost_levels sel))"
    unfolding select_nodes_def set_sort set_map_filter mem_Collect_eq choose_occurrence_iff eligible_iff
    by (intro bex_cong refl) (auto simp: disjoint_iff)
  have "(choose_occurrence casefold sel region n \<noteq> None) =
      (\<exists>item \<in> set (occurrences_of n). eligible_occurrence sel region item)" for n
    using choose_occurrence_None [of casefold sel region n] by simp
  then show "length (select_nodes casefold nodes sel region) =
      length (filter (\<lambda>n. \<exists>item \<in> set (occurrences_of n). eligible_occurrence sel region item) nodes)"
    by (simp add: select_nodes_def length_map_filter)
qed (simp add: select_nodes_def)

end
