(* ===== verification/ReachabilityAudit.thy ===== *)
theory ReachabilityAudit
  imports GraphProperties Models
begin

text \<open>
  The routing audit of \<^verbatim>\<open>production_audit.py\<close>: subscription identity attached to the nodes of a
  generated document, and the check that no declared surface reaches a source outside its allowed
  uses.  Declarations are the typed rows of documents that passed their schema; modules, pools and
  the rule manifest keep the fields the audit reads.
\<close>

record pool =
  pool_id :: string
  pool_display_name :: string
  pool_module :: string
  pool_source_use :: string
  pool_regions :: "string list"

record acl_group =
  ag_display_name :: string
  ag_module :: "string option"
  ag_provider_pool :: "string option"
  ag_source_use :: "string option"

text \<open>A rule source or an inline rule.\<close>

record acl_row =
  ar_id :: string
  ar_target :: string
  ar_module :: "string option"
  ar_source_use :: "string option"

record acl_manifest =
  acl_groups :: "acl_group list"
  acl_sources :: "acl_row list"
  acl_inline_rules :: "acl_row list"
  acl_final_target :: "string option"
  acl_final_source_use :: "string option"

record project =
  pj_subscriptions :: "subscription_spec list"
  pj_pools :: "pool list"
  pj_modules :: "bool dict"
  pj_acl4ssr :: "acl_manifest option"

datatype audit_error =
    ProxyWithoutName string
  | SourceUnrecoverable string
  | AmbiguousSourceLabels
  | MissingProxy string
  | ConflictingSources
  | UnattributedProxies
  | UnknownSource string
  | UseBoundary string string string
  | RulesNotList
  | GraphFailure graph_error
  | ProviderWithoutPayload string
  | MalformedProviderProxy string

definition DEFAULT_SOURCE_USE :: string where "DEFAULT_SOURCE_USE = ''general''"

definition graph_result :: "graph_error + 'a \<Rightarrow> audit_error + 'a" where
  "graph_result r = (case r of Inl e \<Rightarrow> Inl (GraphFailure e) | Inr x \<Rightarrow> Inr x)"

definition module_enabled :: "project \<Rightarrow> string \<Rightarrow> bool" where
  "module_enabled p m \<longleftrightarrow> map_of (pj_modules p) m = Some True"

definition skipped :: "project \<Rightarrow> string option \<Rightarrow> bool" where
  "skipped p m = (case m of None \<Rightarrow> False | Some x \<Rightarrow> \<not> module_enabled p x)"

text \<open>The enabled subscriptions by identifier.\<close>

definition enabled_subscriptions :: "project \<Rightarrow> subscription_spec dict" where
  "enabled_subscriptions p = foldl (\<lambda>d s. dict_set (spec_id s) s d) [] (filter spec_enabled (pj_subscriptions p))"

section \<open>Source identity\<close>

definition runtime_source_id :: "json dict \<Rightarrow> string \<Rightarrow> string list \<Rightarrow> audit_error + string" where
  "runtime_source_id row provider known =
     (case json_get row ''name'' of JStr name \<Rightarrow>
        (case parse_runtime_source_name name of None \<Rightarrow> Inl (SourceUnrecoverable provider)
         | Some label \<Rightarrow> (case canonical_source_id label known of Inl e \<Rightarrow> Inl AmbiguousSourceLabels | Inr i \<Rightarrow> Inr i))
      | _ \<Rightarrow> Inl (ProxyWithoutName provider))"

text \<open>One name of a provider: the sources found so far and the map of runtime names to sources.\<close>

definition attribute_name ::
  "runtime_graph \<Rightarrow> string list \<Rightarrow> string \<Rightarrow> string \<Rightarrow> string list \<times> string dict \<Rightarrow> audit_error + string list \<times> string dict"
where
  "attribute_name g known provider name acc = (case acc of (sources, runtime_sources) \<Rightarrow>
     (case map_of (rg_proxies g) name of None \<Rightarrow> Inl (MissingProxy name)
      | Some row \<Rightarrow> bindE (runtime_source_id row provider known) (\<lambda>i.
          if map_of runtime_sources name \<notin> {None, Some i} then Inl ConflictingSources
          else Inr (add_name i sources, dict_set name i runtime_sources))))"

definition attribute_provider ::
  "runtime_graph \<Rightarrow> string list \<Rightarrow> string \<times> string list \<Rightarrow> string list dict \<times> string dict
    \<Rightarrow> audit_error + string list dict \<times> string dict"
where
  "attribute_provider g known entry acc = (case (entry, acc) of ((provider, names), (provider_sources, runtime_sources)) \<Rightarrow>
     bindE (foldE (attribute_name g known provider) names ([], runtime_sources)) (\<lambda>(sources, runtime_sources).
       Inr (dict_set provider sources provider_sources, runtime_sources)))"

definition runtime_source_maps :: "runtime_graph \<Rightarrow> string list \<Rightarrow> audit_error + string list dict \<times> string dict" where
  "runtime_source_maps g known =
     bindE (foldE (attribute_provider g known) (rg_provider_proxies g) ([], [])) (\<lambda>(provider_sources, runtime_sources).
       if \<not> set (dict_keys (rg_proxies g)) \<subseteq> set (dict_keys runtime_sources) then Inl UnattributedProxies
       else Inr (provider_sources, runtime_sources))"

definition use_allowed :: "subscription_spec \<Rightarrow> string \<Rightarrow> bool" where
  "use_allowed spec use \<longleftrightarrow> ''*'' \<in> spec_allowed_uses spec \<or> use \<in> spec_allowed_uses spec"

definition assert_use_allowed :: "string set \<Rightarrow> string \<Rightarrow> subscription_spec dict \<Rightarrow> string \<Rightarrow> audit_error + unit" where
  "assert_use_allowed source_ids source_use subscriptions surface =
     foldE (\<lambda>i _. (case map_of subscriptions i of None \<Rightarrow> Inl (UnknownSource i)
         | Some spec \<Rightarrow> if use_allowed spec source_use then Inr () else Inl (UseBoundary surface source_use i)))
       (sorted_list_of_set source_ids) ()"

section \<open>Declared uses\<close>

definition enabled_pools :: "project \<Rightarrow> pool list" where
  "enabled_pools p = filter (\<lambda>x. module_enabled p (pool_module x)) (pj_pools p)"

definition pool_uses :: "project \<Rightarrow> string dict" where
  "pool_uses p = foldl (\<lambda>d x. dict_set (pool_id x) (pool_source_use x) d) [] (enabled_pools p)"

definition group_use :: "project \<Rightarrow> acl_group \<Rightarrow> string" where
  "group_use p row =
     (case ag_source_use row of Some u \<Rightarrow> u
      | None \<Rightarrow> (case ag_provider_pool row of
            Some x \<Rightarrow> (case map_of (pool_uses p) x of Some u \<Rightarrow> u | None \<Rightarrow> DEFAULT_SOURCE_USE)
          | None \<Rightarrow> DEFAULT_SOURCE_USE))"

definition expected_group_uses :: "project \<Rightarrow> string dict" where
  "expected_group_uses p =
     (let expected = foldl (\<lambda>d x. dict_set (pool_display_name x) (pool_source_use x) d) [] (enabled_pools p) in
      (case pj_acl4ssr p of None \<Rightarrow> expected
       | Some m \<Rightarrow> foldl (\<lambda>d row. if skipped p (ag_module row) then d
             else dict_set (ag_display_name row) (group_use p row) d) expected (acl_groups m)))"

definition row_use :: "acl_row \<Rightarrow> string" where
  "row_use row = (case ar_source_use row of Some u \<Rightarrow> u | None \<Rightarrow> DEFAULT_SOURCE_USE)"

definition final_use :: "acl_manifest \<Rightarrow> string" where
  "final_use m = (case acl_final_source_use m of Some u \<Rightarrow> u | None \<Rightarrow> DEFAULT_SOURCE_USE)"

section \<open>The audit\<close>

text \<open>\<open>use_counts\<close> is the \<^verbatim>\<open>Counter\<close> of the checks of each use.\<close>

record reach_audit =
  use_counts :: "nat dict"
  groups_checked :: nat
  surfaces_checked :: nat
  rules_checked :: nat

definition count_use :: "string \<Rightarrow> nat dict \<Rightarrow> nat dict" where
  "count_use u d = dict_set u (Suc (case map_of d u of Some n \<Rightarrow> n | None \<Rightarrow> 0)) d"

text \<open>The sources of a surface are within its use; the graph and the source maps are fixed.\<close>

definition check_surface ::
  "runtime_graph \<Rightarrow> subscription_spec dict \<Rightarrow> string list dict \<times> string dict \<Rightarrow> string \<Rightarrow> string \<Rightarrow> string \<Rightarrow> audit_error + unit"
where
  "check_surface g subs maps surface target use =
     bindE (graph_result (reachable_sources g target (snd maps) (Some (fst maps)) True)) (\<lambda>sources.
       assert_use_allowed sources use subs surface)"

definition audit_group ::
  "(string \<Rightarrow> string \<Rightarrow> string \<Rightarrow> audit_error + unit) \<Rightarrow> runtime_graph \<Rightarrow> string \<times> string \<Rightarrow> reach_audit
    \<Rightarrow> audit_error + reach_audit" where
  "audit_group check g entry s = (case entry of (name, use) \<Rightarrow>
     if \<not> is_group g name then Inr s
     else bindE (check (''group:'' @ name) name use) (\<lambda>_.
       Inr (s\<lparr>use_counts := count_use use (use_counts s), groups_checked := Suc (groups_checked s)\<rparr>)))"

definition audit_row ::
  "(string \<Rightarrow> string \<Rightarrow> string \<Rightarrow> audit_error + unit) \<Rightarrow> project \<Rightarrow> string \<Rightarrow> acl_row \<Rightarrow> reach_audit
    \<Rightarrow> audit_error + reach_audit" where
  "audit_row check p kind row s =
     (if skipped p (ar_module row) then Inr s
      else bindE (check (kind @ ar_id row) (ar_target row) (row_use row)) (\<lambda>_.
        Inr (s\<lparr>use_counts := count_use (row_use row) (use_counts s), surfaces_checked := Suc (surfaces_checked s)\<rparr>)))"

definition audit_final ::
  "(string \<Rightarrow> string \<Rightarrow> string \<Rightarrow> audit_error + unit) \<Rightarrow> acl_manifest \<Rightarrow> reach_audit \<Rightarrow> audit_error + reach_audit"
where
  "audit_final check m s = (case acl_final_target m of None \<Rightarrow> Inr s
     | Some target \<Rightarrow> bindE (check ''final-target'' target (final_use m)) (\<lambda>_.
        Inr (s\<lparr>use_counts := count_use (final_use m) (use_counts s), surfaces_checked := Suc (surfaces_checked s)\<rparr>)))"

text \<open>The uses declared for the rule providers.\<close>

definition uses_by_provider :: "project \<Rightarrow> acl_manifest \<Rightarrow> string dict" where
  "uses_by_provider p m =
     foldl (\<lambda>d row. if skipped p (ar_module row) then d else dict_set (''acl4ssr_'' @ ar_id row) (row_use row) d)
       [] (acl_sources m)"

text \<open>The target and the use of an emitted rule, when the audit knows one.\<close>

definition rule_surface :: "string dict \<Rightarrow> string \<Rightarrow> string \<Rightarrow> (string \<times> string) option" where
  "rule_surface by_provider last_use rule =
     (let parts = split_on CHR '','' rule in
      if 3 \<le> length parts \<and> parts ! 0 = ''RULE-SET'' then
        (case map_of by_provider (parts ! 1) of Some use \<Rightarrow> Some (parts ! 2, use)
         | None \<Rightarrow> if take 12 (parts ! 1) = ''cr_ai_rules_'' then Some (parts ! 2, ''ai'') else None)
      else if 2 \<le> length parts \<and> parts ! 0 = ''MATCH'' then Some (parts ! 1, last_use)
      else None)"

definition audit_rule ::
  "(string \<Rightarrow> string \<Rightarrow> string \<Rightarrow> audit_error + unit) \<Rightarrow> string dict \<Rightarrow> string \<Rightarrow> json \<Rightarrow> reach_audit
    \<Rightarrow> audit_error + reach_audit" where
  "audit_rule check by_provider last_use raw s = (case raw of
     JStr rule \<Rightarrow> (case rule_surface by_provider last_use rule of None \<Rightarrow> Inr s
       | Some (target, use) \<Rightarrow>
           bindE (check (''runtime-rule:'' @ split_on CHR '','' rule ! 0 @ '':'' @ split_on CHR '','' rule ! 1) target use) (\<lambda>_.
             Inr (s\<lparr>rules_checked := Suc (rules_checked s)\<rparr>)))
   | _ \<Rightarrow> Inr s)"

definition audit_manifest ::
  "(string \<Rightarrow> string \<Rightarrow> string \<Rightarrow> audit_error + unit) \<Rightarrow> project \<Rightarrow> acl_manifest \<Rightarrow> json dict \<Rightarrow> reach_audit
    \<Rightarrow> audit_error + reach_audit" where
  "audit_manifest check p m candidate s =
     bindE (foldE (audit_row check p ''rule-source:'') (acl_sources m) s) (\<lambda>s.
     bindE (foldE (audit_row check p ''inline-rule:'') (acl_inline_rules m) s) (\<lambda>s.
     bindE (audit_final check m s) (\<lambda>s.
       (case get_or candidate ''rules'' (JList []) of
          JList rules \<Rightarrow> foldE (audit_rule check (uses_by_provider p m) (final_use m)) rules s
        | _ \<Rightarrow> Inl RulesNotList))))"

definition audit_start :: reach_audit where
  "audit_start = \<lparr>use_counts = [], groups_checked = 0, surfaces_checked = 0, rules_checked = 0\<rparr>"

definition audit_reachability ::
  "project \<Rightarrow> json dict \<Rightarrow> subscription_spec dict \<Rightarrow> runtime_graph \<Rightarrow> audit_error + reach_audit" where
  "audit_reachability p candidate subs g =
     bindE (runtime_source_maps g (dict_keys subs)) (\<lambda>maps.
       let check = check_surface g subs maps in
       bindE (foldE (audit_group check g) (sort_dict (expected_group_uses p)) audit_start) (\<lambda>s.
         (case pj_acl4ssr p of None \<Rightarrow> Inr (s\<lparr>use_counts := sort_dict (use_counts s)\<rparr>)
          | Some m \<Rightarrow> bindE (audit_manifest check p m candidate s) (\<lambda>s.
              Inr (s\<lparr>use_counts := sort_dict (use_counts s)\<rparr>)))))"

section \<open>The pools\<close>

record pool_row =
  row_id :: string
  row_display_name :: string
  row_source_use :: string
  row_providers :: nat
  row_sources :: "nat dict"

text \<open>\<^verbatim>\<open>sum(counts.values())\<close>\<close>

definition row_nodes :: "pool_row \<Rightarrow> nat" where
  "row_nodes r = sum_list (map snd (row_sources r))"

definition audit_pool_proxy ::
  "subscription_spec dict \<Rightarrow> pool \<Rightarrow> string \<Rightarrow> json \<Rightarrow> nat dict \<Rightarrow> audit_error + nat dict" where
  "audit_pool_proxy subs x provider item counts = (case item of
     JObj row \<Rightarrow> bindE (runtime_source_id row provider (dict_keys subs)) (\<lambda>i.
       (case map_of subs i of None \<Rightarrow> Inl (UnknownSource i)
        | Some spec \<Rightarrow> if \<not> use_allowed spec (pool_source_use x)
            then Inl (UseBoundary (pool_id x) (pool_source_use x) i) else Inr (count_use i counts)))
   | _ \<Rightarrow> Inl (MalformedProviderProxy provider))"

definition audit_pool_region ::
  "runtime_graph \<Rightarrow> subscription_spec dict \<Rightarrow> pool \<Rightarrow> string \<Rightarrow> nat \<times> nat dict \<Rightarrow> audit_error + nat \<times> nat dict" where
  "audit_pool_region g subs x region acc = (case acc of (providers, counts) \<Rightarrow>
     (let name = provider_name_for (pool_id x) region in
      (case map_of (rg_providers g) name of None \<Rightarrow> Inr (providers, counts)
       | Some provider \<Rightarrow> (case json_get provider ''payload'' of
           JList payload \<Rightarrow> bindE (foldE (audit_pool_proxy subs x name) payload counts) (\<lambda>counts.
             Inr (Suc providers, counts))
         | _ \<Rightarrow> Inl (ProviderWithoutPayload name)))))"

definition audit_pool :: "runtime_graph \<Rightarrow> subscription_spec dict \<Rightarrow> pool \<Rightarrow> audit_error + pool_row" where
  "audit_pool g subs x =
     bindE (foldE (audit_pool_region g subs x) (pool_regions x) (0, [])) (\<lambda>(providers, counts).
       Inr \<lparr>row_id = pool_id x, row_display_name = pool_display_name x, row_source_use = pool_source_use x,
            row_providers = providers, row_sources = sort_dict counts\<rparr>)"

definition audit_pools :: "project \<Rightarrow> runtime_graph \<Rightarrow> subscription_spec dict \<Rightarrow> audit_error + pool_row list" where
  "audit_pools p g subs = mapE (audit_pool g subs) (enabled_pools p)"

end
