(* ===== verification/Availability.thy ===== *)
theory Availability
  imports ReachabilityAudit
begin

text \<open>
  \<^verbatim>\<open>availability.py\<close>: the capacity of a candidate and of a published baseline by declared use, and the
  service availability that qualification reports.  The result of the production audit, of which the
  candidate inventory reads the pool rows, is an argument.
\<close>

record inventory_count =
  inv_nodes :: nat
  inv_providers :: nat
  sources_by_use :: "nat dict"
  providers_by_use :: "nat dict"
  nodes_by_use :: "nat dict"
  regions_by_use :: "nat dict"

record service_availability =
  qualified_nodes_by_service :: "int dict"
  qualified_regions_by_service :: "int dict"

datatype availability_error =
  InventoryGraph graph_error | InventoryAudit audit_error | InvalidRuntimeLabel

definition count_at :: "nat dict \<Rightarrow> string \<Rightarrow> nat" where
  "count_at d k = (case map_of d k of Some n \<Rightarrow> n | None \<Rightarrow> 0)"

definition add_count :: "string \<Rightarrow> nat \<Rightarrow> nat dict \<Rightarrow> nat dict" where
  "add_count k n d = dict_set k (count_at d k + n) d"

text \<open>\<^verbatim>\<open>d.setdefault(k, set()).update(xs)\<close>, a set being a list without duplicates.\<close>

definition add_names :: "string \<Rightarrow> string list \<Rightarrow> string list dict \<Rightarrow> string list dict" where
  "add_names k xs d = dict_set k (foldl (\<lambda>ys x. add_name x ys) (names_in d k) xs) d"

text \<open>The four maps a collection fills.\<close>

record inventory_state =
  ist_sources :: "string list dict"
  ist_providers :: "nat dict"
  ist_nodes :: "nat dict"
  ist_regions :: "string list dict"

definition ist_start :: inventory_state where
  "ist_start = \<lparr>ist_sources = [], ist_providers = [], ist_nodes = [], ist_regions = []\<rparr>"

definition inventory_graph :: "json \<Rightarrow> availability_error + runtime_graph" where
  "inventory_graph candidate = (case from_candidate candidate of Inl e \<Rightarrow> Inl (InventoryGraph e) | Inr g \<Rightarrow> Inr g)"

definition runtime_nodes :: "runtime_graph \<Rightarrow> string list" where
  "runtime_nodes g = remdups (concat (map snd (rg_provider_proxies g)))"

definition sizes :: "string list dict \<Rightarrow> nat dict" where
  "sizes d = map (\<lambda>(k, xs). (k, length xs)) (sort_dict d)"

definition inventory_of :: "runtime_graph \<Rightarrow> inventory_state \<Rightarrow> inventory_count" where
  "inventory_of g s =
     \<lparr>inv_nodes = length (runtime_nodes g), inv_providers = length (rg_providers g),
      sources_by_use = sizes (ist_sources s), providers_by_use = sort_dict (ist_providers s),
      nodes_by_use = sort_dict (ist_nodes s), regions_by_use = sizes (ist_regions s)\<rparr>"

section \<open>The candidate\<close>

definition pools_by_id :: "project \<Rightarrow> pool dict" where
  "pools_by_id p = foldl (\<lambda>d x. dict_set (pool_id x) x d) [] (pj_pools p)"

text \<open>The regions of a pool whose provider has nodes.\<close>

definition active_regions :: "runtime_graph \<Rightarrow> pool \<Rightarrow> string list" where
  "active_regions g x = filter (\<lambda>r. names_in (rg_provider_proxies g) (provider_name_for (pool_id x) r) \<noteq> []) (pool_regions x)"

definition collect_row :: "project \<Rightarrow> runtime_graph \<Rightarrow> inventory_state \<Rightarrow> pool_row \<Rightarrow> inventory_state" where
  "collect_row p g s row =
     (let use = row_source_use row;
          s = s\<lparr>ist_sources := add_names use (dict_keys (row_sources row)) (ist_sources s),
                ist_providers := add_count use (row_providers row) (ist_providers s),
                ist_nodes := add_count use (row_nodes row) (ist_nodes s),
                ist_regions := add_names use [] (ist_regions s)\<rparr> in
      (case map_of (pools_by_id p) (row_id row) of None \<Rightarrow> s
       | Some x \<Rightarrow> s\<lparr>ist_regions := add_names use (active_regions g x) (ist_regions s)\<rparr>))"

definition collect_inventory ::
  "(project \<Rightarrow> json \<Rightarrow> audit_error + pool_row list) \<Rightarrow> project \<Rightarrow> json \<Rightarrow> availability_error + inventory_count"
where
  "collect_inventory audit p candidate =
     bindE (inventory_graph candidate) (\<lambda>g.
       (case audit p candidate of Inl e \<Rightarrow> Inl (InventoryAudit e)
        | Inr rows \<Rightarrow> Inr (inventory_of g (foldl (collect_row p g) ist_start rows))))"

section \<open>The baseline\<close>

definition historical_source_label :: "string \<Rightarrow> availability_error + string" where
  "historical_source_label name =
     (case parse_runtime_source_name name of None \<Rightarrow> Inl InvalidRuntimeLabel | Some label \<Rightarrow> Inr label)"

definition authorized_source_ids :: "project \<Rightarrow> string \<Rightarrow> string set" where
  "authorized_source_ids p use =
     spec_id ` {s \<in> set (pj_subscriptions p). spec_enabled s \<and> (use \<in> spec_allowed_uses s \<or> ''*'' \<in> spec_allowed_uses s)}"

definition count_baseline_name ::
  "project \<Rightarrow> string \<Rightarrow> string \<Rightarrow> inventory_state \<Rightarrow> availability_error + inventory_state" where
  "count_baseline_name p use name s =
     bindE (historical_source_label name) (\<lambda>label.
       Inr (if label \<in> authorized_source_ids p use then s\<lparr>ist_sources := add_names use [label] (ist_sources s)\<rparr> else s))"

definition collect_baseline_region ::
  "project \<Rightarrow> runtime_graph \<Rightarrow> pool \<Rightarrow> string \<Rightarrow> inventory_state \<Rightarrow> availability_error + inventory_state" where
  "collect_baseline_region p g x region s =
     (let use = pool_source_use x in
      (case map_of (rg_provider_proxies g) (provider_name_for (pool_id x) region) of None \<Rightarrow> Inr s
       | Some names \<Rightarrow> foldE (count_baseline_name p use) names
           (s\<lparr>ist_providers := add_count use 1 (ist_providers s),
              ist_nodes := add_count use (length names) (ist_nodes s),
              ist_regions := (if names \<noteq> [] then add_names use [region] (ist_regions s) else ist_regions s)\<rparr>)))"

definition collect_baseline_pool ::
  "project \<Rightarrow> runtime_graph \<Rightarrow> pool \<Rightarrow> inventory_state \<Rightarrow> availability_error + inventory_state" where
  "collect_baseline_pool p g x s =
     foldE (collect_baseline_region p g x) (pool_regions x)
       (s\<lparr>ist_sources := add_names (pool_source_use x) [] (ist_sources s),
          ist_regions := add_names (pool_source_use x) [] (ist_regions s)\<rparr>)"

definition collect_baseline_inventory :: "project \<Rightarrow> json \<Rightarrow> availability_error + inventory_count" where
  "collect_baseline_inventory p candidate =
     bindE (inventory_graph candidate) (\<lambda>g.
     bindE (foldE (collect_baseline_pool p g) (pj_pools p) ist_start) (\<lambda>s. Inr (inventory_of g s)))"

section \<open>Services\<close>

text \<open>The labels of the service registry.\<close>

definition SERVICE_LABELS :: "string list" where
  "SERVICE_LABELS = [''openai'', ''claude'', ''gemini'']"

definition aggregate_count :: "json \<Rightarrow> int" where
  "aggregate_count j = (case j of JInt n \<Rightarrow> if 0 \<le> n then n else 0 | _ \<Rightarrow> 0)"

text \<open>A nested mapping, empty where the value is not one; \<open>JNull\<close> is \<^verbatim>\<open>None\<close>.\<close>

definition mapping_of :: "json \<Rightarrow> json dict" where
  "mapping_of j = (case j of JObj d \<Rightarrow> d | _ \<Rightarrow> [])"

definition service_rows :: "json \<Rightarrow> json dict" where
  "service_rows qualification = mapping_of (json_get (mapping_of (json_get (mapping_of qualification) ''ai'')) ''services'')"

definition collect_service_availability :: "json \<Rightarrow> service_availability" where
  "collect_service_availability qualification =
     (let counts = (\<lambda>field. sort_dict (map (\<lambda>label.
            (label, aggregate_count (json_get (mapping_of (json_get (service_rows qualification) label)) field)))
          SERVICE_LABELS)) in
      \<lparr>qualified_nodes_by_service = counts ''qualified_candidates'',
       qualified_regions_by_service = counts ''qualified_regions''\<rparr>)"

section \<open>Ratios and reports\<close>

definition capacity_ratio :: "nat \<Rightarrow> nat \<Rightarrow> pyfloat" where
  "capacity_ratio current baseline = (if baseline = 0 then Fin 1 else int_div (int current) (int baseline))"

definition json_count :: "nat \<Rightarrow> json" where
  "json_count n = JInt (int n)"

definition safe_inventory :: "inventory_count \<Rightarrow> json dict" where
  "safe_inventory v =
     (let uses = sorted_set (dict_keys (sources_by_use v) @ dict_keys (providers_by_use v)
            @ dict_keys (nodes_by_use v) @ dict_keys (regions_by_use v)) in
      [(''nodes'', json_count (inv_nodes v)), (''providers'', json_count (inv_providers v)),
       (''uses'', JObj (map (\<lambda>use. (use, JObj
          [(''sources'', json_count (count_at (sources_by_use v) use)),
           (''providers'', json_count (count_at (providers_by_use v) use)),
           (''node_entries'', json_count (count_at (nodes_by_use v) use)),
           (''regions'', json_count (count_at (regions_by_use v) use))])) uses))])"

definition int_at :: "int dict \<Rightarrow> string \<Rightarrow> int" where
  "int_at d k = (case map_of d k of Some n \<Rightarrow> n | None \<Rightarrow> 0)"

definition safe_service_availability :: "service_availability \<Rightarrow> json dict" where
  "safe_service_availability v =
     map (\<lambda>service. (service, JObj
         [(''qualified_nodes'', JInt (int_at (qualified_nodes_by_service v) service)),
          (''qualified_regions'', JInt (int_at (qualified_regions_by_service v) service))]))
       (sorted_set (dict_keys (qualified_nodes_by_service v) @ dict_keys (qualified_regions_by_service v)))"

end
