(* ===== verification/PromotionGuard.thy ===== *)
theory PromotionGuard
  imports Availability FloatFacts
begin

text \<open>
  \<^verbatim>\<open>promotion_guard.py\<close>: the thresholds of a promotion policy with their validation, and the decision
  whether a candidate may replace the published baseline.  A policy document is the decoded mapping
  that passed its schema; the report is the decoded form of the dictionary the code returns.
\<close>

record promotion_policy =
  pg_enabled :: bool
  minimum_total_node_ratio :: pyfloat
  minimum_provider_ratio :: pyfloat
  minimum_source_ratio_by_use :: "pyfloat dict"
  warning_total_node_ratio :: pyfloat
  warning_provider_ratio :: pyfloat
  warning_source_ratio_by_use :: "pyfloat dict"
  minimum_sources_by_use :: "int dict"
  minimum_nodes_by_use :: "int dict"
  minimum_regions_by_use :: "int dict"
  minimum_qualified_nodes_by_service :: "int dict"
  minimum_qualified_regions_by_service :: "int dict"

datatype promotion_error =
    GuardNotMapping
  | GuardValue string
  | UnknownServices string "string list"
  | WarningTotalBelowMinimum
  | WarningProviderBelowMinimum
  | UnknownWarningUses "string list"
  | WarningSourceBelowMinimum
  | MissingWarningRatio string
  | InventoryFailed availability_error

section \<open>The policy\<close>

text \<open>\<^verbatim>\<open>float(x)\<close> and \<^verbatim>\<open>int(x)\<close> of a number; the schema admits nothing else.\<close>

definition json_float :: "string \<Rightarrow> json \<Rightarrow> promotion_error + pyfloat" where
  "json_float field j = (case j of
     JFloat f \<Rightarrow> Inr f
   | JInt n \<Rightarrow> (case float_of_int n of Some f \<Rightarrow> Inr f | None \<Rightarrow> Inl (GuardValue field))
   | JBool b \<Rightarrow> Inr (Fin (if b then 1 else 0))
   | _ \<Rightarrow> Inl (GuardValue field))"

definition json_int :: "string \<Rightarrow> json \<Rightarrow> promotion_error + int" where
  "json_int field j = (case j of
     JInt n \<Rightarrow> Inr n | JBool b \<Rightarrow> Inr (if b then 1 else 0)
   | JFloat (Fin q) \<Rightarrow> Inr (if 0 \<le> q then \<lfloor>q\<rfloor> else \<lceil>q\<rceil>)
   | _ \<Rightarrow> Inl (GuardValue field))"

definition map_values :: "(json \<Rightarrow> promotion_error + 'a) \<Rightarrow> string \<Rightarrow> json \<Rightarrow> promotion_error + 'a dict" where
  "map_values f field j = (case j of
     JObj d \<Rightarrow> mapE (\<lambda>(k, v). bindE (f v) (\<lambda>x. Inr (k, x))) d
   | _ \<Rightarrow> Inl (GuardValue field))"

definition float_map :: "string \<Rightarrow> json \<Rightarrow> promotion_error + pyfloat dict" where
  "float_map field j = map_values (json_float field) field j"

definition int_map :: "string \<Rightarrow> json \<Rightarrow> promotion_error + int dict" where
  "int_map field j = map_values (json_int field) field j"

definition validate_service_thresholds :: "string \<Rightarrow> int dict \<Rightarrow> promotion_error + unit" where
  "validate_service_thresholds field d =
     (let unknown = filter (\<lambda>k. k \<notin> set SERVICE_LABELS) (dict_keys d) in
      if unknown \<noteq> [] then Inl (UnknownServices field (sorted_set unknown)) else Inr ())"

text \<open>\<^verbatim>\<open>d.update(e)\<close>\<close>

definition dict_update :: "'v dict \<Rightarrow> 'v dict \<Rightarrow> 'v dict" where
  "dict_update d e = foldl (\<lambda>d (k, v). dict_set k v d) d e"

text \<open>The value of a field whose \<^verbatim>\<open>None\<close> or absence means another field.\<close>

definition ratio_or :: "json dict \<Rightarrow> string \<Rightarrow> string \<Rightarrow> promotion_error + pyfloat" where
  "ratio_or d field other = (let raw = json_get d field in
     json_float field (if raw = JNull then json_get d other else raw))"

text \<open>Each warning ratio is at least its minimum; the first use below it is reported.\<close>

definition check_warning :: "pyfloat dict \<Rightarrow> string \<times> pyfloat \<Rightarrow> promotion_error + unit" where
  "check_warning warnings entry = (case entry of (use, minimum) \<Rightarrow>
     (case map_of warnings use of None \<Rightarrow> Inl (MissingWarningRatio use)
      | Some w \<Rightarrow> if float_less w minimum then Inl WarningSourceBelowMinimum else Inr ()))"

definition load_promotion_guard_policy :: "json \<Rightarrow> promotion_error + promotion_policy" where
  "load_promotion_guard_policy document = (case document of
     JObj d \<Rightarrow>
       bindE (float_map ''minimum_source_ratio_by_use'' (json_get d ''minimum_source_ratio_by_use'')) (\<lambda>source_min.
       bindE (float_map ''warning_source_ratio_by_use'' (get_or d ''warning_source_ratio_by_use'' (JObj []))) (\<lambda>warn.
       let source_warn = dict_update source_min warn in
       bindE (json_float ''minimum_total_node_ratio'' (json_get d ''minimum_total_node_ratio'')) (\<lambda>total_min.
       bindE (json_float ''minimum_provider_ratio'' (json_get d ''minimum_provider_ratio'')) (\<lambda>provider_min.
       bindE (ratio_or d ''warning_total_node_ratio'' ''minimum_total_node_ratio'') (\<lambda>total_warn.
       bindE (ratio_or d ''warning_provider_ratio'' ''minimum_provider_ratio'') (\<lambda>provider_warn.
       if float_less total_warn total_min then Inl WarningTotalBelowMinimum
       else if float_less provider_warn provider_min then Inl WarningProviderBelowMinimum
       else (let unknown = filter (\<lambda>k. k \<notin> set (dict_keys source_min)) (dict_keys source_warn) in
       if unknown \<noteq> [] then Inl (UnknownWarningUses (sorted_set unknown))
       else bindE (foldE (\<lambda>entry _. check_warning source_warn entry) source_min ()) (\<lambda>_.
       bindE (int_map ''minimum_qualified_nodes_by_service'' (get_or d ''minimum_qualified_nodes_by_service'' (JObj []))) (\<lambda>service_nodes.
       bindE (int_map ''minimum_qualified_regions_by_service'' (get_or d ''minimum_qualified_regions_by_service'' (JObj []))) (\<lambda>service_regions.
       bindE (validate_service_thresholds ''minimum_qualified_nodes_by_service'' service_nodes) (\<lambda>_.
       bindE (validate_service_thresholds ''minimum_qualified_regions_by_service'' service_regions) (\<lambda>_.
       bindE (int_map ''minimum_sources_by_use'' (json_get d ''minimum_sources_by_use'')) (\<lambda>sources.
       bindE (int_map ''minimum_nodes_by_use'' (get_or d ''minimum_nodes_by_use'' (JObj []))) (\<lambda>nodes.
       bindE (int_map ''minimum_regions_by_use'' (get_or d ''minimum_regions_by_use'' (JObj []))) (\<lambda>regions.
       Inr \<lparr>pg_enabled = truthy (json_get d ''enabled''),
            minimum_total_node_ratio = total_min, minimum_provider_ratio = provider_min,
            minimum_source_ratio_by_use = source_min,
            warning_total_node_ratio = total_warn, warning_provider_ratio = provider_warn,
            warning_source_ratio_by_use = source_warn,
            minimum_sources_by_use = sources, minimum_nodes_by_use = nodes, minimum_regions_by_use = regions,
            minimum_qualified_nodes_by_service = service_nodes,
            minimum_qualified_regions_by_service = service_regions\<rparr>)))))))))))))))
   | _ \<Rightarrow> Inl GuardNotMapping)"

section \<open>Violations\<close>

definition absolute_violations :: "inventory_count \<Rightarrow> promotion_policy \<Rightarrow> string list" where
  "absolute_violations cand pol =
     concat (map (\<lambda>use.
         (if int (count_at (sources_by_use cand) use) < int_at (minimum_sources_by_use pol) use then [''minimum_sources:'' @ use] else [])
       @ (if int (count_at (nodes_by_use cand) use) < int_at (minimum_nodes_by_use pol) use then [''minimum_nodes:'' @ use] else [])
       @ (if int (count_at (regions_by_use cand) use) < int_at (minimum_regions_by_use pol) use then [''minimum_regions:'' @ use] else []))
       (sorted_set (dict_keys (minimum_sources_by_use pol) @ dict_keys (minimum_nodes_by_use pol)
          @ dict_keys (minimum_regions_by_use pol))))"

definition service_violations :: "service_availability \<Rightarrow> promotion_policy \<Rightarrow> string list \<Rightarrow> string list" where
  "service_violations av pol skip =
     concat (map (\<lambda>service.
         (if int_at (qualified_nodes_by_service av) service < int_at (minimum_qualified_nodes_by_service pol) service
          then [''minimum_qualified_nodes:'' @ service] else [])
       @ (if int_at (qualified_regions_by_service av) service < int_at (minimum_qualified_regions_by_service pol) service
          then [''minimum_qualified_regions:'' @ service] else []))
       (filter (\<lambda>s. s \<notin> set skip)
         (sorted_set (dict_keys (minimum_qualified_nodes_by_service pol)
            @ dict_keys (minimum_qualified_regions_by_service pol)))))"

text \<open>Whether a service's live evidence is inconclusive for the probe environment.\<close>

definition systemic_row :: "json \<Rightarrow> bool" where
  "systemic_row row = (case row of
     JObj d \<Rightarrow> json_get d ''evidence_status'' = JStr ''inconclusive'' \<and> truthy (json_get d ''systemic_failure_detected'')
   | _ \<Rightarrow> False)"

definition cache_fresh :: "json \<Rightarrow> bool" where
  "cache_fresh row = truthy (json_get (mapping_of row) ''lkg_fresh'')"

definition service_evidence :: "json \<Rightarrow> json dict" where
  "service_evidence qualification =
     mapping_of (json_get (mapping_of (json_get (mapping_of qualification) ''ai'')) ''service_evidence'')"

text \<open>The services continued from a cache, and those held.\<close>

definition systemic_service_states :: "json \<Rightarrow> string list \<times> string list" where
  "systemic_service_states qualification =
     (let systemic = filter (\<lambda>(service, row). systemic_row row) (service_evidence qualification) in
      (map fst (filter (\<lambda>(service, row). cache_fresh row) systemic),
       map fst (filter (\<lambda>(service, row). \<not> cache_fresh row) systemic)))"

section \<open>The decision\<close>

definition json_strings :: "string list \<Rightarrow> json" where
  "json_strings xs = JList (map JStr xs)"

definition sorted_map :: "('a \<Rightarrow> json) \<Rightarrow> 'a dict \<Rightarrow> json" where
  "sorted_map f d = JObj (map (\<lambda>(k, v). (k, f v)) (sort_dict d))"

definition warning_thresholds :: "promotion_policy \<Rightarrow> json dict" where
  "warning_thresholds pol =
     [(''warning_total_node_ratio'', JFloat (warning_total_node_ratio pol)),
      (''warning_provider_ratio'', JFloat (warning_provider_ratio pol)),
      (''warning_source_ratio_by_use'', sorted_map JFloat (warning_source_ratio_by_use pol))]"

definition absolute_thresholds :: "promotion_policy \<Rightarrow> json dict" where
  "absolute_thresholds pol =
     [(''minimum_sources_by_use'', sorted_map JInt (minimum_sources_by_use pol)),
      (''minimum_nodes_by_use'', sorted_map JInt (minimum_nodes_by_use pol)),
      (''minimum_regions_by_use'', sorted_map JInt (minimum_regions_by_use pol)),
      (''minimum_qualified_nodes_by_service'', sorted_map JInt (minimum_qualified_nodes_by_service pol)),
      (''minimum_qualified_regions_by_service'', sorted_map JInt (minimum_qualified_regions_by_service pol))]"

definition source_ratio :: "string \<Rightarrow> inventory_count \<Rightarrow> inventory_count \<Rightarrow> pyfloat" where
  "source_ratio use cand base =
     float_round (capacity_ratio (count_at (sources_by_use cand) use) (count_at (sources_by_use base) use)) 4"

definition configured_in :: "string \<Rightarrow> inventory_count \<Rightarrow> bool" where
  "configured_in use base \<longleftrightarrow> use \<in> set (dict_keys (sources_by_use base))"

definition use_ratio_row :: "string \<Rightarrow> inventory_count \<Rightarrow> inventory_count \<Rightarrow> json dict" where
  "use_ratio_row use cand base =
     [(''configured_in_baseline'', JBool (configured_in use base)), (''source_ratio'', JFloat (source_ratio use cand base)),
      (''candidate_sources'', json_count (count_at (sources_by_use cand) use)),
      (''baseline_sources'', json_count (count_at (sources_by_use base) use)),
      (''candidate_providers'', json_count (count_at (providers_by_use cand) use)),
      (''baseline_providers'', json_count (count_at (providers_by_use base) use)),
      (''candidate_nodes'', json_count (count_at (nodes_by_use cand) use)),
      (''baseline_nodes'', json_count (count_at (nodes_by_use base) use)),
      (''candidate_regions'', json_count (count_at (regions_by_use cand) use)),
      (''baseline_regions'', json_count (count_at (regions_by_use base) use))]"

definition candidate_inventory_summary :: "inventory_count \<Rightarrow> service_availability \<Rightarrow> json dict" where
  "candidate_inventory_summary cand av = safe_inventory cand @ [(''services'', JObj (safe_service_availability av))]"

text \<open>The uses whose source ratio is below a threshold, for the minimum or the warning ratios.\<close>

definition low_source_ratios ::
  "pyfloat dict \<Rightarrow> promotion_policy \<Rightarrow> inventory_count \<Rightarrow> inventory_count \<Rightarrow> promotion_error + string list" where
  "low_source_ratios thresholds pol cand base =
     bindE (mapE (\<lambda>use. (case map_of thresholds use of None \<Rightarrow> Inl (MissingWarningRatio use)
         | Some t \<Rightarrow> Inr (if configured_in use base \<and> float_less (source_ratio use cand base) t
             then [''source_ratio:'' @ use] else [])))
       (sorted_set (dict_keys (minimum_source_ratio_by_use pol)))) (\<lambda>rows. Inr (concat rows))"

definition low_ratio :: "string \<Rightarrow> pyfloat \<Rightarrow> pyfloat \<Rightarrow> string list" where
  "low_ratio name r threshold = (if float_less r threshold then [name] else [])"

text \<open>The violations that do not need a baseline.\<close>

definition candidate_violations :: "inventory_count \<Rightarrow> service_availability \<Rightarrow> json \<Rightarrow> promotion_policy \<Rightarrow> string list" where
  "candidate_violations cand av qualification pol =
     (let (cached, held) = systemic_service_states qualification in
      absolute_violations cand pol @ service_violations av pol (cached @ held)
        @ map (\<lambda>s. ''probe_environment_hold:'' @ s) (sorted_set held))"

definition disabled_report :: "json dict" where
  "disabled_report =
     [(''status'', JStr ''passed''), (''admission_state'', JStr ''NORMAL''), (''reason'', JStr ''disabled''),
      (''warnings'', JList []), (''violations'', JList [])]"

definition probe_environment :: "json \<Rightarrow> json" where
  "probe_environment qualification =
     (let (cached, held) = systemic_service_states qualification in
      JObj [(''cache_backed_services'', json_strings (sorted_set cached)), (''held_services'', json_strings (sorted_set held))])"

definition status_of :: "string list \<Rightarrow> json" where
  "status_of violations = JStr (if violations \<noteq> [] then ''blocked'' else ''passed'')"

definition first_release_report ::
  "promotion_policy \<Rightarrow> inventory_count \<Rightarrow> service_availability \<Rightarrow> json \<Rightarrow> json dict" where
  "first_release_report pol cand av qualification =
     (let violations = candidate_violations cand av qualification pol in
      [(''status'', status_of violations),
       (''admission_state'', JStr (if violations \<noteq> [] then ''PROMOTION_BLOCK'' else ''NORMAL'')),
       (''reason'', JStr (if snd (systemic_service_states qualification) \<noteq> [] then ''probe_environment_hold''
          else if violations \<noteq> [] then ''availability_contract'' else ''first_release'')),
       (''probe_environment'', probe_environment qualification),
       (''candidate'', JObj (candidate_inventory_summary cand av)),
       (''thresholds'', JObj (warning_thresholds pol @ absolute_thresholds pol)),
       (''warnings'', JList []), (''violations'', json_strings violations)])"

text \<open>The reason of a comparison: only held services is a hold of its own.\<close>

definition comparison_reason :: "string list \<Rightarrow> string list \<Rightarrow> string list \<Rightarrow> string" where
  "comparison_reason violations warnings held =
     (if held \<noteq> [] \<and> set violations \<subseteq> (\<lambda>s. ''probe_environment_hold:'' @ s) ` set held then ''probe_environment_hold''
      else if violations \<noteq> [] then ''degraded'' else if warnings \<noteq> [] then ''degraded_warning'' else ''within_thresholds'')"

definition comparison_report ::
  "promotion_policy \<Rightarrow> inventory_count \<Rightarrow> inventory_count \<Rightarrow> service_availability \<Rightarrow> json \<Rightarrow> promotion_error + json dict"
where
  "comparison_report pol cand base av qualification =
     (let total = capacity_ratio (inv_nodes cand) (inv_nodes base);
          prov = capacity_ratio (inv_providers cand) (inv_providers base) in
      bindE (low_source_ratios (minimum_source_ratio_by_use pol) pol cand base) (\<lambda>low.
      bindE (low_source_ratios (warning_source_ratio_by_use pol) pol cand base) (\<lambda>near.
      let violations = candidate_violations cand av qualification pol
            @ low_ratio ''total_node_ratio'' total (minimum_total_node_ratio pol)
            @ low_ratio ''provider_ratio'' prov (minimum_provider_ratio pol) @ low;
          warnings = low_ratio ''total_node_ratio'' total (warning_total_node_ratio pol)
            @ low_ratio ''provider_ratio'' prov (warning_provider_ratio pol) @ near in
      Inr
       [(''status'', status_of violations),
        (''admission_state'', JStr (if violations \<noteq> [] then ''PROMOTION_BLOCK'' else if warnings \<noteq> [] then ''WARNING'' else ''NORMAL'')),
        (''reason'', JStr (comparison_reason violations warnings (snd (systemic_service_states qualification)))),
        (''probe_environment'', probe_environment qualification),
        (''candidate'', JObj (candidate_inventory_summary cand av)),
        (''baseline'', JObj (safe_inventory base)),
        (''ratios'', JObj [(''total_nodes'', JFloat (float_round total 4)), (''providers'', JFloat (float_round prov 4)),
           (''uses'', JObj (map (\<lambda>use. (use, JObj (use_ratio_row use cand base)))
              (sorted_set (dict_keys (minimum_source_ratio_by_use pol)))))]),
        (''thresholds'', JObj
           ([(''minimum_total_node_ratio'', JFloat (minimum_total_node_ratio pol)),
             (''minimum_provider_ratio'', JFloat (minimum_provider_ratio pol)),
             (''minimum_source_ratio_by_use'', sorted_map JFloat (minimum_source_ratio_by_use pol))]
            @ warning_thresholds pol @ absolute_thresholds pol)),
        (''warnings'', json_strings warnings), (''violations'', json_strings violations)])))"

definition inventory_result :: "availability_error + 'a \<Rightarrow> promotion_error + 'a" where
  "inventory_result r = (case r of Inl e \<Rightarrow> Inl (InventoryFailed e) | Inr x \<Rightarrow> Inr x)"

definition assess_promotion ::
  "(project \<Rightarrow> json \<Rightarrow> audit_error + pool_row list) \<Rightarrow> project \<Rightarrow> json \<Rightarrow> json option \<Rightarrow> promotion_policy \<Rightarrow> json
    \<Rightarrow> promotion_error + json dict" where
  "assess_promotion audit p candidate baseline pol qualification =
     (if \<not> pg_enabled pol then Inr disabled_report
      else bindE (inventory_result (collect_inventory audit p candidate)) (\<lambda>cand.
        let av = collect_service_availability qualification in
        (case baseline of None \<Rightarrow> Inr (first_release_report pol cand av qualification)
         | Some b \<Rightarrow> bindE (inventory_result (collect_baseline_inventory p b)) (\<lambda>base.
             comparison_report pol cand base av qualification))))"

end
