(* ===== verification/AuditFacts.thy ===== *)
theory AuditFacts
  imports ReachabilityAudit
begin

text \<open>
  What a passed audit means: every node that a declared group, a declared rule or an emitted rule can
  reach, through groups, providers and dialers, comes from an enabled subscription that allows the
  declared use.
\<close>

section \<open>Source maps\<close>

text \<open>The subscription a node of the graph comes from, by its runtime name.\<close>

definition node_source :: "runtime_graph \<Rightarrow> string list \<Rightarrow> string \<Rightarrow> string option" where
  "node_source g known n = (case map_of (rg_proxies g) n of None \<Rightarrow> None
     | Some row \<Rightarrow> (case runtime_source_id row '''' known of Inl e \<Rightarrow> None | Inr i \<Rightarrow> Some i))"

lemma runtime_source_id_any: "runtime_source_id row provider known = Inr i \<Longrightarrow> runtime_source_id row '''' known = Inr i"
  by (auto simp: runtime_source_id_def split: json.splits option.splits sum.splits)

definition attributed :: "runtime_graph \<Rightarrow> string list \<Rightarrow> string dict \<Rightarrow> bool" where
  "attributed g known rs \<longleftrightarrow> (\<forall>n i. map_of rs n = Some i \<longrightarrow> node_source g known n = Some i)"

lemma attribute_name_keeps:
  assumes "attribute_name g known provider name acc = Inr acc'" and "attributed g known (snd acc)"
  shows "attributed g known (snd acc')"
proof -
  obtain row i where "map_of (rg_proxies g) name = Some row" "runtime_source_id row provider known = Inr i"
      "snd acc' = dict_set name i (snd acc)"
    using assms(1) by (cases acc) (auto simp: attribute_name_def bindE_Inr_iff split: option.splits if_splits)
  with assms(2) show ?thesis by (auto simp: attributed_def node_source_def dest: runtime_source_id_any)
qed

lemma attribute_provider_keeps:
  assumes "attribute_provider g known e acc = Inr acc'" and "attributed g known (snd acc)"
  shows "attributed g known (snd acc')"
proof -
  obtain mid where mid: "foldE (attribute_name g known (fst e)) (snd e) ([], snd acc) = Inr mid" "snd acc' = snd mid"
    using assms(1) by (auto simp: attribute_provider_def bindE_Inr_iff split: prod.splits)
  have "attributed g known (snd mid)"
    by (rule foldE_invariant [OF mid(1)]) (use assms(2) attribute_name_keeps in auto)
  with mid(2) show ?thesis by simp
qed

lemma source_maps_attributed:
  assumes "runtime_source_maps g known = Inr (ps, rs)"
  shows "attributed g known rs" and "set (dict_keys (rg_proxies g)) \<subseteq> set (dict_keys rs)"
proof -
  from assms obtain acc where "foldE (attribute_provider g known) (rg_provider_proxies g) ([], []) = Inr acc"
      "set (dict_keys (rg_proxies g)) \<subseteq> set (dict_keys (snd acc))" "rs = snd acc"
    by (auto simp: runtime_source_maps_def bindE_Inr_iff split: if_splits)
  moreover from this(1) have "attributed g known (snd acc)"
    by (rule foldE_invariant) (auto simp: attributed_def dest: attribute_provider_keeps [unfolded attributed_def])
  ultimately show "attributed g known rs" and "set (dict_keys (rg_proxies g)) \<subseteq> set (dict_keys rs)"
    by simp_all
qed

section \<open>Surfaces\<close>

text \<open>Every node reachable from the target comes from a subscription that allows the use.\<close>

definition within_use :: "runtime_graph \<Rightarrow> subscription_spec dict \<Rightarrow> string \<Rightarrow> string \<Rightarrow> bool" where
  "within_use g subs target use \<longleftrightarrow>
     (\<forall>n \<in> reach g target. is_proxy g n \<longrightarrow>
        (\<exists>i spec. node_source g (dict_keys subs) n = Some i \<and> map_of subs i = Some spec \<and> use_allowed spec use))"

lemma finite_names_in: "finite (\<Union>p \<in> P. set (names_in d p))"
proof (rule finite_subset)
  show "(\<Union>p \<in> P. set (names_in d p)) \<subseteq> (\<Union>xs \<in> snd ` set d. set xs)"
  proof
    fix x assume "x \<in> (\<Union>p \<in> P. set (names_in d p))"
    then obtain p where x: "x \<in> set (names_in d p)" by blast
    then obtain xs where xs: "map_of d p = Some xs" "x \<in> set xs"
      by (cases "map_of d p") (simp_all add: names_in_def)
    from map_of_SomeD [OF xs(1)] have "xs \<in> snd ` set d" by (force intro: rev_image_eqI)
    with xs(2) show "x \<in> (\<Union>xs \<in> snd ` set d. set xs)" by blast
  qed
qed simp

lemma assert_use_allowed_iff:
  assumes "finite S"
  shows "assert_use_allowed S use subs surface = Inr () \<longleftrightarrow>
     (\<forall>i \<in> S. \<exists>spec. map_of subs i = Some spec \<and> use_allowed spec use)"
  using assms by (force simp: assert_use_allowed_def foldE_unit split: option.splits)

lemma check_surface_within:
  assumes maps: "runtime_source_maps g (dict_keys subs) = Inr maps"
    and check: "check_surface g subs maps surface target use = Inr u"
  shows "within_use g subs target use"
  unfolding within_use_def
proof (intro ballI impI)
  fix n assume n: "n \<in> reach g target" "is_proxy g n"
  obtain ps rs where pr: "maps = (ps, rs)" by (cases maps)
  note attr = source_maps_attributed [OF maps [unfolded pr]]
  from check obtain sources where sources: "reachable_sources g target rs (Some ps) True = Inr sources"
      and allowed: "assert_use_allowed sources use subs surface = Inr ()"
    by (auto simp: check_surface_def pr graph_result_def bindE_Inr_iff split: sum.splits)
  from sources obtain R where R: "walk g target = Inr R"
      and S: "sources = {src \<in> snd ` set rs. \<exists>n \<in> reached_proxies R. map_of rs n = Some src}
        \<union> (\<Union>p \<in> reached_providers R. set (names_in ps p))"
    by (auto simp: reachable_sources_def walk_resolved_def bindE_Inr_iff split: if_splits)
  have "n \<in> reached_proxies R" using walk_result [OF R] n by (simp add: reachability_of_def)
  moreover have "n \<in> set (dict_keys (rg_proxies g))"
    using n(2) by (metis is_proxy_def map_of_eq_None_iff set_map)
  with attr(2) have "n \<in> set (dict_keys rs)" by blast
  then obtain i where i: "map_of rs n = Some i" by (metis map_of_eq_None_iff not_None_eq set_map)
  ultimately have "i \<in> sources" by (force simp: S dest: map_of_SomeD)
  moreover have "finite sources" unfolding S using finite_names_in by simp
  ultimately obtain spec where "map_of subs i = Some spec" "use_allowed spec use"
    using allowed assert_use_allowed_iff by blast
  with i attr(1) show "\<exists>i spec. node_source g (dict_keys subs) n = Some i \<and> map_of subs i = Some spec \<and> use_allowed spec use"
    by (auto simp: attributed_def)
qed

section \<open>The whole audit\<close>

lemma audit_group_each:
  assumes "foldE (audit_group check g) entries s = Inr s'" and "(name, use) \<in> set entries" and "is_group g name"
  shows "\<exists>surface. check surface name use = Inr ()"
  using foldE_each [OF assms(1,2)] assms(3) by (auto simp: audit_group_def bindE_Inr_iff simp del: image_iff)

lemma audit_row_each:
  assumes "foldE (audit_row check p kind) rows s = Inr s'" and "row \<in> set rows" and "\<not> skipped p (ar_module row)"
  shows "\<exists>surface. check surface (ar_target row) (row_use row) = Inr ()"
  using foldE_each [OF assms(1,2)] assms(3) by (auto simp: audit_row_def bindE_Inr_iff)

lemma audit_rule_each:
  assumes "foldE (audit_rule check by_provider last_use) rules s = Inr s'" and "JStr rule \<in> set rules"
    and "rule_surface by_provider last_use rule = Some (target, use)"
  shows "\<exists>surface. check surface target use = Inr ()"
  using foldE_each [OF assms(1,2)] assms(3) by (auto simp: audit_rule_def bindE_Inr_iff)

text \<open>
  C10.  An audit that passes proves the use boundary: every node that a declared group, an enabled
  rule source or inline rule, the final target, or an emitted rule with a declared use can reach
  comes from an enabled subscription that allows this use.
\<close>

theorem reachability_audit_sound:
  assumes "audit_reachability p candidate subs g = Inr summary"
  shows "(\<forall>name use. (name, use) \<in> set (expected_group_uses p) \<and> is_group g name \<longrightarrow> within_use g subs name use)
    \<and> (\<forall>m. pj_acl4ssr p = Some m \<longrightarrow>
        (\<forall>row \<in> set (acl_sources m) \<union> set (acl_inline_rules m). \<not> skipped p (ar_module row) \<longrightarrow>
            within_use g subs (ar_target row) (row_use row))
      \<and> (\<forall>target. acl_final_target m = Some target \<longrightarrow> within_use g subs target (final_use m))
      \<and> (\<exists>rules. get_or candidate ''rules'' (JList []) = JList rules
          \<and> (\<forall>rule target use. JStr rule \<in> set rules
              \<and> rule_surface (uses_by_provider p m) (final_use m) rule = Some (target, use) \<longrightarrow>
              within_use g subs target use)))"
proof -
  from assms obtain maps s where maps: "runtime_source_maps g (dict_keys subs) = Inr maps"
      and groups: "foldE (audit_group (check_surface g subs maps) g) (sort_dict (expected_group_uses p)) audit_start = Inr s"
    by (auto simp: audit_reachability_def Let_def bindE_Inr_iff)
  note within = check_surface_within [OF maps]
  have "within_use g subs name use" if "(name, use) \<in> set (expected_group_uses p)" "is_group g name" for name use
    using audit_group_each [OF groups, of name use] that within by auto
  moreover have "(\<forall>row \<in> set (acl_sources m) \<union> set (acl_inline_rules m). \<not> skipped p (ar_module row) \<longrightarrow>
            within_use g subs (ar_target row) (row_use row))
      \<and> (\<forall>target. acl_final_target m = Some target \<longrightarrow> within_use g subs target (final_use m))
      \<and> (\<exists>rules. get_or candidate ''rules'' (JList []) = JList rules
          \<and> (\<forall>rule target use. JStr rule \<in> set rules
              \<and> rule_surface (uses_by_provider p m) (final_use m) rule = Some (target, use) \<longrightarrow>
              within_use g subs target use))" if m: "pj_acl4ssr p = Some m" for m
  proof -
    from assms m maps groups obtain t where "audit_manifest (check_surface g subs maps) p m candidate s = Inr t"
      by (auto simp: audit_reachability_def Let_def bindE_Inr_iff)
    then obtain s1 s2 s3 rules where
        sources: "foldE (audit_row (check_surface g subs maps) p ''rule-source:'') (acl_sources m) s = Inr s1"
      and inline: "foldE (audit_row (check_surface g subs maps) p ''inline-rule:'') (acl_inline_rules m) s1 = Inr s2"
      and final: "audit_final (check_surface g subs maps) m s2 = Inr s3"
      and rules: "get_or candidate ''rules'' (JList []) = JList rules"
        "foldE (audit_rule (check_surface g subs maps) (uses_by_provider p m) (final_use m)) rules s3 = Inr t"
      by (cases "get_or candidate ''rules'' (JList [])") (auto simp: audit_manifest_def bindE_Inr_iff)
    have "within_use g subs target (final_use m)" if "acl_final_target m = Some target" for target
      using final that within by (auto simp: audit_final_def bindE_Inr_iff)
    then show ?thesis
      using audit_row_each [OF sources] audit_row_each [OF inline] audit_rule_each [OF rules(2)] within rules(1)
      by (metis Un_iff)
  qed
  ultimately show ?thesis by blast
qed

text \<open>One subscription for AI use, its node in the AI group, and a final rule.\<close>

definition demo_subscription :: subscription_spec where
  "demo_subscription =
     \<lparr>spec_id = ''subscription_1'', spec_display_name = ''first'', spec_enabled = True, spec_required = True,
      spec_secret_name = ''S'', spec_ingest_order = 1, spec_on_error = ''fail'', spec_allowed_uses = {''ai''},
      spec_allowed_countries = {''*''}, spec_default_capabilities = {}, spec_default_cost_level = ''low'',
      spec_client_profile = ''default'', spec_max_node_multiplier = None, spec_deny_name_patterns = [],
      spec_node_metadata = [], spec_name_rules = []\<rparr>"

definition demo_project :: project where
  "demo_project = \<lparr>pj_subscriptions = [demo_subscription],
     pj_pools = [\<lparr>pool_id = ''ai'', pool_display_name = ''AI'', pool_module = ''ai'', pool_source_use = ''ai'',
                  pool_regions = [''JP'']\<rparr>],
     pj_modules = [(''ai'', True)],
     pj_acl4ssr = Some \<lparr>acl_groups = [], acl_sources = [], acl_inline_rules = [], acl_final_target = None,
                        acl_final_source_use = Some ''ai''\<rparr>\<rparr>"

definition demo_name :: string where
  "demo_name = ''[AI] sub_1/JP 01 #aaaaaaaaaa''"

definition demo_routes :: runtime_graph where
  "demo_routes =
     \<lparr>rg_groups = [(''AI'', [(''proxies'', JList []), (''use'', JList [JStr ''cr_ai_jp''])])],
      rg_providers = [(''cr_ai_jp'', [(''payload'', JList [JObj [(''name'', JStr demo_name)]])])],
      rg_proxies = [(demo_name, [(''name'', JStr demo_name)])],
      rg_provider_proxies = [(''cr_ai_jp'', [demo_name])], rg_provider_dialers = [(''cr_ai_jp'', [])]\<rparr>"

definition demo_candidate :: "json dict" where
  "demo_candidate = [(''rules'', JList [JStr ''MATCH,AI''])]"

lemma demo_audit:
  "audit_reachability demo_project demo_candidate (enabled_subscriptions demo_project) demo_routes =
     Inr \<lparr>use_counts = [(''ai'', 1)], groups_checked = 1, surfaces_checked = 0, rules_checked = 1\<rparr>"
  by code_simp

theorem reachability_audit_sound_witness:
  "within_use demo_routes (enabled_subscriptions demo_project) ''AI'' ''ai''"
  using reachability_audit_sound [OF demo_audit]
  by (auto simp: demo_project_def expected_group_uses_def enabled_pools_def module_enabled_def demo_routes_def)

end
