(* ===== verification/PromotionFacts.thy ===== *)
theory PromotionFacts
  imports PromotionGuard AuditFacts
begin

text \<open>
  The promotion guard against its specification: a candidate passes exactly when it meets every
  declared minimum.  And what the baseline inventory makes of numbered subscriptions.
\<close>

section \<open>The specification\<close>

text \<open>Every declared minimum is met; a service continued from a cache is exempt, a held one blocks.\<close>

definition meets_policy :: "promotion_policy \<Rightarrow> inventory_count \<Rightarrow> inventory_count option \<Rightarrow> json \<Rightarrow> bool" where
  "meets_policy pol cand base qualification \<longleftrightarrow>
     (let av = collect_service_availability qualification;
          (cached, held) = systemic_service_states qualification in
      (\<forall>use. int_at (minimum_sources_by_use pol) use \<le> int (count_at (sources_by_use cand) use)
        \<and> int_at (minimum_nodes_by_use pol) use \<le> int (count_at (nodes_by_use cand) use)
        \<and> int_at (minimum_regions_by_use pol) use \<le> int (count_at (regions_by_use cand) use))
      \<and> held = []
      \<and> (\<forall>service. service \<notin> set cached \<longrightarrow>
          int_at (minimum_qualified_nodes_by_service pol) service \<le> int_at (qualified_nodes_by_service av) service
        \<and> int_at (minimum_qualified_regions_by_service pol) service \<le> int_at (qualified_regions_by_service av) service)
      \<and> (case base of None \<Rightarrow> True | Some b \<Rightarrow>
          \<not> float_less (capacity_ratio (inv_nodes cand) (inv_nodes b)) (minimum_total_node_ratio pol)
        \<and> \<not> float_less (capacity_ratio (inv_providers cand) (inv_providers b)) (minimum_provider_ratio pol)
        \<and> (\<forall>use t. map_of (minimum_source_ratio_by_use pol) use = Some t \<and> configured_in use b \<longrightarrow>
            \<not> float_less (source_ratio use cand b) t)))"

lemma int_at_absent: "k \<notin> set (dict_keys d) \<Longrightarrow> int_at d k = 0"
  by (simp add: int_at_def map_of_eq_None_iff [THEN iffD2] split: option.splits)

lemma concat_map_Nil: "concat (map f xs) = [] \<longleftrightarrow> (\<forall>x \<in> set xs. f x = [])"
  by (induction xs) auto

lemma if_Nil: "(if a < b then [x] else []) = [] \<longleftrightarrow> b \<le> a" for a b :: int
  by auto

lemma absolute_violations_Nil:
  "absolute_violations cand pol = [] \<longleftrightarrow>
     (\<forall>use. int_at (minimum_sources_by_use pol) use \<le> int (count_at (sources_by_use cand) use)
        \<and> int_at (minimum_nodes_by_use pol) use \<le> int (count_at (nodes_by_use cand) use)
        \<and> int_at (minimum_regions_by_use pol) use \<le> int (count_at (regions_by_use cand) use))"
  (is "_ \<longleftrightarrow> (\<forall>use. ?ok use)")
proof -
  have "absolute_violations cand pol = [] \<longleftrightarrow> (\<forall>use \<in> set (dict_keys (minimum_sources_by_use pol) @
      dict_keys (minimum_nodes_by_use pol) @ dict_keys (minimum_regions_by_use pol)). ?ok use)"
    unfolding absolute_violations_def concat_map_Nil set_sorted_set append_is_Nil_conv if_Nil ..
  also have "\<dots> \<longleftrightarrow> (\<forall>use. ?ok use)"
    unfolding set_append using int_at_absent by (metis UnI1 UnI2 of_nat_0_le_iff)
  finally show ?thesis .
qed

lemma aggregate_count_nonneg: "0 \<le> aggregate_count j"
  by (simp add: aggregate_count_def split: json.splits)

lemma service_counts_nonneg:
  "0 \<le> int_at (qualified_nodes_by_service (collect_service_availability q)) s"
  "0 \<le> int_at (qualified_regions_by_service (collect_service_availability q)) s"
  by (auto simp: collect_service_availability_def Let_def int_at_def aggregate_count_nonneg
      split: option.splits dest!: map_of_SomeD)

lemma service_violations_Nil:
  "service_violations (collect_service_availability q) pol skip = [] \<longleftrightarrow>
     (\<forall>service. service \<notin> set skip \<longrightarrow>
        int_at (minimum_qualified_nodes_by_service pol) service
          \<le> int_at (qualified_nodes_by_service (collect_service_availability q)) service
      \<and> int_at (minimum_qualified_regions_by_service pol) service
          \<le> int_at (qualified_regions_by_service (collect_service_availability q)) service)"
  (is "_ \<longleftrightarrow> (\<forall>service. service \<notin> set skip \<longrightarrow> ?ok service)")
proof -
  have "service_violations (collect_service_availability q) pol skip = [] \<longleftrightarrow>
      (\<forall>service \<in> set (filter (\<lambda>s. s \<notin> set skip) (sorted_set (dict_keys (minimum_qualified_nodes_by_service pol) @
        dict_keys (minimum_qualified_regions_by_service pol)))). ?ok service)"
    unfolding service_violations_def concat_map_Nil append_is_Nil_conv if_Nil ..
  also have "\<dots> \<longleftrightarrow> (\<forall>service. service \<notin> set skip \<longrightarrow> ?ok service)"
    unfolding set_filter set_sorted_set set_append mem_Collect_eq
    using int_at_absent service_counts_nonneg by (metis (no_types, lifting) UnI1 UnI2 mem_Collect_eq)
  finally show ?thesis .
qed

lemma mapE_Inr_nth:
  "mapE f xs = Inr ys \<Longrightarrow> concat ys = [] \<longleftrightarrow> (\<forall>x \<in> set xs. f x = Inr [])"
  by (induction xs arbitrary: ys) (auto split: sum.splits)

lemma low_source_ratios_Nil:
  assumes "low_source_ratios (minimum_source_ratio_by_use pol) pol cand base = Inr low"
  shows "low = [] \<longleftrightarrow> (\<forall>use t. map_of (minimum_source_ratio_by_use pol) use = Some t \<and> configured_in use base \<longrightarrow>
            \<not> float_less (source_ratio use cand base) t)"
proof -
  from assms obtain rows where rows: "mapE (\<lambda>use. (case map_of (minimum_source_ratio_by_use pol) use of
         None \<Rightarrow> Inl (MissingWarningRatio use)
       | Some t \<Rightarrow> Inr (if configured_in use base \<and> float_less (source_ratio use cand base) t
             then [''source_ratio:'' @ use] else []))) (sorted_set (dict_keys (minimum_source_ratio_by_use pol))) = Inr rows"
      and low: "low = concat rows"
    by (auto simp: low_source_ratios_def bindE_Inr_iff)
  have key: "use \<in> set (sorted_set (dict_keys (minimum_source_ratio_by_use pol))) \<longleftrightarrow>
      (\<exists>t. map_of (minimum_source_ratio_by_use pol) use = Some t)" for use
    by (metis map_of_eq_None_iff not_None_eq option.distinct(1) set_map set_sorted_set)
  show ?thesis
    unfolding low mapE_Inr_nth [OF rows] Ball_def key by (auto split: if_splits)
qed

section \<open>The guard implements the specification\<close>

lemma candidate_violations_Nil:
  assumes "systemic_service_states q = (cached, held)"
  shows "candidate_violations cand (collect_service_availability q) q pol = [] \<longleftrightarrow>
     absolute_violations cand pol = [] \<and> held = []
     \<and> service_violations (collect_service_availability q) pol cached = []"
proof -
  have "sorted_set held = [] \<longleftrightarrow> held = []" by (metis set_empty set_sorted_set)
  then show ?thesis by (auto simp: candidate_violations_def assms)
qed

lemma status_passed: "status_of vs = JStr ''passed'' \<longleftrightarrow> vs = []"
  by (simp add: status_of_def)

text \<open>
  C11.  The guard implements its policy: an enabled guard that returns a report passes a candidate
  exactly when the inventories it collected meet every declared minimum, absolute, per service and
  relative to the baseline; and it passes exactly when it lists no violation.
\<close>

theorem promotion_refines_policy:
  assumes "pg_enabled pol" and "assess_promotion audit p candidate baseline pol qualification = Inr report"
  shows "\<exists>cand base. collect_inventory audit p candidate = Inr cand
     \<and> (case baseline of None \<Rightarrow> base = None
         | Some b \<Rightarrow> \<exists>i. collect_baseline_inventory p b = Inr i \<and> base = Some i)
     \<and> (json_get report ''status'' = JStr ''passed'' \<longleftrightarrow> meets_policy pol cand base qualification)
     \<and> (json_get report ''status'' = JStr ''passed'' \<longleftrightarrow> json_get report ''violations'' = JList [])"
proof -
  obtain cached held where states: "systemic_service_states qualification = (cached, held)" by (cases "systemic_service_states qualification")
  let ?av = "collect_service_availability qualification"
  from assms obtain cand where cand: "collect_inventory audit p candidate = Inr cand"
    by (auto simp: assess_promotion_def bindE_Inr_iff inventory_result_def split: sum.splits)
  show ?thesis
  proof (cases baseline)
    case None
    with assms cand have "report = first_release_report pol cand ?av qualification"
      by (simp add: assess_promotion_def inventory_result_def Let_def)
    then have "json_get report ''status'' = status_of (candidate_violations cand ?av qualification pol)"
        "json_get report ''violations'' = json_strings (candidate_violations cand ?av qualification pol)"
      by (simp_all add: first_release_report_def Let_def json_get_def)
    with None cand show ?thesis
      by (auto simp: status_passed json_strings_def candidate_violations_Nil [OF states] absolute_violations_Nil
          service_violations_Nil meets_policy_def states Let_def)
  next
    case (Some b)
    with assms cand obtain base where base: "collect_baseline_inventory p b = Inr base"
        and run: "comparison_report pol cand base ?av qualification = Inr report"
      by (auto simp: assess_promotion_def inventory_result_def Let_def bindE_Inr_iff split: sum.splits)
    from run obtain low near where low: "low_source_ratios (minimum_source_ratio_by_use pol) pol cand base = Inr low"
        and "low_source_ratios (warning_source_ratio_by_use pol) pol cand base = Inr near"
      by (auto simp: comparison_report_def Let_def bindE_Inr_iff)
    let ?vs = "candidate_violations cand ?av qualification pol
        @ low_ratio ''total_node_ratio'' (capacity_ratio (inv_nodes cand) (inv_nodes base)) (minimum_total_node_ratio pol)
        @ low_ratio ''provider_ratio'' (capacity_ratio (inv_providers cand) (inv_providers base)) (minimum_provider_ratio pol) @ low"
    have "json_get report ''status'' = status_of ?vs" "json_get report ''violations'' = json_strings ?vs"
      using run low by (auto simp: comparison_report_def Let_def bindE_Inr_iff json_get_def)
    moreover have "?vs = [] \<longleftrightarrow> meets_policy pol cand (Some base) qualification"
      unfolding meets_policy_def states Let_def prod.case option.case append_is_Nil_conv
        candidate_violations_Nil [OF states] absolute_violations_Nil service_violations_Nil
        low_source_ratios_Nil [OF low]
      by (auto simp: low_ratio_def)
    ultimately show ?thesis using Some cand base by (auto simp: status_passed json_strings_def)
  qed
qed

text \<open>A candidate with one node, against a policy that asks for one node of AI use.\<close>

definition demo_policy :: promotion_policy where
  "demo_policy =
     \<lparr>pg_enabled = True, minimum_total_node_ratio = Fin (1 / 2), minimum_provider_ratio = Fin (1 / 2),
      minimum_source_ratio_by_use = [(''ai'', Fin (1 / 2))], warning_total_node_ratio = Fin (1 / 2),
      warning_provider_ratio = Fin (1 / 2), warning_source_ratio_by_use = [(''ai'', Fin (1 / 2))],
      minimum_sources_by_use = [(''ai'', 1)], minimum_nodes_by_use = [(''ai'', 1)],
      minimum_regions_by_use = [(''ai'', 1)], minimum_qualified_nodes_by_service = [],
      minimum_qualified_regions_by_service = []\<rparr>"

definition demo_document :: json where
  "demo_document = JObj [(''proxy-groups'', JList []),
     (''proxy-providers'', JObj [(''cr_ai_jp'', JObj [(''payload'', JList [JObj [(''name'', JStr demo_name)]])])])]"

definition pools_audit :: "project \<Rightarrow> json \<Rightarrow> audit_error + pool_row list" where
  "pools_audit p candidate = (case from_candidate candidate of Inl e \<Rightarrow> Inl (GraphFailure e)
     | Inr g \<Rightarrow> audit_pools p g (enabled_subscriptions p))"

definition demo_inventory :: inventory_count where
  "demo_inventory = \<lparr>inv_nodes = 1, inv_providers = 1, sources_by_use = [(''ai'', 1)],
     providers_by_use = [(''ai'', 1)], nodes_by_use = [(''ai'', 1)], regions_by_use = [(''ai'', 1)]\<rparr>"

lemma demo_collected: "collect_inventory pools_audit demo_project demo_document = Inr demo_inventory"
  by code_simp

lemma demo_first_release:
  "assess_promotion pools_audit demo_project demo_document None demo_policy JNull =
     Inr (first_release_report demo_policy demo_inventory (collect_service_availability JNull) JNull)"
  by (simp add: assess_promotion_def demo_collected inventory_result_def demo_policy_def)

lemma demo_violations: "candidate_violations demo_inventory (collect_service_availability JNull) JNull demo_policy = []"
proof -
  have none: "int_at [] k = 0" for k by (simp add: int_at_def)
  have quiet: "systemic_service_states JNull = ([], [])"
    by (simp add: systemic_service_states_def service_evidence_def mapping_of_def json_get_def)
  have "absolute_violations demo_inventory demo_policy = []"
    unfolding absolute_violations_Nil by (simp add: demo_policy_def demo_inventory_def int_at_def count_at_def)
  moreover have "service_violations (collect_service_availability JNull) demo_policy [] = []"
    unfolding service_violations_Nil demo_policy_def promotion_policy.simps none using service_counts_nonneg by blast
  ultimately show ?thesis by (simp add: candidate_violations_Nil [OF quiet])
qed

theorem promotion_refines_policy_witness: "meets_policy demo_policy demo_inventory None JNull"
proof -
  have "pg_enabled demo_policy" by (simp add: demo_policy_def)
  from promotion_refines_policy [OF this demo_first_release] demo_collected demo_violations
  show ?thesis by (auto simp: first_release_report_def Let_def json_get_def status_of_def)
qed

section \<open>Numbered subscriptions in the baseline\<close>

text \<open>A label the generator writes is never the long form of an identifier.\<close>

lemma label_not_long: "runtime_source_label i = Inr l \<Longrightarrow> long_source_number l = None"
  by (auto simp: runtime_source_label_def long_source_number_def Let_def LONG_SOURCE_PREFIX_def split: if_splits)

definition no_sources :: "inventory_state \<Rightarrow> bool" where
  "no_sources s \<longleftrightarrow> (\<forall>xs \<in> snd ` set (ist_sources s). xs = [])"

lemma snd_dict_set: "snd ` set (dict_set k v d) \<subseteq> insert v (snd ` set d)"
  by (induction k v d rule: dict_set.induct) auto

lemma no_sources_entry:
  assumes "no_sources s"
  shows "no_sources (s\<lparr>ist_sources := add_names use [] (ist_sources s)\<rparr>)"
proof -
  have "names_in (ist_sources s) use = []"
    using assms map_of_SomeD by (fastforce simp: names_in_def no_sources_def split: option.splits)
  then show ?thesis
    using assms snd_dict_set [of use "[]" "ist_sources s"] by (auto simp: no_sources_def add_names_def)
qed

lemma sizes_zero: "\<forall>xs \<in> snd ` set d. xs = [] \<Longrightarrow> count_at (sizes d) k = 0"
  by (force simp: count_at_def sizes_def split: option.splits dest!: map_of_SomeD)

lemma one_rounded: "float_round (Fin 1) 4 = Fin 1"
proof -
  have "float_of 1 = Fin (of_int (2 ^ 52) * pow2 (0 - 52))"
    by (rule float_of_eval) (simp_all add: pow2_def round_even_eqI)
  then have "float_of 1 = Fin 1" by (simp add: pow2_def)
  moreover have "round_even (10000 :: rat) = 10000" using round_even_int [of 10000] by simp
  ultimately show ?thesis by (simp add: float_round_def)
qed

text \<open>
  C34.  Where the enabled subscriptions carry canonical numbered identifiers, the baseline inventory
  counts no source for any use, whatever the published baseline holds: the labels in runtime names
  are the short forms, and they are compared with the identifiers.  Every source ratio is then one,
  so the relative source thresholds cannot block or warn.
\<close>

theorem numbered_sources_not_counted:
  assumes "from_candidate baseline = Inr g" and "collect_baseline_inventory p baseline = Inr base"
    and "\<forall>s \<in> set (pj_subscriptions p). long_source_number (spec_id s) \<noteq> None"
    and "\<forall>n \<in> set (runtime_nodes g). \<exists>i l. runtime_source_label i = Inr l \<and> parse_runtime_source_name n = Some l"
  shows "count_at (sources_by_use base) use = 0 \<and> source_ratio use cand base = Fin 1"
proof -
  have name: "no_sources t" if n: "n \<in> set (runtime_nodes g)" and "no_sources s" "count_baseline_name p u n s = Inr t" for n s t u
  proof -
    from assms(4) n obtain i l where l: "runtime_source_label i = Inr l" "parse_runtime_source_name n = Some l"
      by blast
    have "long_source_number k \<noteq> None" if "k \<in> authorized_source_ids p u" for k
      using assms(3) that by (auto simp only: authorized_source_ids_def image_iff mem_Collect_eq)
    then have "l \<notin> authorized_source_ids p u" using label_not_long [OF l(1)] by blast
    with that(3) l(2) have "t = s" by (simp add: count_baseline_name_def historical_source_label_def)
    with that(2) show ?thesis by simp
  qed
  have region: "no_sources t" if "no_sources s" "collect_baseline_region p g x r s = Inr t" for x r s t
  proof (cases "map_of (rg_provider_proxies g) (provider_name_for (pool_id x) r)")
    case None
    with that show ?thesis by (simp add: collect_baseline_region_def Let_def)
  next
    case (Some names)
    have sub: "n \<in> set (runtime_nodes g)" if "n \<in> set names" for n
      using map_of_SomeD [OF Some] that by (force simp: runtime_nodes_def)
    let ?u = "pool_source_use x"
    let ?s = "s\<lparr>ist_providers := add_count ?u 1 (ist_providers s), ist_nodes := add_count ?u (length names) (ist_nodes s),
        ist_regions := (if names \<noteq> [] then add_names ?u [r] (ist_regions s) else ist_regions s)\<rparr>"
    from that(2) Some have run: "foldE (count_baseline_name p ?u) names ?s = Inr t"
      by (simp add: collect_baseline_region_def Let_def)
    have "no_sources ?s" using that(1) by (simp add: no_sources_def)
    show ?thesis
      by (rule foldE_invariant [OF run, where P = no_sources, OF \<open>no_sources ?s\<close>]) (use sub name in blast)
  qed
  have pool: "no_sources t" if "no_sources s" "collect_baseline_pool p g x s = Inr t" for x s t
  proof -
    have "no_sources (s\<lparr>ist_sources := add_names (pool_source_use x) [] (ist_sources s),
          ist_regions := add_names (pool_source_use x) [] (ist_regions s)\<rparr>)"
      using no_sources_entry [OF that(1)] by (simp add: no_sources_def)
    from foldE_invariant [OF that(2) [unfolded collect_baseline_pool_def], where P = no_sources, OF this] region
    show ?thesis by blast
  qed
  from assms(1,2) obtain s where s: "foldE (collect_baseline_pool p g) (pj_pools p) ist_start = Inr s" "base = inventory_of g s"
    by (auto simp: collect_baseline_inventory_def inventory_graph_def bindE_Inr_iff)
  have "no_sources s"
    by (rule foldE_invariant [OF s(1)]) (use pool in \<open>auto simp: ist_start_def no_sources_def\<close>)
  then have "count_at (sources_by_use base) use = 0"
    by (simp add: s(2) inventory_of_def sizes_zero no_sources_def)
  then show ?thesis by (simp add: source_ratio_def capacity_ratio_def one_rounded)
qed

text \<open>A published document with one node of a numbered subscription.\<close>

definition demo_graph :: runtime_graph where
  "demo_graph =
     \<lparr>rg_groups = [], rg_providers = [(''cr_ai_jp'', [(''payload'', JList [JObj [(''name'', JStr demo_name)]])])],
      rg_proxies = [(demo_name, [(''name'', JStr demo_name)])],
      rg_provider_proxies = [(''cr_ai_jp'', [demo_name])], rg_provider_dialers = [(''cr_ai_jp'', [])]\<rparr>"

definition demo_baseline :: inventory_count where
  "demo_baseline = demo_inventory\<lparr>sources_by_use := [(''ai'', 0)]\<rparr>"

lemma demo_published:
  "from_candidate demo_document = Inr demo_graph"
  "collect_baseline_inventory demo_project demo_document = Inr demo_baseline"
  "list_all (\<lambda>s. long_source_number (spec_id s) \<noteq> None) (pj_subscriptions demo_project)"
  "list_all (\<lambda>n. parse_runtime_source_name n = Some ''sub_1'') (runtime_nodes demo_graph)"
  "runtime_source_label ''subscription_1'' = Inr ''sub_1''"
  by code_simp+

theorem numbered_sources_not_counted_witness:
  "nodes_by_use demo_baseline = [(''ai'', 1)] \<and> source_ratio ''ai'' demo_inventory demo_baseline = Fin 1"
proof -
  have "source_ratio ''ai'' demo_inventory demo_baseline = Fin 1"
    by (rule numbered_sources_not_counted [OF demo_published(1,2), THEN conjunct2])
      (use demo_published(3-5) in \<open>auto simp: list_all_iff\<close>)
  then show ?thesis by (simp add: demo_baseline_def demo_inventory_def)
qed

end
