(* ===== verification/YamlValue.thy ===== *)
theory YamlValue
  imports PyUnicode JsonValues
begin

text \<open>
  Values as the YAML loader constructs them, and the guards of \<^verbatim>\<open>util.py\<close> over them.  A mapping has
  arbitrary scalar keys; \<open>YOther\<close> stands for the remaining scalars (dates, bytes) by their text.
\<close>

datatype yaml =
    YNull
  | YBool bool
  | YInt int
  | YFloat pyfloat
  | YStr string
  | YOther string
  | YList "yaml list"
  | YTuple "yaml list"
  | YSet "yaml list"
  | YMap "(yaml \<times> yaml) list"

text \<open>\<^verbatim>\<open>value.get(key)\<close>, \<^verbatim>\<open>key in value\<close> for a string key of a mapping.\<close>

definition ymap_get :: "(yaml \<times> yaml) list \<Rightarrow> string \<Rightarrow> yaml" where
  "ymap_get d k = (case map_of d (YStr k) of Some v \<Rightarrow> v | None \<Rightarrow> YNull)"

definition ymap_has :: "(yaml \<times> yaml) list \<Rightarrow> string \<Rightarrow> bool" where
  "ymap_has d k \<longleftrightarrow> map_of d (YStr k) \<noteq> None"

section \<open>Characters\<close>

definition yaml_character_is_portable :: "nat \<Rightarrow> bool" where
  "yaml_character_is_portable p \<longleftrightarrow>
     p \<in> {9, 10, 13} \<or> (32 \<le> p \<and> p \<le> 126) \<or> p = 133 \<or> (160 \<le> p \<and> p \<le> 55295)
     \<or> (57344 \<le> p \<and> p \<le> 65533) \<or> (65536 \<le> p \<and> p \<le> 1114111)"

definition portable_text :: "string \<Rightarrow> bool" where
  "portable_text s \<longleftrightarrow> list_all yaml_character_is_portable (points_of s)"

text \<open>The search visits every text of the tree; the order of its stack does not matter for the verdict.\<close>

fun contains_control :: "yaml \<Rightarrow> bool" where
  "contains_control (YStr s) = (\<not> portable_text s)"
| "contains_control (YMap d) = list_ex (\<lambda>(k, v). contains_control k \<or> contains_control v) d"
| "contains_control (YList xs) = list_ex contains_control xs"
| "contains_control (YTuple xs) = list_ex contains_control xs"
| "contains_control (YSet xs) = list_ex contains_control xs"
| "contains_control _ = False"

section \<open>Bounded structures\<close>

datatype size_error = TooManyValues | NestedTooDeeply

text \<open>What an entry of the stack adds to it: the keys, then the values; the last one is taken first.\<close>

definition guard_children :: "yaml \<Rightarrow> yaml list" where
  "guard_children v = (case v of YMap d \<Rightarrow> map fst d @ map snd d | YList xs \<Rightarrow> xs | YTuple xs \<Rightarrow> xs | _ \<Rightarrow> [])"

lemma size_guard_children: "sum_list (map (\<lambda>c. Suc (size c)) (guard_children v)) \<le> size v"
proof -
  have "sum_list (map (\<lambda>c. Suc (size c)) (map fst d @ map snd d)) = size_list (size_prod size size) d" for d :: "(yaml \<times> yaml) list"
    by (induction d) auto
  moreover have "sum_list (map (\<lambda>c. Suc (size c)) xs) = size_list size xs" for xs :: "yaml list"
    by (induction xs) auto
  ultimately show ?thesis by (cases v) (simp_all add: guard_children_def)
qed

function guard_loop :: "nat \<Rightarrow> nat \<Rightarrow> nat \<Rightarrow> (yaml \<times> nat) list \<Rightarrow> size_error + unit" where
  "guard_loop max_depth max_items count [] = Inr ()"
| "guard_loop max_depth max_items count ((v, depth) # stack) =
     (if Suc count > max_items then Inl TooManyValues
      else if depth > max_depth then Inl NestedTooDeeply
      else guard_loop max_depth max_items (Suc count)
             (map (\<lambda>c. (c, Suc depth)) (rev (guard_children v)) @ stack))"
  by pat_completeness auto
termination
proof (relation "measure (\<lambda>(_, _, _, stack). sum_list (map (\<lambda>e. Suc (size (fst e))) stack))", goal_cases)
  case (2 max_depth max_items count v depth stack)
  then show ?case using size_guard_children [of v] by (simp add: comp_def rev_map [symmetric])
qed simp

definition deep_size_guard :: "nat \<Rightarrow> nat \<Rightarrow> yaml \<Rightarrow> size_error + unit" where
  "deep_size_guard max_depth max_items v = guard_loop max_depth max_items 0 [(v, 0)]"

section \<open>JSON text of a tree\<close>

text \<open>
  Whether \<^verbatim>\<open>json.dumps(value, sort_keys=True)\<close> accepts a tree: sorting compares all keys of a mapping
  with one another, and a key must be a scalar that JSON can name.
\<close>

definition number_key :: "yaml \<Rightarrow> bool" where
  "number_key k = (case k of YInt _ \<Rightarrow> True | YFloat _ \<Rightarrow> True | YBool _ \<Rightarrow> True | _ \<Rightarrow> False)"

definition string_key :: "yaml \<Rightarrow> bool" where
  "string_key k = (case k of YStr _ \<Rightarrow> True | _ \<Rightarrow> False)"

definition json_keys :: "yaml list \<Rightarrow> bool" where
  "json_keys ks \<longleftrightarrow> list_all string_key ks \<or> list_all number_key ks \<or> ks = [YNull]"

fun json_representable :: "yaml \<Rightarrow> bool" where
  "json_representable (YMap d) = (json_keys (map fst d) \<and> list_all (\<lambda>(k, v). json_representable v) d)"
| "json_representable (YList xs) = list_all json_representable xs"
| "json_representable (YTuple xs) = list_all json_representable xs"
| "json_representable (YSet xs) = False"
| "json_representable (YOther s) = False"
| "json_representable _ = True"

end
