(* ===== verification/SubscriptionParser.thy ===== *)
theory SubscriptionParser
  imports YamlValue NetworkAddress
begin

text \<open>
  \<^verbatim>\<open>subscription_parser.py\<close>: untrusted subscription text becomes a list of sanitised proxies.  The YAML
  library, the base64 decoder and the parser of share links are arguments, as are the operations of
  \<^verbatim>\<open>str\<close> that need the Unicode database.
\<close>

record text_library =
  py_lower :: "string \<Rightarrow> string"
  py_repr :: "string \<Rightarrow> string"
  py_isdigit :: "string \<Rightarrow> bool"
  py_int :: "string \<Rightarrow> int option"

text \<open>The libraries that read a payload; \<open>link\<close> is \<^verbatim>\<open>parse_proxy_uri\<close> with the text of its exception.\<close>

datatype yaml_failure = DuplicateKey | InvalidYaml

record payload_library =
  yaml_scan :: "string \<Rightarrow> bool list \<times> bool"
  yaml_construct :: "string \<Rightarrow> yaml_failure + yaml"
  base64_decode :: "string \<Rightarrow> bytes option"
  share_link :: "string \<Rightarrow> string + yaml"

datatype parse_error =
    ProxyNotMapping
  | NonStringKey
  | SizeFailure size_error
  | ControlCharacters
  | NoValidName
  | NoType string
  | UnsupportedType string string
  | NoValidServer string
  | NoValidPort string
  | PortText
  | PrivateHost string
  | Unhashable
  | MissingField string string
  | MalformedOptions string string
  | UnsupportedValues string
  | LinkFailure string

definition ALLOWED_PROXY_TYPES :: "string list" where
  "ALLOWED_PROXY_TYPES = [''ss'', ''ssr'', ''vmess'', ''vless'', ''trojan'', ''http'', ''socks5'', ''snell'', ''hysteria'',
     ''hysteria2'', ''tuic'', ''anytls'', ''wireguard'', ''ssh'', ''mieru'', ''masque'']"

definition FORBIDDEN_FIELDS :: "string list" where
  "FORBIDDEN_FIELDS = [''dialer-proxy'', ''interface-name'', ''interface'', ''bind-interface'', ''routing-mark'',
     ''routing_mark'', ''fwmark'', ''mark'']"

definition REQUIRED_FIELDS :: "string list dict" where
  "REQUIRED_FIELDS =
     [(''ss'', [''cipher'', ''password'']), (''ssr'', [''cipher'', ''password'', ''protocol'', ''obfs'']), (''vmess'', [''uuid'']),
      (''vless'', [''uuid'']), (''trojan'', [''password'']), (''hysteria'', [''auth-str'']), (''hysteria2'', [''password'']),
      (''tuic'', [''uuid'', ''password'']), (''anytls'', [''password''])]"

definition required_fields :: "string \<Rightarrow> string list" where
  "required_fields t = (case map_of REQUIRED_FIELDS t of Some fs \<Rightarrow> fs | None \<Rightarrow> [])"

definition MAX_PROXIES :: nat where "MAX_PROXIES = 20000"

definition SUPPORTED_URI_PREFIXES :: "string list" where
  "SUPPORTED_URI_PREFIXES = [''ss://'', ''ssr://'', ''vmess://'', ''vless://'', ''trojan://'', ''hysteria://'', ''hysteria2://'',
     ''hy2://'', ''tuic://'', ''anytls://'', ''socks://'', ''socks5://'', ''http://'', ''https://'']"

section \<open>Texts\<close>

text \<open>\<^verbatim>\<open>_URI_LINE.fullmatch(line)\<close>: a scheme, \<^verbatim>\<open>://\<close>, and at least one character, none of them white space.\<close>

definition uri_scheme_char :: "char \<Rightarrow> bool" where
  "uri_scheme_char c \<longleftrightarrow> is_lower c \<or> is_upper c \<or> is_digit c \<or> c \<in> {CHR ''+'', CHR ''.'', CHR ''-''}"

definition uri_line :: "string \<Rightarrow> bool" where
  "uri_line s = (case s of [] \<Rightarrow> False | c # t \<Rightarrow>
     (is_lower c \<or> is_upper c)
     \<and> (let rest = dropWhile uri_scheme_char t in
        starts_with ''://'' rest \<and> drop 3 rest \<noteq> [] \<and> list_all (\<lambda>p. \<not> point_space p) (points_of (drop 3 rest))))"

section \<open>One proxy\<close>

text \<open>\<^verbatim>\<open>_private_host\<close>; an address in text that \<^verbatim>\<open>ipaddress\<close> does not read is a name.\<close>

definition private_host :: "text_library \<Rightarrow> string \<Rightarrow> bool" where
  "private_host lib host =
     (let a = rstrip_on CHR ''.'' (py_lower lib host);
          b = (if starts_with ''['' a \<and> ends_with '']'' a then butlast (tl a) else a) in
      if b \<in> {''localhost'', ''localhost.localdomain''} \<or> ends_with ''.localhost'' b then True
      else (case ip_address (Literal b) of None \<Rightarrow> False | Some address \<Rightarrow> classify_address address \<noteq> GLOBAL))"

definition sanitize_field :: "yaml \<times> yaml \<Rightarrow> yaml dict \<Rightarrow> parse_error + yaml dict" where
  "sanitize_field entry cleaned = (case entry of (raw, v) \<Rightarrow> (case raw of
     YStr raw_key \<Rightarrow>
       (let key = py_strip raw_key in
        Inr (if key \<in> set FORBIDDEN_FIELDS then cleaned
             else if ends_with ''-opts'' key \<and> v = YNull then cleaned
             else dict_set key v cleaned))
   | _ \<Rightarrow> Inl NonStringKey))"

definition sanitize_mapping :: "(yaml \<times> yaml) list \<Rightarrow> parse_error + yaml dict" where
  "sanitize_mapping d = foldE sanitize_field d []"

definition field :: "yaml dict \<Rightarrow> string \<Rightarrow> yaml" where
  "field d k = (case map_of d k of Some v \<Rightarrow> v | None \<Rightarrow> YNull)"

definition as_map :: "yaml dict \<Rightarrow> yaml" where
  "as_map d = YMap (map (\<lambda>(k, v). (YStr k, v)) d)"

text \<open>\<^verbatim>\<open>isinstance(value, dict)\<close>\<close>

definition is_map :: "yaml \<Rightarrow> bool" where
  "is_map v = (case v of YMap _ \<Rightarrow> True | _ \<Rightarrow> False)"

definition check_options :: "string \<Rightarrow> string \<times> yaml \<Rightarrow> parse_error + unit" where
  "check_options name entry = (case entry of (key, v) \<Rightarrow>
     if ends_with ''-opts'' key \<and> \<not> is_map v then Inl (MalformedOptions name key) else Inr ())"

definition validate_structured_options :: "string \<Rightarrow> yaml dict \<Rightarrow> parse_error + unit" where
  "validate_structured_options name d = foldE (\<lambda>e _. check_options name e) d ()"

text \<open>The port: decimal digits in a string are read, everything but an integer in range is rejected.\<close>

definition valid_port :: "string \<Rightarrow> yaml \<Rightarrow> parse_error + int" where
  "valid_port name v = (case v of YInt n \<Rightarrow> if 1 \<le> n \<and> n \<le> 65535 then Inr n else Inl (NoValidPort name)
     | _ \<Rightarrow> Inl (NoValidPort name))"

definition read_port :: "text_library \<Rightarrow> string \<Rightarrow> yaml \<Rightarrow> parse_error + int" where
  "read_port lib name v = (case v of
     YStr s \<Rightarrow> if py_isdigit lib s then (case py_int lib s of None \<Rightarrow> Inl PortText | Some n \<Rightarrow> valid_port name (YInt n))
       else Inl (NoValidPort name)
   | _ \<Rightarrow> valid_port name v)"

text \<open>\<^verbatim>\<open>value in {None, ""}\<close>: a list or a mapping cannot be hashed.\<close>

fun hashable :: "yaml \<Rightarrow> bool" where
  "hashable (YTuple xs) = list_all hashable xs"
| "hashable (YList xs) = False"
| "hashable (YSet xs) = False"
| "hashable (YMap d) = False"
| "hashable _ = True"

definition check_required :: "yaml dict \<Rightarrow> string \<Rightarrow> string \<Rightarrow> parse_error + unit" where
  "check_required d name f = (case field d f of
     YNull \<Rightarrow> Inl (MissingField name f)
   | YStr s \<Rightarrow> if s = [] then Inl (MissingField name f) else Inr ()
   | v \<Rightarrow> if hashable v then Inr () else Inl Unhashable)"

definition valid_name :: "yaml \<Rightarrow> parse_error + string" where
  "valid_name v = (case v of
     YStr s \<Rightarrow> if py_strip s = [] \<or> 256 < length (points_of s) then Inl NoValidName else Inr s
   | _ \<Rightarrow> Inl NoValidName)"

definition valid_type :: "text_library \<Rightarrow> string \<Rightarrow> yaml \<Rightarrow> parse_error + string" where
  "valid_type lib name v = (case v of
     YStr s \<Rightarrow> (let t = py_strip (py_lower lib s) in
       if t \<notin> set ALLOWED_PROXY_TYPES then Inl (UnsupportedType name t) else Inr t)
   | _ \<Rightarrow> Inl (NoType name))"

definition valid_server :: "string \<Rightarrow> yaml \<Rightarrow> parse_error + string" where
  "valid_server name v = (case v of
     YStr s \<Rightarrow> (let t = py_strip s in
       if t = [] \<or> 253 < length (points_of t) then Inl (NoValidServer name) else Inr t)
   | _ \<Rightarrow> Inl (NoValidServer name))"

definition validate_proxy :: "text_library \<Rightarrow> bool \<Rightarrow> yaml \<Rightarrow> parse_error + yaml dict" where
  "validate_proxy lib reject_private_hosts item = (case item of
     YMap d \<Rightarrow>
       (case deep_size_guard 12 5000 item of Inl e \<Rightarrow> Inl (SizeFailure e) | Inr _ \<Rightarrow>
       bindE (sanitize_mapping d) (\<lambda>cleaned.
       if contains_control (as_map cleaned) then Inl ControlCharacters
       else bindE (valid_name (field cleaned ''name'')) (\<lambda>name.
       bindE (valid_type lib name (field cleaned ''type'')) (\<lambda>proxy_type.
       bindE (valid_server name (field cleaned ''server'')) (\<lambda>server.
       bindE (read_port lib name (field cleaned ''port'')) (\<lambda>port.
       if reject_private_hosts \<and> private_host lib server then Inl (PrivateHost name)
       else bindE (foldE (\<lambda>f _. check_required cleaned name f) (required_fields proxy_type) ()) (\<lambda>_.
       bindE (validate_structured_options name cleaned) (\<lambda>_.
       let result = dict_set ''port'' (YInt port) (dict_set ''server'' (YStr server)
             (dict_set ''type'' (YStr proxy_type) (dict_set ''name'' (YStr (py_strip name)) cleaned))) in
       if json_representable (as_map result) then Inr result else Inl (UnsupportedValues name)))))))))
   | _ \<Rightarrow> Inl ProxyNotMapping)"

section \<open>Reasons\<close>

text \<open>The texts of the exceptions; \<open>Unhashable\<close> and \<open>PortText\<close> carry a text of the interpreter.\<close>

definition size_text :: "size_error \<Rightarrow> string" where
  "size_text e = (case e of
     TooManyValues \<Rightarrow> ''subscription structure contains too many values''
   | NestedTooDeeply \<Rightarrow> ''subscription structure is nested too deeply'')"

definition error_text :: "text_library \<Rightarrow> parse_error \<Rightarrow> string" where
  "error_text lib e = (let r = py_repr lib in case e of
     ProxyNotMapping \<Rightarrow> ''proxy entry must be a mapping''
   | NonStringKey \<Rightarrow> ''proxy fields must use string keys''
   | SizeFailure x \<Rightarrow> size_text x
   | ControlCharacters \<Rightarrow> ''proxy contains YAML-incompatible control characters''
   | NoValidName \<Rightarrow> ''proxy has no valid name''
   | NoType name \<Rightarrow> ''proxy '' @ r name @ '' has no type''
   | UnsupportedType name t \<Rightarrow> ''proxy '' @ r name @ '' uses unsupported type '' @ r t
   | NoValidServer name \<Rightarrow> ''proxy '' @ r name @ '' has no valid server''
   | NoValidPort name \<Rightarrow> ''proxy '' @ r name @ '' has no valid port''
   | PortText \<Rightarrow> ''invalid literal for int()''
   | PrivateHost name \<Rightarrow> ''proxy '' @ r name @ '' targets a private or special-use host''
   | Unhashable \<Rightarrow> ''unhashable type''
   | MissingField name f \<Rightarrow> ''proxy '' @ r name @ '' lacks required field '' @ r f
   | MalformedOptions name k \<Rightarrow> ''proxy '' @ r name @ '' has malformed structured option field '' @ r k
   | UnsupportedValues name \<Rightarrow> ''proxy '' @ r name @ '' contains unsupported values''
   | LinkFailure t \<Rightarrow> t)"

definition invalid_proxy_reason :: "string \<Rightarrow> string" where
  "invalid_proxy_reason message =
     (if starts_with ''unsupported proxy URI scheme'' message then ''unknown_uri_scheme''
      else if list_ex (\<lambda>marker. has_part marker message)
          [''unsupported URI parameter'', ''unsupported TLS setting'', ''unsupported transport'', ''unsupported path'']
        then ''unsupported_uri_parameter''
      else if has_part ''invalid port'' message \<or> has_part ''valid port'' message then ''invalid_port''
      else if has_part ''no password'' message \<or> has_part ''no UUID'' message
          \<or> has_part ''requires UUID and password'' message then ''invalid_auth''
      else if has_part ''URI'' message \<or> has_part ''base64'' message then ''malformed_uri''
      else if message = ''proxy entry must be a mapping'' then ''invalid_entry''
      else if message = ''proxy fields must use string keys'' then ''invalid_fields''
      else if message = ''proxy contains YAML-incompatible control characters'' then ''yaml_control_characters''
      else if ends_with ''has no valid name'' message then ''invalid_name''
      else if ends_with ''has no type'' message then ''missing_type''
      else if has_part '' uses unsupported type '' message then ''unsupported_type''
      else if ends_with ''has no valid server'' message then ''invalid_server''
      else if ends_with ''has no valid port'' message then ''invalid_port''
      else if ends_with ''targets a private or special-use host'' message then ''private_host''
      else if has_part '' lacks required field '' message then ''missing_required_field''
      else if has_part '' has malformed structured option field '' message then ''malformed_options''
      else if ends_with ''contains unsupported values'' message then ''unsupported_values''
      else ''other_invalid'')"

section \<open>The payload\<close>

datatype subscription_error =
    UnsafeDocument
  | InvalidDocument
  | ProxiesNotList
  | ProvidersNotMapping
  | ProviderNotMapping
  | ProviderPayloadNotList
  | PayloadSize size_error
  | EncodingTooDeep
  | TooManyProxies
  | GarbageLine
  | InvalidLink string
  | NotASubscription
  | NoProgress
  | UnsupportedPolicy
  | InvalidProxies "(nat \<times> parse_error) list" nat

text \<open>
  \<^verbatim>\<open>yaml_load_no_aliases\<close> for untrusted text: the scan gives, token by token, whether it is an anchor
  or an alias, and whether it ends with an error.
\<close>

definition yaml_load_no_aliases :: "payload_library \<Rightarrow> string \<Rightarrow> subscription_error + yaml" where
  "yaml_load_no_aliases lib s =
     (if CHR 0x00 \<in> set s then Inl UnsafeDocument
      else (case yaml_scan lib s of (tokens, failed) \<Rightarrow>
        if list_ex (\<lambda>alias. alias) tokens then Inl UnsafeDocument
        else if failed then Inl InvalidDocument
        else (case yaml_construct lib s of Inr v \<Rightarrow> Inr v
          | Inl DuplicateKey \<Rightarrow> Inl UnsafeDocument | Inl InvalidYaml \<Rightarrow> Inl InvalidDocument)))"

definition provider_payload :: "yaml \<times> yaml \<Rightarrow> subscription_error + yaml list" where
  "provider_payload entry = (case snd entry of
     YMap p \<Rightarrow>
       if ymap_get p ''type'' \<noteq> YStr ''inline'' then Inr []
       else (case ymap_get p ''payload'' of YList xs \<Rightarrow> Inr xs | _ \<Rightarrow> Inl ProviderPayloadNotList)
   | _ \<Rightarrow> Inl ProviderNotMapping)"

definition top_level_proxies :: "(yaml \<times> yaml) list \<Rightarrow> subscription_error + yaml list" where
  "top_level_proxies d =
     (if ymap_has d ''proxies'' then (case ymap_get d ''proxies'' of YList xs \<Rightarrow> Inr xs | _ \<Rightarrow> Inl ProxiesNotList)
      else Inr [])"

definition provider_proxies_of :: "(yaml \<times> yaml) list \<Rightarrow> subscription_error + yaml list" where
  "provider_proxies_of d = (case ymap_get d ''proxy-providers'' of
     YNull \<Rightarrow> Inr []
   | YMap ps \<Rightarrow> bindE (mapE provider_payload ps) (\<lambda>xss. Inr (concat xss))
   | _ \<Rightarrow> Inl ProvidersNotMapping)"

definition extract_yaml_proxies :: "yaml \<Rightarrow> subscription_error + yaml list option" where
  "extract_yaml_proxies v = (case v of
     YList xs \<Rightarrow> Inr (Some xs)
   | YMap d \<Rightarrow>
       bindE (top_level_proxies d) (\<lambda>xs.
       bindE (provider_proxies_of d) (\<lambda>ys.
         Inr (if xs @ ys \<noteq> [] \<or> ymap_has d ''proxies'' \<or> ymap_get d ''proxy-providers'' \<noteq> YNull
              then Some (xs @ ys) else None)))
   | _ \<Rightarrow> Inr None)"

text \<open>\<^verbatim>\<open>"\r\n"\<close> and \<^verbatim>\<open>"\r"\<close> become \<^verbatim>\<open>"\n"\<close>.\<close>

fun plain_newlines :: "string \<Rightarrow> string" where
  "plain_newlines [] = []"
| "plain_newlines (c # s) =
     (if c = CHR 0x0D then CHR 0x0A # (case s of d # t \<Rightarrow> if d = CHR 0x0A then plain_newlines t else plain_newlines s | [] \<Rightarrow> [])
      else c # plain_newlines s)"

definition uri_lines :: "string \<Rightarrow> string list" where
  "uri_lines s = map py_strip (filter (\<lambda>line. py_strip line \<noteq> [] \<and> \<not> starts_with ''#'' (py_lstrip line))
     (split_on CHR 0x0A (plain_newlines s)))"

definition remote_provider :: "yaml \<times> yaml \<Rightarrow> bool" where
  "remote_provider entry = (case snd entry of YMap p \<Rightarrow> ymap_get p ''type'' \<noteq> YStr ''inline'' | _ \<Rightarrow> False)"

definition empty_yaml_payload_shape :: "yaml \<Rightarrow> string" where
  "empty_yaml_payload_shape v = (case v of
     YList _ \<Rightarrow> ''yaml_empty_list''
   | YMap d \<Rightarrow>
       (if (case ymap_get d ''proxy-providers'' of YMap ps \<Rightarrow> ps \<noteq> [] \<and> ymap_get d ''proxies'' \<in> {YNull, YList []}
              \<and> list_all remote_provider ps | _ \<Rightarrow> False)
        then ''remote_provider_only''
        else if ymap_has d ''proxies'' \<and> ymap_get d ''proxies'' = YList [] \<and> ymap_get d ''proxy-providers'' = YNull
          then ''yaml_empty_proxies''
        else ''yaml_empty_inventory'')
   | _ \<Rightarrow> ''yaml_empty_inventory'')"

text \<open>The entries of a payload, its shape when empty, and how many lines were skipped for which reason.\<close>

record payload =
  pl_entries :: "yaml list"
  pl_shape :: "string option"
  pl_skipped :: nat
  pl_reasons :: "nat dict"

definition count_reason :: "string \<Rightarrow> nat dict \<Rightarrow> nat dict" where
  "count_reason r d = dict_set r (Suc (case map_of d r of Some n \<Rightarrow> n | None \<Rightarrow> 0)) d"

definition reason_total :: "nat dict \<Rightarrow> nat" where
  "reason_total d = sum_list (map snd d)"

text \<open>One line of a list of links; \<open>strict\<close> is the policy \<^verbatim>\<open>error\<close>.\<close>

definition read_line :: "payload_library \<Rightarrow> bool \<Rightarrow> string \<Rightarrow> yaml list \<times> nat dict \<Rightarrow> subscription_error + yaml list \<times> nat dict"
where
  "read_line lib strict line acc = (case acc of (entries, reasons) \<Rightarrow>
     if \<not> uri_line line then
       (if strict then Inl GarbageLine else Inr (entries, count_reason ''garbage_uri_line'' reasons))
     else (case share_link lib line of
         Inr v \<Rightarrow> Inr (entries @ [v], reasons)
       | Inl message \<Rightarrow>
           if strict then Inl (InvalidLink (invalid_proxy_reason message))
           else Inr (entries, count_reason (invalid_proxy_reason message) reasons)))"

definition uri_candidate :: "text_library \<Rightarrow> string list \<Rightarrow> bool" where
  "uri_candidate t lines \<longleftrightarrow>
     list_ex (\<lambda>line. list_ex (\<lambda>p. starts_with p (py_lower t line)) SUPPORTED_URI_PREFIXES) lines
     \<or> (lines \<noteq> [] \<and> list_all uri_line lines)"

definition read_lines :: "payload_library \<Rightarrow> bool \<Rightarrow> string list \<Rightarrow> subscription_error + payload" where
  "read_lines lib strict lines =
     (if MAX_PROXIES < length lines then Inl TooManyProxies
      else bindE (foldE (read_line lib strict) lines ([], [])) (\<lambda>(entries, reasons).
        Inr \<lparr>pl_entries = entries, pl_shape = None, pl_skipped = reason_total reasons, pl_reasons = reasons\<rparr>))"

text \<open>\<^verbatim>\<open>decode_base64_text\<close>: white space is dropped, the URL alphabet and missing padding are accepted, a byte-order mark is skipped.\<close>

definition base64_text :: "string \<Rightarrow> string" where
  "base64_text s =
     (let t = map (\<lambda>c. if c = CHR ''-'' then CHR ''+'' else if c = CHR ''_'' then CHR ''/'' else c) (without_space (py_strip s)) in
      t @ replicate ((4 - length (points_of t) mod 4) mod 4) CHR ''='')"

definition decode_base64_text :: "payload_library \<Rightarrow> string \<Rightarrow> string option" where
  "decode_base64_text lib s = (case base64_decode lib (base64_text s) of
     None \<Rightarrow> None
   | Some b \<Rightarrow> (let c = (if take 3 b = utf8_encode 65279 then drop 3 b else b) in
       if valid_utf8 c then Some c else None))"

text \<open>What a document gives when it is one; \<open>None\<close> sends the text on to the other forms.\<close>

definition read_document :: "payload_library \<Rightarrow> string \<Rightarrow> subscription_error + payload option" where
  "read_document lib s = (case yaml_load_no_aliases lib s of
     Inl InvalidDocument \<Rightarrow> Inr None
   | Inl e \<Rightarrow> Inl e
   | Inr v \<Rightarrow> (case deep_size_guard 20 100000 v of
       Inl e \<Rightarrow> Inl (PayloadSize e)
     | Inr _ \<Rightarrow> bindE (extract_yaml_proxies v) (\<lambda>extracted. Inr (case extracted of
           None \<Rightarrow> None
         | Some xs \<Rightarrow> Some \<lparr>pl_entries = xs,
             pl_shape = (if xs = [] then Some (empty_yaml_payload_shape v) else None), pl_skipped = 0, pl_reasons = []\<rparr>))))"

function parse_payload ::
  "text_library \<Rightarrow> payload_library \<Rightarrow> bool \<Rightarrow> nat \<Rightarrow> string \<Rightarrow> subscription_error + payload" where
  "parse_payload t lib strict depth s =
     (if 2 < depth then Inl EncodingTooDeep
      else let stripped = py_strip s in
      if stripped = [] then Inr \<lparr>pl_entries = [], pl_shape = Some ''empty_text'', pl_skipped = 0, pl_reasons = []\<rparr>
      else (case read_document lib stripped of
        Inl e \<Rightarrow> Inl e
      | Inr (Some payload) \<Rightarrow> Inr payload
      | Inr None \<Rightarrow>
          (let lines = uri_lines stripped in
           if uri_candidate t lines then read_lines lib strict lines
           else (case decode_base64_text lib stripped of
               None \<Rightarrow> Inl NotASubscription
             | Some decoded \<Rightarrow>
                 if py_strip decoded = stripped then Inl NoProgress
                 else parse_payload t lib strict (Suc depth) decoded))))"
  by pat_completeness auto
termination by (relation "measure (\<lambda>(_, _, _, depth, _). 3 - depth)") auto

section \<open>The subscription\<close>

record parsed_subscription =
  ps_proxies :: "yaml dict list"
  ps_skipped :: nat
  ps_reasons :: "nat dict"
  ps_empty_shape :: "string option"

text \<open>\<^verbatim>\<open>valid\<close>, \<^verbatim>\<open>errors\<close> with their positions, and what was skipped.\<close>

record entry_scan =
  es_valid :: "yaml dict list"
  es_errors :: "(nat \<times> parse_error) list"
  es_skipped :: nat
  es_reasons :: "nat dict"

definition scan_entry :: "text_library \<Rightarrow> bool \<Rightarrow> bool \<Rightarrow> entry_scan \<Rightarrow> nat \<times> yaml \<Rightarrow> entry_scan" where
  "scan_entry t strict reject_private_hosts s entry = (case entry of (i, item) \<Rightarrow>
     (case validate_proxy t reject_private_hosts item of
        Inr proxy \<Rightarrow> s\<lparr>es_valid := es_valid s @ [proxy]\<rparr>
      | Inl e \<Rightarrow> if strict then s\<lparr>es_errors := es_errors s @ [(Suc i, e)]\<rparr>
          else s\<lparr>es_skipped := Suc (es_skipped s),
                 es_reasons := count_reason (invalid_proxy_reason (error_text t e)) (es_reasons s)\<rparr>))"

definition scan_entries :: "text_library \<Rightarrow> bool \<Rightarrow> bool \<Rightarrow> payload \<Rightarrow> entry_scan" where
  "scan_entries t strict reject_private_hosts p =
     foldl (scan_entry t strict reject_private_hosts)
       \<lparr>es_valid = [], es_errors = [], es_skipped = pl_skipped p, es_reasons = pl_reasons p\<rparr> (enumerate 0 (pl_entries p))"

definition parse_subscription ::
  "text_library \<Rightarrow> payload_library \<Rightarrow> string \<Rightarrow> bool \<Rightarrow> string \<Rightarrow> subscription_error + parsed_subscription" where
  "parse_subscription t lib invalid_policy reject_private_hosts s =
     (if invalid_policy \<notin> {''error'', ''skip''} then Inl UnsupportedPolicy
      else let strict = (invalid_policy = ''error'') in
      bindE (parse_payload t lib strict 0 s) (\<lambda>p.
      if MAX_PROXIES < length (pl_entries p) then Inl TooManyProxies
      else let scan = scan_entries t strict reject_private_hosts p in
      if es_errors scan \<noteq> [] then Inl (InvalidProxies (take 10 (es_errors scan)) (length (es_errors scan) - 10))
      else Inr \<lparr>ps_proxies = es_valid scan, ps_skipped = es_skipped scan,
                ps_reasons = sort_dict (es_reasons scan),
                ps_empty_shape = (if pl_entries p = [] then pl_shape p else None)\<rparr>))"

end
