(* ===== verification/SubscriptionFacts.thy ===== *)
theory SubscriptionFacts
  imports SubscriptionParser "HOL-Library.Multiset"
begin

text \<open>
  What the subscription parser guarantees of the proxies it lets through: they are well formed, they
  are a fixed point of validation, and no entry is lost without being counted.
\<close>

section \<open>The size guard\<close>

function value_count :: "yaml \<Rightarrow> nat" where
  "value_count v = Suc (sum_list (map value_count (guard_children v)))"
  by pat_completeness auto
termination
proof (relation "measure size", goal_cases)
  case (2 v c)
  then have "Suc (size c) \<le> sum_list (map (\<lambda>c. Suc (size c)) (guard_children v))"
    by (intro member_le_sum_list) auto
  with size_guard_children [of v] show ?case by simp
qed simp

function within_depth :: "nat \<Rightarrow> yaml \<Rightarrow> bool" where
  "within_depth n v = (\<forall>c \<in> set (guard_children v). 0 < n \<and> within_depth (n - 1) c)"
  by pat_completeness auto
termination
proof (relation "measure (\<lambda>(_, v). size v)", goal_cases)
  case (2 n v c)
  then have "Suc (size c) \<le> sum_list (map (\<lambda>c. Suc (size c)) (guard_children v))"
    by (intro member_le_sum_list) auto
  with size_guard_children [of v] show ?case by simp
qed simp

declare value_count.simps [simp del] within_depth.simps [simp del] guard_loop.simps(2) [simp del] parse_payload.simps [simp del]

lemma guard_loop_exact:
  "guard_loop max_depth max_items n stack = Inr () \<longleftrightarrow>
     (stack = [] \<or> n + sum_list (map (value_count \<circ> fst) stack) \<le> max_items)
     \<and> (\<forall>(v, depth) \<in> set stack. depth \<le> max_depth \<and> within_depth (max_depth - depth) v)"
proof (induction max_depth max_items n stack rule: guard_loop.induct)
  case (2 max_depth max_items n v depth stack)
  let ?next = "map (\<lambda>c. (c, Suc depth)) (rev (guard_children v)) @ stack"
  let ?total = "\<lambda>stack. sum_list (map (value_count \<circ> fst) stack)"
  have total: "?total ((v, depth) # stack) = Suc (?total ?next)"
    by (simp add: value_count.simps [of v] comp_def rev_map [symmetric])
  show ?case
  proof (cases "Suc n \<le> max_items \<and> depth \<le> max_depth")
    case True
    then have step: "guard_loop max_depth max_items n ((v, depth) # stack) = guard_loop max_depth max_items (Suc n) ?next"
      by (simp add: guard_loop.simps(2))
    have "within_depth (max_depth - depth) v \<longleftrightarrow>
        (\<forall>c \<in> set (guard_children v). Suc depth \<le> max_depth \<and> within_depth (max_depth - Suc depth) c)"
      using True by (subst within_depth.simps) (auto simp: Suc_le_eq)
    then have all: "(\<forall>(v, depth) \<in> set ((v, depth) # stack). depth \<le> max_depth \<and> within_depth (max_depth - depth) v)
        \<longleftrightarrow> (\<forall>(v, depth) \<in> set ?next. depth \<le> max_depth \<and> within_depth (max_depth - depth) v)"
      using True by auto
    have "(?next = [] \<or> Suc n + ?total ?next \<le> max_items) \<longleftrightarrow> n + ?total ((v, depth) # stack) \<le> max_items"
      unfolding total using True by (cases ?next) simp_all
    moreover have "guard_loop max_depth max_items (Suc n) ?next = Inr () \<longleftrightarrow>
        (?next = [] \<or> Suc n + ?total ?next \<le> max_items)
        \<and> (\<forall>(v, depth) \<in> set ?next. depth \<le> max_depth \<and> within_depth (max_depth - depth) v)"
      using True by (intro "2") auto
    ultimately show ?thesis unfolding step all by blast
  next
    case False
    then have "guard_loop max_depth max_items n ((v, depth) # stack) \<noteq> Inr ()"
      by (auto simp: guard_loop.simps(2))
    moreover have "\<not> (n + ?total ((v, depth) # stack) \<le> max_items \<and> depth \<le> max_depth)"
      unfolding total using False by linarith
    ultimately show ?thesis by (auto simp: comp_def)
  qed
qed simp

lemma deep_size_guard_exact:
  "deep_size_guard max_depth max_items v = Inr () \<longleftrightarrow> value_count v \<le> max_items \<and> within_depth max_depth v"
  unfolding deep_size_guard_def guard_loop_exact by simp

section \<open>Sanitised mappings\<close>

text \<open>The fields of a proxy that passed: stripped, allowed, and no null option block.\<close>

definition clean_field :: "string \<times> yaml \<Rightarrow> bool" where
  "clean_field e \<longleftrightarrow> py_strip (fst e) = fst e \<and> fst e \<notin> set FORBIDDEN_FIELDS
     \<and> \<not> (ends_with ''-opts'' (fst e) \<and> snd e = YNull)"

definition clean_mapping :: "yaml dict \<Rightarrow> bool" where
  "clean_mapping d \<longleftrightarrow> dict_wf d \<and> (\<forall>e \<in> set d. clean_field e)"

lemma dict_set_same: "map_of d k = Some v \<Longrightarrow> dict_set k v d = d"
  by (induction k v d rule: dict_set.induct) (auto split: if_splits)

lemma sanitize_field_clean:
  assumes "sanitize_field e d = Inr d'" and "clean_mapping d"
  shows "clean_mapping d'"
  using assms by (cases e; cases "fst e")
    (auto simp: sanitize_field_def clean_mapping_def clean_field_def Let_def split: if_splits dest!: in_dict_set)

lemma sanitize_mapping_clean: "sanitize_mapping d = Inr c \<Longrightarrow> clean_mapping c"
  unfolding sanitize_mapping_def
  by (rule foldE_invariant [where P = clean_mapping]) (auto simp: clean_mapping_def [of "[]"] intro: sanitize_field_clean)

lemma sanitize_clean:
  assumes "clean_mapping d"
  shows "sanitize_mapping (map (\<lambda>(k, v). (YStr k, v)) d) = Inr d"
  using assms unfolding sanitize_mapping_def
proof (induction d rule: rev_induct)
  case (snoc e d)
  then have "clean_mapping d" by (auto simp: clean_mapping_def)
  with snoc show ?case
    by (cases e) (auto simp: foldE_append clean_mapping_def clean_field_def sanitize_field_def Let_def dict_set_fresh)
qed simp

text \<open>Sanitising does not make a mapping larger or deeper.\<close>

definition fields_count :: "yaml dict \<Rightarrow> nat" where
  "fields_count d = sum_list (map (\<lambda>e. Suc (value_count (snd e))) d)"

lemma value_count_scalar [simp]:
  "value_count (YStr s) = 1" "value_count (YInt n) = 1" "value_count YNull = 1"
  by (subst value_count.simps, simp add: guard_children_def)+

lemma within_depth_scalar [simp]:
  "within_depth n (YStr s)" "within_depth n (YInt i)"
  by (subst within_depth.simps, simp add: guard_children_def)+

lemma value_count_pos: "0 < value_count v"
  by (simp add: value_count.simps [of v])

lemma value_count_map: "value_count (YMap d) = Suc (sum_list (map (\<lambda>(k, v). value_count k + value_count v) d))"
proof -
  have "sum_list (map (value_count \<circ> fst) d) + sum_list (map (value_count \<circ> snd) d) =
      sum_list (map (\<lambda>(k, v). value_count k + value_count v) d)"
    by (induction d) auto
  then show ?thesis by (simp add: value_count.simps [of "YMap d"] guard_children_def)
qed

lemma as_map_count: "value_count (as_map d) = Suc (fields_count d)"
  by (simp add: as_map_def value_count_map fields_count_def comp_def split_beta)

lemma as_map_depth: "within_depth (Suc n) (as_map d) \<longleftrightarrow> (\<forall>e \<in> set d. within_depth n (snd e))"
  by (subst within_depth.simps) (auto simp: as_map_def guard_children_def split_beta)

lemma fields_count_dict_set: "fields_count (dict_set k v d) \<le> fields_count d + Suc (value_count v)"
  by (induction k v d rule: dict_set.induct) (auto simp: fields_count_def)

lemma fields_count_replace:
  "map_of d k = Some w \<Longrightarrow> fields_count (dict_set k v d) + value_count w = fields_count d + value_count v"
  by (induction k v d rule: dict_set.induct) (auto simp: fields_count_def split: if_splits)

lemma sanitize_size:
  assumes "foldE sanitize_field d c = Inr c'"
  shows "fields_count c' \<le> fields_count c + sum_list (map (\<lambda>(k, v). value_count k + value_count v) d)
    \<and> (\<forall>e \<in> set c'. e \<in> set c \<or> snd e \<in> snd ` set d)"
  using assms
proof (induction d arbitrary: c)
  case (Cons e d)
  obtain k v where e: "e = (k, v)" by (cases e)
  from Cons.prems e obtain s where k: "k = YStr s" by (cases k) (auto simp: sanitize_field_def)
  from Cons.prems obtain c1 where c1: "sanitize_field e c = Inr c1" "foldE sanitize_field d c1 = Inr c'"
    by (auto split: sum.splits)
  then have "c1 = c \<or> c1 = dict_set (py_strip s) v c"
    by (auto simp: e k sanitize_field_def Let_def split: if_splits)
  then have "fields_count c1 \<le> fields_count c + Suc (value_count v) \<and> (\<forall>x \<in> set c1. x \<in> set c \<or> snd x = v)"
    using fields_count_dict_set [of "py_strip s" v c] by (auto dest: in_dict_set)
  with Cons.IH [OF c1(2)] show ?case by (fastforce simp: e k)
qed simp

section \<open>Accepted proxies\<close>

definition set_identity :: "string \<Rightarrow> string \<Rightarrow> string \<Rightarrow> int \<Rightarrow> yaml dict \<Rightarrow> yaml dict" where
  "set_identity name proxy_type server port d =
     dict_set ''port'' (YInt port) (dict_set ''server'' (YStr server)
       (dict_set ''type'' (YStr proxy_type) (dict_set ''name'' (YStr name) d)))"

text \<open>What a successful validation has established.\<close>

lemma validate_proxy_Inr:
  assumes "validate_proxy lib reject_private_hosts item = Inr p"
  obtains d cleaned name proxy_type server port where
    "item = YMap d" and "deep_size_guard 12 5000 item = Inr ()" and "sanitize_mapping d = Inr cleaned"
    and "\<not> contains_control (as_map cleaned)" and "valid_name (field cleaned ''name'') = Inr name"
    and "valid_type lib name (field cleaned ''type'') = Inr proxy_type"
    and "valid_server name (field cleaned ''server'') = Inr server" and "read_port lib name (field cleaned ''port'') = Inr port"
    and "\<not> (reject_private_hosts \<and> private_host lib server)"
    and "\<forall>f \<in> set (required_fields proxy_type). check_required cleaned name f = Inr ()"
    and "\<forall>e \<in> set cleaned. check_options name e = Inr ()"
    and "p = set_identity (py_strip name) proxy_type server port cleaned" and "json_representable (as_map p)"
proof (cases item)
  case (YMap d)
  with assms obtain cleaned where "deep_size_guard 12 5000 item = Inr ()" "sanitize_mapping d = Inr cleaned"
      "\<not> contains_control (as_map cleaned)"
    by (auto simp: validate_proxy_def bindE_Inr_iff split: sum.splits if_splits)
  moreover from assms YMap calculation obtain name proxy_type server port where
      "valid_name (field cleaned ''name'') = Inr name" "valid_type lib name (field cleaned ''type'') = Inr proxy_type"
      "valid_server name (field cleaned ''server'') = Inr server" "read_port lib name (field cleaned ''port'') = Inr port"
    by (auto simp: validate_proxy_def bindE_Inr_iff split: if_splits)
  moreover from assms YMap calculation have "\<not> (reject_private_hosts \<and> private_host lib server)"
      "foldE (\<lambda>f _. check_required cleaned name f) (required_fields proxy_type) () = Inr ()"
      "validate_structured_options name cleaned = Inr ()"
      "p = set_identity (py_strip name) proxy_type server port cleaned" "json_representable (as_map p)"
    by (auto simp: validate_proxy_def bindE_Inr_iff Let_def set_identity_def split: if_splits)
  ultimately show ?thesis
    using that YMap by (auto simp: validate_structured_options_def foldE_unit)
qed (use assms in \<open>simp_all add: validate_proxy_def\<close>)

lemma field_set [simp]: "field (dict_set k v d) f = (if f = k then v else field d f)"
  by (simp add: field_def)

lemma field_identity:
  "field (set_identity n t s p d) ''name'' = YStr n" "field (set_identity n t s p d) ''type'' = YStr t"
  "field (set_identity n t s p d) ''server'' = YStr s" "field (set_identity n t s p d) ''port'' = YInt p"
  "f \<notin> {''name'', ''type'', ''server'', ''port''} \<Longrightarrow> field (set_identity n t s p d) f = field d f"
  by (simp_all add: set_identity_def)

lemma set_identity_entries:
  "e \<in> set (set_identity n t s p d) \<Longrightarrow>
     e \<in> {(''name'', YStr n), (''type'', YStr t), (''server'', YStr s), (''port'', YInt p)} \<or> e \<in> set d"
  unfolding set_identity_def by (blast dest: in_dict_set)

lemma required_plain: "f \<in> set (required_fields t) \<Longrightarrow> f \<notin> {''name'', ''type'', ''server'', ''port''}"
  by (auto simp: required_fields_def REQUIRED_FIELDS_def split: if_splits)

lemma identity_keys: "py_strip k = k \<and> k \<notin> set FORBIDDEN_FIELDS \<and> \<not> ends_with ''-opts'' k"
  if "k \<in> {''name'', ''type'', ''server'', ''port''}"
  using that by (auto simp: FORBIDDEN_FIELDS_def ends_with_def is_space_def Let_def intro!: py_strip_ascii)

lemma portable_strip: "portable_text s \<Longrightarrow> portable_text (py_strip s)"
  using set_strip_points by (fastforce simp: portable_text_def points_py_strip list_all_iff)

lemma allowed_types_portable: "t \<in> set ALLOWED_PROXY_TYPES \<Longrightarrow> portable_text t \<and> py_strip t = t"
proof -
  assume t: "t \<in> set ALLOWED_PROXY_TYPES"
  have "\<forall>t \<in> set ALLOWED_PROXY_TYPES. ascii_text t \<and> list_all (\<lambda>c. yaml_character_is_portable (of_char c)) t
      \<and> \<not> is_space (hd t) \<and> \<not> is_space (last t)"
    by (simp add: ALLOWED_PROXY_TYPES_def yaml_character_is_portable_def is_space_def)
  with t show ?thesis by (simp add: portable_text_def points_of_ascii py_strip_ascii list_all_iff)
qed

lemma control_as_map: "contains_control (as_map d) \<longleftrightarrow> (\<exists>(k, v) \<in> set d. \<not> portable_text k \<or> contains_control v)"
  by (auto simp: as_map_def list_ex_iff split_beta)

lemma control_field: "\<not> contains_control (as_map d) \<Longrightarrow> \<not> contains_control (field d f)"
  by (auto simp: control_as_map field_def split: option.splits dest!: map_of_SomeD)


section \<open>The guarantees\<close>

text \<open>A proxy in the form in which the rest of the program may take it.\<close>

definition well_formed_proxy :: "text_library \<Rightarrow> bool \<Rightarrow> yaml dict \<Rightarrow> bool" where
  "well_formed_proxy lib reject_private_hosts p \<longleftrightarrow>
     clean_mapping p \<and> (\<forall>(k, v) \<in> set p. ends_with ''-opts'' k \<longrightarrow> is_map v)
     \<and> \<not> contains_control (as_map p) \<and> json_representable (as_map p)
     \<and> value_count (as_map p) \<le> 5000 \<and> within_depth 12 (as_map p)
     \<and> (\<exists>name proxy_type server port.
          field p ''name'' = YStr name \<and> name \<noteq> [] \<and> py_strip name = name \<and> length (points_of name) \<le> 256
        \<and> field p ''type'' = YStr proxy_type \<and> proxy_type \<in> set ALLOWED_PROXY_TYPES
        \<and> field p ''server'' = YStr server \<and> server \<noteq> [] \<and> py_strip server = server \<and> length (points_of server) \<le> 253
        \<and> (reject_private_hosts \<longrightarrow> \<not> private_host lib server)
        \<and> field p ''port'' = YInt port \<and> 1 \<le> port \<and> port \<le> 65535
        \<and> (\<forall>f \<in> set (required_fields proxy_type). hashable (field p f) \<and> field p f \<notin> {YNull, YStr []}))"

lemma valid_port_range: "valid_port name v = Inr n \<Longrightarrow> 1 \<le> n \<and> n \<le> 65535"
  by (cases v) (auto simp: valid_port_def split: if_splits)

lemma read_port_range: "read_port lib name v = Inr n \<Longrightarrow> 1 \<le> n \<and> n \<le> 65535"
  by (cases v) (auto simp: read_port_def dest: valid_port_range split: if_splits option.splits)

lemma read_port_count: "read_port lib name v = Inr n \<Longrightarrow> v \<noteq> YNull \<and> value_count v = 1 \<and> within_depth k v"
  by (cases v) (auto simp: read_port_def valid_port_def)

lemma check_required_iff:
  "check_required d name f = Inr () \<longleftrightarrow> hashable (field d f) \<and> field d f \<notin> {YNull, YStr []}"
  by (cases "field d f") (auto simp: check_required_def split: if_splits)

lemma field_present: "field d f \<noteq> YNull \<Longrightarrow> map_of d f = Some (field d f)"
  by (auto simp: field_def split: option.splits)

lemma fields_count_same:
  assumes "field d k \<noteq> YNull" and "value_count (field d k) = value_count v"
  shows "fields_count (dict_set k v d) = fields_count d"
  using fields_count_replace [OF field_present [OF assms(1)], of v] assms(2) by simp

lemma clean_dict_set: "clean_mapping d \<Longrightarrow> clean_field (k, v) \<Longrightarrow> clean_mapping (dict_set k v d)"
  by (auto simp: clean_mapping_def dest: in_dict_set)

lemma clean_identity: "clean_mapping d \<Longrightarrow> clean_mapping (set_identity n t s p d)"
  unfolding set_identity_def using identity_keys by (intro clean_dict_set) (auto simp: clean_field_def)

lemma validated_well_formed:
  assumes "validate_proxy lib reject_private_hosts item = Inr p"
  shows "well_formed_proxy lib reject_private_hosts p"
proof -
  from assms obtain d cleaned name proxy_type server port where
      item: "item = YMap d" "deep_size_guard 12 5000 item = Inr ()" and cleaned: "sanitize_mapping d = Inr cleaned"
    and control: "\<not> contains_control (as_map cleaned)" and name: "valid_name (field cleaned ''name'') = Inr name"
    and type: "valid_type lib name (field cleaned ''type'') = Inr proxy_type"
    and server: "valid_server name (field cleaned ''server'') = Inr server"
    and port: "read_port lib name (field cleaned ''port'') = Inr port"
    and public: "\<not> (reject_private_hosts \<and> private_host lib server)"
    and required: "\<forall>f \<in> set (required_fields proxy_type). check_required cleaned name f = Inr ()"
    and options: "\<forall>e \<in> set cleaned. check_options name e = Inr ()"
    and p: "p = set_identity (py_strip name) proxy_type server port cleaned" and json: "json_representable (as_map p)"
    by (rule validate_proxy_Inr)
  have n: "field cleaned ''name'' = YStr name" "py_strip name \<noteq> []" "length (points_of name) \<le> 256"
    using name by (auto simp: valid_name_def split: yaml.splits if_splits)
  have t: "proxy_type \<in> set ALLOWED_PROXY_TYPES" "\<exists>s. field cleaned ''type'' = YStr s"
    using type by (auto simp: valid_type_def Let_def split: yaml.splits if_splits)
  obtain s where s: "field cleaned ''server'' = YStr s" "server = py_strip s" "server \<noteq> []" "length (points_of server) \<le> 253"
    using server by (auto simp: valid_server_def Let_def split: yaml.splits if_splits)
  have "clean_mapping p" unfolding p by (rule clean_identity [OF sanitize_mapping_clean [OF cleaned]])
  moreover have "is_map v" if "(k, v) \<in> set p" "ends_with ''-opts'' k" for k v
  proof -
    from that(1) have "k \<in> {''name'', ''type'', ''server'', ''port''} \<or> (k, v) \<in> set cleaned"
      unfolding p using set_identity_entries by blast
    with that(2) identity_keys options show ?thesis by (force simp: check_options_def)
  qed
  moreover have "\<not> contains_control (as_map p)"
  proof -
    have "portable_text ''name'' \<and> portable_text ''type'' \<and> portable_text ''server'' \<and> portable_text ''port''"
      by (simp add: portable_text_def points_of_ascii yaml_character_is_portable_def)
    moreover have "portable_text name" "portable_text s"
      using control_field [OF control, of "''name''"] control_field [OF control, of "''server''"] n(1) s(1) by simp_all
    ultimately show ?thesis
      using control portable_strip allowed_types_portable [OF t(1)] s(2) unfolding control_as_map p
      by (fastforce dest: set_identity_entries)
  qed
  moreover have "value_count (as_map p) \<le> 5000 \<and> within_depth 12 (as_map p)"
  proof -
    have same: "fields_count p = fields_count cleaned"
      using n(1) t(2) s(1) read_port_count [OF port]
      by (auto simp: p set_identity_def fields_count_same)
    have smaller: "fields_count cleaned \<le> sum_list (map (\<lambda>(k, v). value_count k + value_count v) d)"
        and sub: "\<forall>e \<in> set cleaned. snd e \<in> snd ` set d"
      using sanitize_size [OF cleaned [unfolded sanitize_mapping_def]] by (auto simp: fields_count_def)
    have "\<forall>v \<in> snd ` set d. within_depth 11 v"
      using item by (auto simp: deep_size_guard_exact within_depth.simps [of 12] guard_children_def)
    with sub have "\<forall>e \<in> set cleaned. within_depth 11 (snd e)" by metis
    then have "\<forall>e \<in> set p. within_depth 11 (snd e)"
      unfolding p by (auto dest!: set_identity_entries)
    then show ?thesis
      using item same smaller as_map_depth [of 11 p] by (auto simp: deep_size_guard_exact value_count_map as_map_count)
  qed
  ultimately show ?thesis
    using json public n t s read_port_range [OF port] required required_plain [of _ proxy_type] py_strip_length [of name]
    unfolding well_formed_proxy_def by (auto simp: p field_identity check_required_iff)
qed


text \<open>Validating a validated proxy changes nothing.\<close>

lemma set_identity_same:
  assumes "field p ''name'' = YStr n" "field p ''type'' = YStr t" "field p ''server'' = YStr s" "field p ''port'' = YInt i"
  shows "set_identity n t s i p = p"
  using assms field_present [of p] by (simp add: set_identity_def dict_set_same)

lemma well_formed_revalidates:
  assumes "well_formed_proxy lib reject_private_hosts p"
    and "\<forall>t \<in> set ALLOWED_PROXY_TYPES. py_lower lib t = t"
  shows "validate_proxy lib reject_private_hosts (as_map p) = Inr p"
proof -
  let ?d = "map (\<lambda>(k, v). (YStr k, v)) p"
  from assms(1) obtain name proxy_type server port where
      name: "field p ''name'' = YStr name" "name \<noteq> []" "py_strip name = name" "length (points_of name) \<le> 256"
    and type: "field p ''type'' = YStr proxy_type" "proxy_type \<in> set ALLOWED_PROXY_TYPES"
    and server: "field p ''server'' = YStr server" "server \<noteq> []" "py_strip server = server" "length (points_of server) \<le> 253"
    and public: "reject_private_hosts \<longrightarrow> \<not> private_host lib server"
    and port: "field p ''port'' = YInt port" "1 \<le> port" "port \<le> 65535"
    and required: "\<forall>f \<in> set (required_fields proxy_type). check_required p name f = Inr ()"
    unfolding well_formed_proxy_def check_required_iff by blast
  have clean: "sanitize_mapping ?d = Inr p" and size: "deep_size_guard 12 5000 (as_map p) = Inr ()"
      and control: "\<not> contains_control (as_map p)" and json: "json_representable (as_map p)"
      and options: "validate_structured_options name p = Inr ()"
    using assms(1) sanitize_clean
    by (auto simp: well_formed_proxy_def deep_size_guard_exact validate_structured_options_def foldE_unit check_options_def)
  have "valid_type lib name (field p ''type'') = Inr proxy_type"
    using type assms(2) allowed_types_portable by (simp add: valid_type_def)
  moreover have "valid_name (field p ''name'') = Inr name" "valid_server name (field p ''server'') = Inr server"
      "read_port lib name (field p ''port'') = Inr port"
    using name server port by (simp_all add: valid_name_def valid_server_def read_port_def valid_port_def)
  moreover have "foldE (\<lambda>f _. check_required p name f) (required_fields proxy_type) () = Inr ()"
    using required by (simp add: foldE_unit)
  ultimately show ?thesis
    using clean size control json options public name(3)
      set_identity_same [OF name(1) type(1) server(1) port(1), unfolded set_identity_def]
    by (simp add: validate_proxy_def as_map_def [of p] Let_def)
qed

section \<open>Accounting\<close>

definition accepted :: "text_library \<Rightarrow> bool \<Rightarrow> yaml \<Rightarrow> yaml dict option" where
  "accepted t reject_private_hosts item = (case validate_proxy t reject_private_hosts item of Inr p \<Rightarrow> Some p | Inl _ \<Rightarrow> None)"

lemma reason_total_count: "reason_total (count_reason r d) = Suc (reason_total d)"
proof -
  have "reason_total (dict_set k v d) + (case map_of d k of Some w \<Rightarrow> w | None \<Rightarrow> 0) = reason_total d + v" for k v
    by (induction k v d rule: dict_set.induct) (auto simp: reason_total_def)
  from this [of r "Suc (case map_of d r of Some n \<Rightarrow> n | None \<Rightarrow> 0)"] show ?thesis by (simp add: count_reason_def)
qed

lemma scan_fold:
  "let s' = foldl (scan_entry t strict rj) s entries in
     es_valid s' = es_valid s @ List.map_filter (\<lambda>e. accepted t rj (snd e)) entries
   \<and> (if strict then length (es_errors s') + length (es_valid s') = length (es_errors s) + length (es_valid s) + length entries
        \<and> es_skipped s' = es_skipped s \<and> es_reasons s' = es_reasons s
      else es_errors s' = es_errors s
        \<and> es_skipped s' + length (es_valid s') = es_skipped s + length (es_valid s) + length entries
        \<and> reason_total (es_reasons s') + es_skipped s = reason_total (es_reasons s) + es_skipped s')"
proof (induction entries arbitrary: s)
  case (Cons e entries)
  have "es_valid (scan_entry t strict rj s e) = es_valid s @ (case accepted t rj (snd e) of Some p \<Rightarrow> [p] | None \<Rightarrow> [])
    \<and> (accepted t rj (snd e) = None \<longrightarrow>
        (if strict then length (es_errors (scan_entry t strict rj s e)) = Suc (length (es_errors s))
           \<and> es_skipped (scan_entry t strict rj s e) = es_skipped s \<and> es_reasons (scan_entry t strict rj s e) = es_reasons s
         else es_errors (scan_entry t strict rj s e) = es_errors s \<and> es_skipped (scan_entry t strict rj s e) = Suc (es_skipped s)
           \<and> reason_total (es_reasons (scan_entry t strict rj s e)) = Suc (reason_total (es_reasons s))))
    \<and> (accepted t rj (snd e) \<noteq> None \<longrightarrow> es_errors (scan_entry t strict rj s e) = es_errors s
        \<and> es_skipped (scan_entry t strict rj s e) = es_skipped s \<and> es_reasons (scan_entry t strict rj s e) = es_reasons s)"
    by (cases e) (auto simp: scan_entry_def accepted_def reason_total_count split: sum.splits)
  with Cons.IH [of "scan_entry t strict rj s e"] show ?case
    by (cases "accepted t rj (snd e)"; cases strict) (simp_all add: Let_def List.map_filter_simps)
qed (simp add: List.map_filter_simps)

lemma map_filter_enumerate: "List.map_filter (\<lambda>e. f (snd e)) (enumerate n xs) = List.map_filter f xs"
  by (induction xs arbitrary: n) (auto simp: List.map_filter_simps split: option.splits)


lemma reason_total_sort: "reason_total (sort_dict d) = reason_total d"
proof -
  have "mset (map snd (sort_dict d)) = mset (map snd d)" by (simp add: sort_dict_def)
  then show ?thesis unfolding reason_total_def by (metis sum_mset_sum_list)
qed

text \<open>Every line of a list of links becomes an entry or is counted.\<close>

lemma read_line_accounts:
  assumes "foldE (read_line lib strict) lines (xs, d) = Inr (ys, e)"
  shows "length ys + reason_total e = length xs + reason_total d + length lines \<and> (strict \<longrightarrow> e = d)"
  using assms
proof (induction lines arbitrary: xs d)
  case (Cons line lines)
  then obtain xs1 d1 where step: "read_line lib strict line (xs, d) = Inr (xs1, d1)"
      and rest: "foldE (read_line lib strict) lines (xs1, d1) = Inr (ys, e)"
    by (auto split: sum.splits)
  from step have "length xs1 + reason_total d1 = Suc (length xs + reason_total d) \<and> (strict \<longrightarrow> d1 = d)"
    by (auto simp: read_line_def reason_total_count split: if_splits sum.splits)
  with Cons.IH [OF rest] show ?case by auto
qed simp

lemma read_document_reasons: "read_document lib s = Inr (Some p) \<Longrightarrow> pl_reasons p = [] \<and> pl_skipped p = 0"
  by (auto simp: read_document_def bindE_Inr_iff split: sum.splits subscription_error.splits option.splits)

lemma parse_payload_reasons:
  assumes "parse_payload t lib strict depth s = Inr p"
  shows "pl_skipped p = reason_total (pl_reasons p) \<and> (strict \<longrightarrow> pl_reasons p = [])"
  using assms
proof (induction t lib strict depth s rule: parse_payload.induct)
  case (1 t lib strict depth s)
  let ?s = "py_strip s"
  note unfold = parse_payload.simps [of t lib strict depth s] Let_def
  from "1.prems" have depth: "\<not> 2 < depth" by (auto simp: unfold)
  show ?case
  proof (cases "?s = []")
    case True
    with "1.prems" depth have "p = \<lparr>pl_entries = [], pl_shape = Some ''empty_text'', pl_skipped = 0, pl_reasons = []\<rparr>"
      by (simp add: unfold)
    then show ?thesis by (simp add: reason_total_def)
  next
    case False
    note run = "1.prems" [unfolded unfold if_not_P [OF depth] if_not_P [OF False]]
    from run obtain doc where doc: "read_document lib ?s = Inr doc" by (cases "read_document lib ?s") simp_all
    show ?thesis
    proof (cases doc)
      case (Some q)
      with doc run read_document_reasons [of lib ?s q] show ?thesis by (simp add: reason_total_def)
    next
      case None
      show ?thesis
      proof (cases "uri_candidate t (uri_lines ?s)")
        case True
        with run doc None have "read_lines lib strict (uri_lines ?s) = Inr p" by simp
        then show ?thesis
          using read_line_accounts [of lib strict "uri_lines ?s" "[]" "[]"]
          by (auto simp: reason_total_def read_lines_def bindE_Inr_iff split: if_splits)
      next
        case links: False
        with run doc None obtain decoded where deeper: "decode_base64_text lib ?s = Some decoded" "py_strip decoded \<noteq> ?s"
            "parse_payload t lib strict (Suc depth) decoded = Inr p"
          by (cases "decode_base64_text lib ?s") (simp_all split: if_splits)
        show ?thesis by (rule "1.IH" [OF depth refl False doc None refl links deeper])
      qed
    qed
  qed
qed

text \<open>
  C13.  Whatever an untrusted subscription holds, the proxies taken from it are well formed: bounded in
  size, free of control characters and of the fields that would steer the local network stack, with
  a name, a known type, a port in range, the credentials of the type, mappings as option blocks, and
  (where private hosts are rejected) no server that is local or a special-use address.
\<close>

theorem accepted_proxies_well_formed:
  assumes "parse_subscription t lib policy reject_private_hosts s = Inr r" and "p \<in> set (ps_proxies r)"
  shows "well_formed_proxy t reject_private_hosts p"
proof -
  from assms(1) obtain q where "ps_proxies r = es_valid (scan_entries t (policy = ''error'') reject_private_hosts q)"
    by (auto simp: parse_subscription_def Let_def bindE_Inr_iff split: if_splits)
  then have "ps_proxies r = List.map_filter (accepted t reject_private_hosts) (pl_entries q)"
    using scan_fold [of t "policy = ''error''" reject_private_hosts] by (simp add: scan_entries_def Let_def map_filter_enumerate)
  with assms(2) obtain item where "accepted t reject_private_hosts item = Some p"
    by (auto simp: List.map_filter_def)
  then show ?thesis using validated_well_formed by (auto simp: accepted_def split: sum.splits)
qed


text \<open>
  C40.  Validation is a normal form: a proxy that was accepted is accepted again, unchanged.
\<close>

theorem revalidation_identity:
  assumes "validate_proxy lib reject_private_hosts item = Inr p"
    and "\<forall>t \<in> set ALLOWED_PROXY_TYPES. py_lower lib t = t"
  shows "validate_proxy lib reject_private_hosts (as_map p) = Inr p"
  using well_formed_revalidates [OF validated_well_formed [OF assms(1)] assms(2)] .


section \<open>A subscription\<close>

text \<open>Two entries, one of them local; the library knows ASCII letters and digits.\<close>

definition demo_lower :: "string \<Rightarrow> string" where
  "demo_lower = map (\<lambda>c. if is_upper c then char_of (of_char c + 32 :: nat) else c)"

definition demo_text :: text_library where
  "demo_text = \<lparr>py_lower = demo_lower, py_repr = (\<lambda>s. [CHR 0x27] @ s @ [CHR 0x27]),
     py_isdigit = (\<lambda>s. s \<noteq> [] \<and> list_all is_digit s), py_int = (\<lambda>s. Some (int (digits_value 0 s)))\<rparr>"

definition demo_entry :: "string \<Rightarrow> yaml" where
  "demo_entry host = YMap [(YStr ''name'', YStr '' A ''), (YStr ''type'', YStr ''SS''), (YStr ''server'', YStr host),
     (YStr ''port'', YStr ''443''), (YStr ''cipher'', YStr ''x''), (YStr ''password'', YStr ''y''),
     (YStr '' dialer-proxy'', YStr ''z''), (YStr ''plugin-opts'', YNull)]"

definition demo_proxy :: "string \<Rightarrow> yaml dict" where
  "demo_proxy host = [(''name'', YStr ''A''), (''type'', YStr ''ss''), (''server'', YStr host), (''port'', YInt 443),
     (''cipher'', YStr ''x''), (''password'', YStr ''y'')]"

definition demo_fields :: "string \<Rightarrow> yaml dict" where
  "demo_fields host = [(''name'', YStr '' A ''), (''type'', YStr ''SS''), (''server'', YStr host),
     (''port'', YStr ''443''), (''cipher'', YStr ''x''), (''password'', YStr ''y'')]"

lemma demo_texts:
  "demo_lower ''SS'' = ''ss''" "demo_lower ''a.example'' = ''a.example''" "demo_lower ''localhost'' = ''localhost''"
  "strip '' A '' = ''A''" "strip ''a.example'' = ''a.example''" "strip ''localhost'' = ''localhost''" "strip ''ss'' = ''ss''"
  "py_isdigit demo_text ''443''" "py_int demo_text ''443'' = Some 443"
  by code_simp+

lemma demo_private: "\<not> private_host demo_text ''a.example''" "private_host demo_text ''localhost''"
  by code_simp+

lemma demo_sanitized:
  "sanitize_mapping (case demo_entry host of YMap d \<Rightarrow> d | _ \<Rightarrow> []) = Inr (demo_fields host)"
  by (simp add: demo_entry_def demo_fields_def sanitize_mapping_def sanitize_field_def py_strip_eq strip_def is_space_def
      FORBIDDEN_FIELDS_def ends_with_def)

lemma demo_bounded: "deep_size_guard 12 5000 (demo_entry host) = Inr ()"
  by (simp add: demo_entry_def deep_size_guard_def guard_loop.simps guard_children_def)

lemma demo_portable: "ascii_text host \<Longrightarrow> portable_text host \<Longrightarrow> \<not> contains_control (as_map (demo_fields host))"
  by (simp add: demo_fields_def as_map_def portable_text_def points_of_ascii yaml_character_is_portable_def)


lemma demo_validate:
  assumes "ascii_text host" and "portable_text host" and "strip host = host" and "host \<noteq> []" and "length host \<le> 253"
  shows "validate_proxy demo_text True (demo_entry host) =
    (if private_host demo_text host then Inl (PrivateHost '' A '') else Inr (demo_proxy host))"
proof -
  have parts: "valid_name (field (demo_fields host) ''name'') = Inr '' A ''"
      "valid_type demo_text '' A '' (field (demo_fields host) ''type'') = Inr ''ss''"
      "valid_server '' A '' (field (demo_fields host) ''server'') = Inr host"
      "read_port demo_text '' A '' (field (demo_fields host) ''port'') = Inr 443"
      "foldE (\<lambda>f _. check_required (demo_fields host) '' A '' f) (required_fields ''ss'') () = Inr ()"
      "validate_structured_options '' A '' (demo_fields host) = Inr ()"
    using assms demo_texts
    by (simp_all add: demo_fields_def field_def valid_name_def valid_type_def valid_server_def read_port_def valid_port_def
        py_strip_eq points_of_ascii demo_text_def [THEN arg_cong, of py_lower] ALLOWED_PROXY_TYPES_def required_fields_def
        REQUIRED_FIELDS_def check_required_def validate_structured_options_def check_options_def ends_with_def)
  have result: "set_identity ''A'' ''ss'' host 443 (demo_fields host) = demo_proxy host"
      "json_representable (as_map (demo_proxy host))" "py_strip '' A '' = ''A''"
    using demo_texts by (simp_all add: set_identity_def demo_fields_def demo_proxy_def as_map_def json_keys_def string_key_def py_strip_eq)
  show ?thesis
    using demo_sanitized [of host] demo_bounded [of host] demo_portable [OF assms(1,2)] parts result
    by (simp add: validate_proxy_def demo_entry_def set_identity_def Let_def)
qed

lemma demo_hosts: "portable_text ''a.example''" "portable_text ''localhost''"
  by (simp_all add: portable_text_def points_of_ascii yaml_character_is_portable_def)

lemma demo_valid:
  "validate_proxy demo_text True (demo_entry ''a.example'') = Inr (demo_proxy ''a.example'')"
  "validate_proxy demo_text True (demo_entry ''localhost'') = Inl (PrivateHost '' A '')"
  using demo_validate [of "''a.example''"] demo_validate [of "''localhost''"] demo_hosts demo_texts demo_private by simp_all

definition demo_payload :: payload_library where
  "demo_payload = \<lparr>yaml_scan = (\<lambda>s. ([], False)),
     yaml_construct = (\<lambda>s. Inr (YList [demo_entry ''a.example'', demo_entry ''localhost''])),
     base64_decode = (\<lambda>s. None), share_link = (\<lambda>s. Inl ''unsupported proxy URI scheme'')\<rparr>"

lemma demo_document:
  "parse_payload demo_text demo_payload strict 0 ''x'' = Inr \<lparr>pl_entries = [demo_entry ''a.example'', demo_entry ''localhost''],
     pl_shape = None, pl_skipped = 0, pl_reasons = []\<rparr>"
proof -
  have "deep_size_guard 20 100000 (YList [demo_entry ''a.example'', demo_entry ''localhost'']) = Inr ()"
    by (simp add: demo_entry_def deep_size_guard_def guard_loop.simps guard_children_def)
  then show ?thesis
    by (simp add: parse_payload.simps py_strip_eq strip_def is_space_def read_document_def yaml_load_no_aliases_def
        demo_payload_def extract_yaml_proxies_def)
qed

lemma demo_parsed: "parse_subscription demo_text demo_payload ''skip'' True ''x'' =
    Inr \<lparr>ps_proxies = [demo_proxy ''a.example''], ps_skipped = 1, ps_reasons = [(''private_host'', 1)], ps_empty_shape = None\<rparr>"
proof -
  have "invalid_proxy_reason (error_text demo_text (PrivateHost '' A '')) = ''private_host''" by code_simp
  then show ?thesis
    by (simp add: parse_subscription_def demo_document MAX_PROXIES_def scan_entries_def scan_entry_def demo_valid count_reason_def
        sort_dict_def)
qed

theorem accepted_proxies_well_formed_witness: "well_formed_proxy demo_text True (demo_proxy ''a.example'')"
  by (rule accepted_proxies_well_formed [OF demo_parsed]) simp


theorem revalidation_identity_witness:
  "validate_proxy demo_text True (as_map (demo_proxy ''a.example'')) = Inr (demo_proxy ''a.example'')"
proof (rule revalidation_identity [OF demo_valid(1)])
  show "\<forall>t \<in> set ALLOWED_PROXY_TYPES. py_lower demo_text t = t"
    by (simp add: ALLOWED_PROXY_TYPES_def demo_text_def demo_lower_def is_upper_def char_le_iff)
qed

end
