(* ===== verification/ConfigValidator.thy ===== *)
theory ConfigValidator
  imports RuntimeGraph YamlValue
begin

text \<open>
  The static validation of a generated document, \<^verbatim>\<open>validator.py\<close>, with the status lists of
  \<^verbatim>\<open>status.py\<close>.  A check appends to the list of errors or, where the code lets an exception pass,
  fails.  The schema check, the regular-expression engine and the two DNS audits are arguments.
\<close>

section \<open>\<^verbatim>\<open>status.py\<close>\<close>

definition status_code :: "string \<Rightarrow> nat option" where
  "status_code s =
     (if length s = 3 \<and> list_all is_digit s \<and> CHR ''1'' \<le> hd s \<and> hd s \<le> CHR ''5'' then Some (digits_value 0 s) else None)"

text \<open>One segment: a code or an inclusive range of at most 201 codes.\<close>

definition status_segment :: "string \<Rightarrow> nat set option" where
  "status_segment s = (case split_on CHR ''-'' s of
     [a] \<Rightarrow> map_option (\<lambda>m. {m}) (status_code a)
   | [a, b] \<Rightarrow> (case (status_code a, status_code b) of
        (Some m, Some n) \<Rightarrow> if n < m \<or> 200 < n - m then None else Some {m..n} | _ \<Rightarrow> None)
   | _ \<Rightarrow> None)"

definition status_segments :: "string \<Rightarrow> string list" where
  "status_segments s = filter (\<lambda>part. part \<noteq> [])
     (split_on CHR '' '' (map (\<lambda>c. if c = CHR ''/'' \<or> c = CHR '','' then CHR '' '' else c) (py_strip s)))"

fun segment_codes :: "string list \<Rightarrow> nat set option" where
  "segment_codes [] = Some {}"
| "segment_codes (x # xs) = (case status_segment x of None \<Rightarrow> None
     | Some codes \<Rightarrow> map_option (\<lambda>rest. codes \<union> rest) (segment_codes xs))"

definition parse_expected_status :: "string \<Rightarrow> nat set option" where
  "parse_expected_status s = (if py_strip s = [] then None else segment_codes (status_segments s))"

definition status_allowed :: "string \<Rightarrow> nat \<Rightarrow> bool option" where
  "status_allowed s status = map_option (\<lambda>codes. status \<in> codes) (parse_expected_status s)"

text \<open>
  Whether \<^verbatim>\<open>parse_expected_status(str(value))\<close> succeeds.  The text of a list or a mapping starts with a
  bracket, which no segment does.
\<close>

definition expected_status_ok :: "json \<Rightarrow> bool" where
  "expected_status_ok j = (case j of
     JStr s \<Rightarrow> parse_expected_status s \<noteq> None
   | JInt n \<Rightarrow> parse_expected_status (int_text n) \<noteq> None
   | JFloat f \<Rightarrow> parse_expected_status (float_repr f) \<noteq> None
   | _ \<Rightarrow> False)"

section \<open>Errors\<close>

datatype config_error =
    ControlCharactersPresent
  | RawProxies
  | ForbiddenTopLevel "string list"
  | ForbiddenListener
  | ProvidersNotMap
  | RuleProvidersNotMap
  | GroupsNotAList
  | UnnamedProvider
  | ProviderNotMap string
  | ProviderNotInline string
  | ProviderExternal string
  | ProviderEmpty string
  | NoHealthCheck string
  | HealthUrlNotHttps string
  | BadProviderStatus string
  | NonMappingProxy string
  | UnnamedProxy string
  | SharedProxyName string string string
  | UncontrolledDialer string
  | DialerNotEntry string
  | UnnamedRuleProvider
  | RuleProviderNotMap string
  | RuleProviderNotInline string
  | RuleProviderNotClassical string
  | RuleProviderExternal string
  | RuleProviderEmpty string
  | BadClassicalRule string
  | GroupNotMap
  | UnnamedGroup
  | DuplicateGroupName string
  | GraphFailed graph_error
  | GroupProxiesNotList string
  | UnknownReference string json
  | GroupUseNotList string
  | UnknownProvider string json
  | BadGroupStatus string
  | LeavesFailed string graph_error
  | NoLeaves string
  | PublicNotSelect string
  | PublicProxiesNotList string
  | PublicEmpty string
  | FilteredInternalReference string
  | FilteredProvidersEscape string
  | NoSingleAnchor string
  | AnchorProvidersEscape string
  | PolicyInternalReference string
  | HiddenType string
  | HiddenEmpty string
  | NestedProvidersEscape string
  | DialerUnknownGroup string
  | CycleFailed graph_error
  | CycleDetected "string list"
  | RulesEmpty
  | FinalRuleNotMatch
  | DuplicateRules
  | RuleNotText
  | UnknownRuleProvider string
  | InvalidRule string
  | UnknownTarget string
  | UnreachablePresentation string
  | DnsAudit string
  | SecretLeaked

text \<open>What ends the validation: an exception that passes through, or the collected errors.\<close>

datatype config_failure = SchemaViolation | UnhashableValue | NotIterable | Escaped graph_error | ConfigErrors "config_error list"

definition report_if :: "bool \<Rightarrow> config_error \<Rightarrow> config_error list" where
  "report_if b e = (if b then [e] else [])"

definition BUILTINS :: "string list" where
  "BUILTINS = [''DIRECT'', ''REJECT'', ''PASS'', ''COMPATIBLE'']"

definition FORBIDDEN_TOP_LEVEL :: "string list" where
  "FORBIDDEN_TOP_LEVEL = [''external-controller'', ''external-controller-tls'', ''secret'', ''authentication'', ''tunnels'']"

definition SAFE_SHARED_ANCHOR_PREFIXES :: "string list" where
  "SAFE_SHARED_ANCHOR_PREFIXES = [''__CR_AUTO_'', ''__CR_FALLBACK_'', ''__CR_FAIL_CLOSED_'']"

text \<open>\<^verbatim>\<open>x in names\<close> hashes \<open>x\<close>.\<close>

definition hashed :: "json \<Rightarrow> config_failure + unit" where
  "hashed j = (case j of JList _ \<Rightarrow> Inl UnhashableValue | JObj _ \<Rightarrow> Inl UnhashableValue | _ \<Rightarrow> Inr ())"

definition names_json :: "string set \<Rightarrow> json \<Rightarrow> bool" where
  "names_json names j = (case j of JStr s \<Rightarrow> s \<in> names | _ \<Rightarrow> False)"

definition json_starts :: "string \<Rightarrow> json \<Rightarrow> bool" where
  "json_starts p j = (case j of JStr s \<Rightarrow> starts_with p s | _ \<Rightarrow> False)"

fun json_to_yaml :: "json \<Rightarrow> yaml" where
  "json_to_yaml JNull = YNull"
| "json_to_yaml (JBool b) = YBool b"
| "json_to_yaml (JInt n) = YInt n"
| "json_to_yaml (JFloat f) = YFloat f"
| "json_to_yaml (JStr s) = YStr s"
| "json_to_yaml (JList xs) = YList (map json_to_yaml xs)"
| "json_to_yaml (JObj d) = YMap (map (\<lambda>(k, v). (YStr k, json_to_yaml v)) d)"

section \<open>Rules\<close>

definition rule_target :: "string \<Rightarrow> string option" where
  "rule_target rule = (let parts = split_on CHR '','' rule in
     if length parts < 2 then None
     else if parts ! 0 = ''MATCH'' then (if length parts \<noteq> 2 then None else Some (parts ! 1))
     else if length parts < 3 then None
     else Some (parts ! 2))"

section \<open>The top level\<close>

definition DOWNLOAD_GROUP :: string where
  "DOWNLOAD_GROUP = map char_of [0xE4, 0xB8, 0x8B, 0xE8, 0xBD, 0xBD, 0xE6, 0xB5, 0x81, 0xE9, 0x87, 0x8F :: nat]"

definition expected_listener :: "json dict" where
  "expected_listener = [(''name'', JStr ''download-in''), (''type'', JStr ''mixed''), (''listen'', JStr ''127.0.0.1''),
     (''proxy'', JStr DOWNLOAD_GROUP)]"

definition listener_allowed :: "json dict \<Rightarrow> json \<Rightarrow> bool" where
  "listener_allowed config j = (case j of
     JList [JObj l] \<Rightarrow>
       list_all (\<lambda>(k, v). json_get l k = v) expected_listener
       \<and> set (dict_keys l) = insert ''port'' (set (dict_keys expected_listener))
       \<and> (case as_int (json_get l ''port'') of None \<Rightarrow> False
          | Some n \<Rightarrow> 1 \<le> n \<and> n \<le> 65535 \<and> \<not> eq_int (json_get config ''mixed-port'') n)
   | _ \<Rightarrow> False)"

definition top_level_errors :: "json dict \<Rightarrow> config_error list" where
  "top_level_errors config =
     report_if (contains_control (json_to_yaml (JObj config))) ControlCharactersPresent
   @ report_if (''proxies'' \<in> set (dict_keys config)) RawProxies
   @ (let forbidden = sort (filter (\<lambda>k. k \<in> set (dict_keys config)) FORBIDDEN_TOP_LEVEL) in
      report_if (forbidden \<noteq> []) (ForbiddenTopLevel forbidden))
   @ (let listeners = json_get config ''listeners'' in
      report_if (listeners \<noteq> JNull \<and> \<not> listener_allowed config listeners) ForbiddenListener)"

definition providers_of :: "json dict \<Rightarrow> json dict" where
  "providers_of config = (case get_or config ''proxy-providers'' (JObj []) of JObj d \<Rightarrow> d | _ \<Rightarrow> [])"

definition rule_providers_of :: "json dict \<Rightarrow> json dict" where
  "rule_providers_of config = (case get_or config ''rule-providers'' (JObj []) of JObj d \<Rightarrow> d | _ \<Rightarrow> [])"

definition groups_of :: "json dict \<Rightarrow> json list" where
  "groups_of config = (case get_or config ''proxy-groups'' (JList []) of JList xs \<Rightarrow> xs | _ \<Rightarrow> [])"

definition is_obj :: "json \<Rightarrow> bool" where
  "is_obj j = (case j of JObj _ \<Rightarrow> True | _ \<Rightarrow> False)"

definition is_list :: "json \<Rightarrow> bool" where
  "is_list j = (case j of JList _ \<Rightarrow> True | _ \<Rightarrow> False)"

definition section_errors :: "json dict \<Rightarrow> config_error list" where
  "section_errors config =
     report_if (\<not> is_obj (get_or config ''proxy-providers'' (JObj []))) ProvidersNotMap
   @ report_if (\<not> is_obj (get_or config ''rule-providers'' (JObj []))) RuleProvidersNotMap
   @ report_if (\<not> is_list (get_or config ''proxy-groups'' (JList []))) GroupsNotAList"

section \<open>Providers\<close>

text \<open>The owner of each runtime proxy name, and the errors.\<close>

type_synonym owners = "string dict \<times> config_error list"

definition dialer_errors :: "string \<Rightarrow> json \<Rightarrow> config_error list" where
  "dialer_errors provider dialer =
     (if dialer = JNull then []
      else report_if (\<not> starts_with ''cr_chain_exit_'' provider) (UncontrolledDialer provider)
         @ report_if (\<not> json_starts ''__CR_CHAIN_ENTRY_AUTO_'' dialer) (DialerNotEntry provider))"

definition check_proxy :: "string \<Rightarrow> owners \<Rightarrow> json \<Rightarrow> owners" where
  "check_proxy provider acc item = (case acc of (owner, errors) \<Rightarrow> (case item of
     JObj d \<Rightarrow> (case json_get d ''name'' of
         JStr name \<Rightarrow>
           if name = [] then (owner, errors @ [UnnamedProxy provider])
           else (dict_set name provider owner,
             errors @ (case map_of owner name of Some p \<Rightarrow> [SharedProxyName name p provider] | None \<Rightarrow> [])
               @ dialer_errors provider (json_get d ''dialer-proxy''))
       | _ \<Rightarrow> (owner, errors @ [UnnamedProxy provider]))
   | _ \<Rightarrow> (owner, errors @ [NonMappingProxy provider])))"

definition health_errors :: "string \<Rightarrow> json \<Rightarrow> config_error list" where
  "health_errors provider health = (case health of
     JObj h \<Rightarrow>
       if json_get h ''enable'' \<noteq> JBool True then [NoHealthCheck provider]
       else report_if (\<not> json_starts ''https://'' (json_get h ''url'')) (HealthUrlNotHttps provider)
          @ report_if (\<not> expected_status_ok (get_or h ''expected-status'' (JStr ''''))) (BadProviderStatus provider)
   | _ \<Rightarrow> [NoHealthCheck provider])"

definition external_fields :: "json dict \<Rightarrow> bool" where
  "external_fields d \<longleftrightarrow> ''url'' \<in> set (dict_keys d) \<or> ''path'' \<in> set (dict_keys d)"

definition check_provider :: "owners \<Rightarrow> string \<times> json \<Rightarrow> owners" where
  "check_provider acc entry = (case (acc, entry) of ((owner, errors), (name, row)) \<Rightarrow>
     if name = [] then (owner, errors @ [UnnamedProvider])
     else (case row of JObj d \<Rightarrow>
       (let errors = errors @ report_if (json_get d ''type'' \<noteq> JStr ''inline'') (ProviderNotInline name)
              @ report_if (external_fields d) (ProviderExternal name) in
        (case json_get d ''payload'' of
           JList payload \<Rightarrow>
             if payload = [] then (owner, errors @ [ProviderEmpty name])
             else foldl (check_proxy name) (owner, errors @ health_errors name (json_get d ''health-check'')) payload
         | _ \<Rightarrow> (owner, errors @ [ProviderEmpty name])))
     | _ \<Rightarrow> (owner, errors @ [ProviderNotMap name])))"

definition provider_errors :: "json dict \<Rightarrow> config_error list" where
  "provider_errors config = snd (foldl check_provider ([], []) (providers_of config))"

definition classical_rule :: "json \<Rightarrow> bool" where
  "classical_rule j = (case j of JStr s \<Rightarrow> py_strip s \<noteq> [] \<and> CHR '','' \<in> set s | _ \<Rightarrow> False)"

definition check_rule_provider :: "string \<times> json \<Rightarrow> config_error list" where
  "check_rule_provider entry = (case entry of (name, row) \<Rightarrow>
     if name = [] then [UnnamedRuleProvider]
     else (case row of JObj d \<Rightarrow>
         report_if (json_get d ''type'' \<noteq> JStr ''inline'') (RuleProviderNotInline name)
       @ report_if (json_get d ''behavior'' \<noteq> JStr ''classical'') (RuleProviderNotClassical name)
       @ report_if (external_fields d) (RuleProviderExternal name)
       @ (case json_get d ''payload'' of
            JList payload \<Rightarrow> if payload = [] then [RuleProviderEmpty name]
              else report_if (\<not> list_all classical_rule payload) (BadClassicalRule name)
          | _ \<Rightarrow> [RuleProviderEmpty name])
     | _ \<Rightarrow> [RuleProviderNotMap name]))"

section \<open>Groups\<close>

definition check_group_row :: "json dict dict \<times> config_error list \<Rightarrow> json \<Rightarrow> json dict dict \<times> config_error list" where
  "check_group_row acc row = (case acc of (rows, errors) \<Rightarrow> (case row of
     JObj d \<Rightarrow> (case json_get d ''name'' of
         JStr name \<Rightarrow>
           if name = [] then (rows, errors @ [UnnamedGroup])
           else (dict_set name d rows, errors @ report_if (name \<in> set (dict_keys rows)) (DuplicateGroupName name))
       | _ \<Rightarrow> (rows, errors @ [UnnamedGroup]))
   | _ \<Rightarrow> (rows, errors @ [GroupNotMap])))"

definition group_rows :: "json dict \<Rightarrow> json dict dict \<times> config_error list" where
  "group_rows config = foldl check_group_row ([], []) (groups_of config)"

text \<open>What the checks of a group see of the document.\<close>

record group_context =
  gc_rows :: "json dict dict"
  gc_providers :: "json dict"
  gc_graph :: "runtime_graph option"

definition group_names :: "group_context \<Rightarrow> string set" where
  "group_names c = set (dict_keys (gc_rows c))"

definition row_hidden :: "json dict \<Rightarrow> bool" where
  "row_hidden row = truthy (get_or row ''hidden'' (JBool False))"

definition hidden_names :: "group_context \<Rightarrow> string set" where
  "hidden_names c = fst ` {e \<in> set (gc_rows c). row_hidden (snd e)}"

definition presentation_hidden_names :: "group_context \<Rightarrow> string set" where
  "presentation_hidden_names c = {n \<in> hidden_names c. \<not> starts_with ''__CR_'' n}"

text \<open>A list field of a group whose absence and \<^verbatim>\<open>None\<close> mean no entries.\<close>

definition list_field :: "json dict \<Rightarrow> string \<Rightarrow> json list" where
  "list_field row k = (case get_or row k (JList []) of JList xs \<Rightarrow> xs | _ \<Rightarrow> [])"

definition list_field_error :: "json dict \<Rightarrow> string \<Rightarrow> config_error \<Rightarrow> config_error list" where
  "list_field_error row k e = (let j = get_or row k (JList []) in report_if (j \<noteq> JNull \<and> \<not> is_list j) e)"

definition check_member :: "group_context \<Rightarrow> string \<Rightarrow> json \<Rightarrow> config_error list \<Rightarrow> config_failure + config_error list" where
  "check_member c name reference errors = bindE (hashed reference) (\<lambda>_.
     Inr (errors @ report_if (\<not> names_json (group_names c) reference \<and> \<not> names_json (set BUILTINS) reference)
       (UnknownReference name reference)))"

definition check_use :: "group_context \<Rightarrow> string \<Rightarrow> json \<Rightarrow> config_error list \<Rightarrow> config_failure + config_error list" where
  "check_use c name p errors = bindE (hashed p) (\<lambda>_.
     Inr (errors @ report_if (\<not> names_json (set (dict_keys (gc_providers c))) p) (UnknownProvider name p)))"

definition escaped :: "graph_error + 'a \<Rightarrow> config_failure + 'a" where
  "escaped r = (case r of Inl e \<Rightarrow> Inl (Escaped e) | Inr x \<Rightarrow> Inr x)"

definition is_probe_type :: "json \<Rightarrow> bool" where
  "is_probe_type j \<longleftrightarrow> j \<in> {JStr ''url-test'', JStr ''fallback''}"

text \<open>A stable tier that was emptied on purpose: it matches nothing and rejects.\<close>

definition emptied_tier :: "string \<Rightarrow> json dict \<Rightarrow> bool" where
  "emptied_tier name row \<longleftrightarrow>
     (starts_with ''__CR_BROWSING_'' name \<or> starts_with ''__CR_WEB_GENERAL_'' name) \<and> ends_with ''_STABLE_AUTO'' name
     \<and> json_get row ''hidden'' = JBool True \<and> json_get row ''filter'' = JStr ''^$''
     \<and> json_get row ''proxies'' = JList [JStr ''REJECT'']"

definition explicit_empty_stable :: "runtime_graph \<Rightarrow> string \<Rightarrow> json dict \<Rightarrow> config_failure + bool" where
  "explicit_empty_stable g name row =
     (if \<not> emptied_tier name row then Inr False
      else bindE (escaped (walk_resolved g name)) (\<lambda>r. Inr (reached_builtins r = {''REJECT''})))"

definition leaf_errors ::
  "(string \<Rightarrow> (string \<Rightarrow> bool) option) \<Rightarrow> group_context \<Rightarrow> string \<Rightarrow> json dict \<Rightarrow> config_failure + config_error list" where
  "leaf_errors compile c name row = (case gc_graph c of
     Some g \<Rightarrow>
       if is_probe_type (json_get row ''type'') then
         (case effective_leaf_proxies compile g name of
            Inl e \<Rightarrow> Inr [LeavesFailed name e]
          | Inr found \<Rightarrow> bindE (explicit_empty_stable g name row) (\<lambda>emptied.
              Inr (report_if (found = {} \<and> \<not> emptied) (NoLeaves name))))
       else Inr []
   | None \<Rightarrow> Inr [])"

text \<open>References to hidden groups that are neither presentation groups nor shared anchors.\<close>

definition unsafe_hidden_refs :: "group_context \<Rightarrow> json list \<Rightarrow> json list" where
  "unsafe_hidden_refs c refs = filter (\<lambda>r. names_json (hidden_names c) r
     \<and> \<not> names_json (presentation_hidden_names c) r
     \<and> \<not> list_ex (\<lambda>p. json_starts p r) SAFE_SHARED_ANCHOR_PREFIXES) refs"

definition same_providers :: "json list \<Rightarrow> string set \<Rightarrow> bool" where
  "same_providers uses names \<longleftrightarrow> set uses = JStr ` names"

definition provider_set :: "runtime_graph \<Rightarrow> string \<Rightarrow> config_failure + string set" where
  "provider_set g name = bindE (escaped (provider_order g name)) (\<lambda>ps. Inr (set ps))"

definition add_reference_providers ::
  "group_context \<Rightarrow> runtime_graph \<Rightarrow> json \<Rightarrow> string set \<Rightarrow> config_failure + string set" where
  "add_reference_providers c g reference found = (case reference of
     JStr r \<Rightarrow> if r \<in> group_names c then bindE (provider_set g r) (\<lambda>ps. Inr (found \<union> ps)) else Inr found
   | _ \<Rightarrow> Inr found)"

definition reference_providers :: "group_context \<Rightarrow> json list \<Rightarrow> config_failure + string set" where
  "reference_providers c refs = (case gc_graph c of None \<Rightarrow> Inr {}
     | Some g \<Rightarrow> foldE (add_reference_providers c g) refs {})"

definition filtered_public_errors ::
  "group_context \<Rightarrow> string \<Rightarrow> json list \<Rightarrow> json list \<Rightarrow> config_failure + config_error list" where
  "filtered_public_errors c name refs uses =
     bindE (reference_providers c refs) (\<lambda>reachable.
       Inr (report_if (unsafe_hidden_refs c refs \<noteq> []) (FilteredInternalReference name)
          @ report_if (reachable \<noteq> {} \<and> \<not> same_providers uses reachable) (FilteredProvidersEscape name)))"

definition anchored_public_errors ::
  "group_context \<Rightarrow> string \<Rightarrow> json list \<Rightarrow> json list \<Rightarrow> config_failure + config_error list" where
  "anchored_public_errors c name refs uses = (case refs of
     [JStr anchor] \<Rightarrow>
       if anchor \<notin> hidden_names c then Inr [NoSingleAnchor name]
       else (case gc_graph c of None \<Rightarrow> Inr []
         | Some g \<Rightarrow> bindE (provider_set g anchor) (\<lambda>reachable.
             Inr (report_if (\<not> same_providers uses reachable) (AnchorProvidersEscape name))))
   | _ \<Rightarrow> Inr [NoSingleAnchor name])"

definition text_present :: "json \<Rightarrow> bool" where
  "text_present j = (case j of JStr s \<Rightarrow> s \<noteq> [] | _ \<Rightarrow> False)"

definition public_errors ::
  "group_context \<Rightarrow> string \<Rightarrow> json dict \<Rightarrow> json list \<Rightarrow> config_failure + config_error list" where
  "public_errors c name row uses =
     (let refs = list_field row ''proxies'' in
      bindE (if uses \<noteq> [] then
               (if text_present (json_get row ''filter'') then filtered_public_errors c name refs uses
                else anchored_public_errors c name refs uses)
             else Inr (report_if (unsafe_hidden_refs c refs \<noteq> []) (PolicyInternalReference name))) (\<lambda>errors.
        Inr (report_if (json_get row ''type'' \<noteq> JStr ''select'') (PublicNotSelect name)
           @ report_if (\<not> is_list (get_or row ''proxies'' (JList []))) (PublicProxiesNotList name)
           @ report_if (refs = [] \<and> uses = []) (PublicEmpty name) @ errors)))"

definition nested_errors :: "group_context \<Rightarrow> string \<Rightarrow> json dict \<Rightarrow> json list \<Rightarrow> config_failure + config_error list" where
  "nested_errors c name row uses = (case (gc_graph c, get_or row ''proxies'' (JList [])) of
     (Some g, JList [JStr anchor]) \<Rightarrow>
       if anchor \<in> hidden_names c \<and> list_ex (\<lambda>p. starts_with p anchor) SAFE_SHARED_ANCHOR_PREFIXES
       then bindE (provider_set g anchor) (\<lambda>reachable.
         Inr (report_if (\<not> same_providers uses reachable) (NestedProvidersEscape name)))
       else Inr []
   | _ \<Rightarrow> Inr [])"

definition presentation_errors ::
  "group_context \<Rightarrow> string \<Rightarrow> json dict \<Rightarrow> json list \<Rightarrow> json list \<Rightarrow> config_failure + config_error list" where
  "presentation_errors c name row refs uses =
     (let t = json_get row ''type'' in
      bindE (if t = JStr ''select'' \<and> uses \<noteq> [] then nested_errors c name row uses else Inr []) (\<lambda>errors.
        Inr (report_if (t \<noteq> JStr ''select'' \<and> \<not> is_probe_type t) (HiddenType name)
           @ report_if (is_probe_type t \<and> uses = [] \<and> refs = []) (HiddenEmpty name) @ errors)))"

definition check_group ::
  "(string \<Rightarrow> (string \<Rightarrow> bool) option) \<Rightarrow> group_context \<Rightarrow> string \<times> json dict \<Rightarrow> config_error list
    \<Rightarrow> config_failure + config_error list" where
  "check_group compile c entry errors = (case entry of (name, row) \<Rightarrow>
     (let refs = list_field row ''proxies''; uses = list_field row ''use'' in
      bindE (foldE (check_member c name) refs (errors @ list_field_error row ''proxies'' (GroupProxiesNotList name))) (\<lambda>errors.
      bindE (foldE (check_use c name) uses (errors @ list_field_error row ''use'' (GroupUseNotList name))) (\<lambda>errors.
      bindE (hashed (json_get row ''type'')) (\<lambda>_.
      bindE (leaf_errors compile c name row) (\<lambda>leaf.
      bindE (if \<not> row_hidden row then public_errors c name row uses
             else if \<not> starts_with ''__CR_'' name then presentation_errors c name row refs uses
             else Inr []) (\<lambda>shape.
        Inr (errors
          @ report_if (is_probe_type (json_get row ''type'') \<and> ''expected-status'' \<in> set (dict_keys row)
              \<and> \<not> expected_status_ok (json_get row ''expected-status'')) (BadGroupStatus name)
          @ leaf @ shape))))))))"

section \<open>References across the document\<close>

definition check_dialer :: "group_context \<Rightarrow> string \<Rightarrow> json \<Rightarrow> config_error list \<Rightarrow> config_failure + config_error list" where
  "check_dialer c provider item errors = (case item of
     JObj d \<Rightarrow> (case map_of d ''dialer-proxy'' of None \<Rightarrow> Inr errors
       | Some dialer \<Rightarrow> bindE (hashed dialer) (\<lambda>_.
           Inr (errors @ report_if (\<not> names_json (group_names c) dialer) (DialerUnknownGroup provider))))
   | _ \<Rightarrow> Inr errors)"

text \<open>Iterating a text or a mapping yields texts, which are no proxies.\<close>

definition check_dialers :: "group_context \<Rightarrow> string \<times> json \<Rightarrow> config_error list \<Rightarrow> config_failure + config_error list" where
  "check_dialers c entry errors = (case snd entry of
     JObj d \<Rightarrow> (case get_or d ''payload'' (JList []) of
         JList payload \<Rightarrow> foldE (check_dialer c (fst entry)) payload errors
       | JStr _ \<Rightarrow> Inr errors
       | JObj _ \<Rightarrow> Inr errors
       | _ \<Rightarrow> Inl NotIterable)
   | _ \<Rightarrow> Inr errors)"

definition cycle_errors :: "group_context \<Rightarrow> config_error list" where
  "cycle_errors c = (case gc_graph c of None \<Rightarrow> []
     | Some g \<Rightarrow> (case group_cycles g of Inl e \<Rightarrow> [CycleFailed e] | Inr [] \<Rightarrow> [] | Inr (x # xs) \<Rightarrow> [CycleDetected x]))"

text \<open>The targets of the rules among the groups, and the errors.\<close>

definition check_rule ::
  "group_context \<Rightarrow> json dict \<Rightarrow> string list \<times> config_error list \<Rightarrow> json \<Rightarrow> string list \<times> config_error list" where
  "check_rule c rule_providers acc raw = (case acc of (targets, errors) \<Rightarrow> (case raw of
     JStr rule \<Rightarrow>
       (let parts = split_on CHR '','' rule in
        if parts ! 0 = ''RULE-SET'' \<and> (length parts < 3 \<or> parts ! 1 \<notin> set (dict_keys rule_providers))
        then (targets, errors @ [UnknownRuleProvider rule])
        else (case rule_target rule of None \<Rightarrow> (targets, errors @ [InvalidRule rule])
          | Some target \<Rightarrow>
              if target \<notin> group_names c \<and> target \<notin> set BUILTINS then (targets, errors @ [UnknownTarget target])
              else if target \<in> group_names c then (add_name target targets, errors)
              else (targets, errors)))
   | _ \<Rightarrow> (targets, errors @ [RuleNotText])))"

text \<open>Values as a set distinguishes them: numbers by their value.\<close>

definition set_key :: "json \<Rightarrow> json" where
  "set_key j = (case j of JBool b \<Rightarrow> JInt (if b then 1 else 0)
     | JFloat (Fin q) \<Rightarrow> if q = of_int \<lfloor>q\<rfloor> then JInt \<lfloor>q\<rfloor> else j
     | _ \<Rightarrow> j)"

definition rule_errors :: "group_context \<Rightarrow> json dict \<Rightarrow> config_failure + string list \<times> config_error list" where
  "rule_errors c config = (case get_or config ''rules'' (JList []) of
     JList rules \<Rightarrow>
       if rules = [] then Inr ([], [RulesEmpty])
       else bindE (foldE (\<lambda>r _. hashed r) rules ()) (\<lambda>_.
         Inr (foldl (check_rule c (rule_providers_of config))
           ([], report_if (\<not> json_starts ''MATCH,'' (last rules)) FinalRuleNotMatch
              @ report_if (\<not> distinct (map set_key rules)) DuplicateRules) rules))
   | _ \<Rightarrow> Inr ([], [RulesEmpty]))"

definition visible_names :: "group_context \<Rightarrow> string list" where
  "visible_names c = map fst (filter (\<lambda>e. \<not> row_hidden (snd e)) (gc_rows c))"

definition presentation_reachable :: "group_context \<Rightarrow> string list \<Rightarrow> config_failure + config_error list" where
  "presentation_reachable c targets = (case gc_graph c of None \<Rightarrow> Inr []
     | Some g \<Rightarrow>
         bindE (escaped (reachable_groups g (visible_names c))) (\<lambda>ui.
         bindE (escaped (reachable_groups g targets)) (\<lambda>rules.
           Inr (map UnreachablePresentation
             (filter (\<lambda>n. n \<notin> ui \<union> rules) (sorted_list_of_set (presentation_hidden_names c)))))))"

definition secret_errors :: "string list \<Rightarrow> json dict \<Rightarrow> config_error list" where
  "secret_errors secret_urls config =
     report_if (list_ex (\<lambda>s. s \<noteq> [] \<and> has_part s (json_dumps_raw (JObj config))) secret_urls) SecretLeaked"

section \<open>The validation\<close>

definition context_of :: "json dict \<Rightarrow> group_context" where
  "context_of config = \<lparr>gc_rows = fst (group_rows config), gc_providers = providers_of config,
     gc_graph = (case from_candidate (JObj config) of Inl _ \<Rightarrow> None | Inr g \<Rightarrow> Some g)\<rparr>"

definition graph_failure :: "json dict \<Rightarrow> config_error list" where
  "graph_failure config = (case from_candidate (JObj config) of Inl e \<Rightarrow> [GraphFailed e] | Inr _ \<Rightarrow> [])"

text \<open>\<open>audits\<close> gives the texts of the two DNS audits that fail, in their order.\<close>

definition config_errors ::
  "(string \<Rightarrow> (string \<Rightarrow> bool) option) \<Rightarrow> (json dict \<Rightarrow> string list) \<Rightarrow> json dict \<Rightarrow> string list
    \<Rightarrow> config_failure + config_error list" where
  "config_errors compile audits config secret_urls =
     (let c = context_of config in
      bindE (foldE (check_group compile c) (gc_rows c)
        (top_level_errors config @ section_errors config @ provider_errors config
          @ concat (map check_rule_provider (rule_providers_of config)) @ snd (group_rows config) @ graph_failure config)) (\<lambda>errors.
      bindE (foldE (check_dialers c) (providers_of config) errors) (\<lambda>errors.
      bindE (rule_errors c config) (\<lambda>(targets, rules).
      bindE (presentation_reachable c targets) (\<lambda>presentation.
        Inr (errors @ cycle_errors c @ rules @ presentation @ map DnsAudit (audits config) @ secret_errors secret_urls config))))))"

definition validate_generated_config ::
  "(json dict \<Rightarrow> bool) \<Rightarrow> (string \<Rightarrow> (string \<Rightarrow> bool) option) \<Rightarrow> (json dict \<Rightarrow> string list) \<Rightarrow> json dict \<Rightarrow> string list
    \<Rightarrow> config_failure + unit" where
  "validate_generated_config schema compile audits config secret_urls =
     (if \<not> schema config then Inl SchemaViolation
      else bindE (config_errors compile audits config secret_urls) (\<lambda>errors.
        if errors \<noteq> [] then Inl (ConfigErrors (take 30 errors)) else Inr ()))"

end
