(* ===== verification/ValidatorFacts.thy ===== *)
theory ValidatorFacts
  imports ConfigValidator GroupCycles
begin

text \<open>
  What a document that passed \<^verbatim>\<open>validate_generated_config\<close> is: every reference resolves, every provider is
  inline with proxies of its own, dialers are confined, and no secret is in the text.
\<close>

section \<open>A valid document\<close>

definition proxy_name :: "json \<Rightarrow> string" where
  "proxy_name item = (case item of JObj d \<Rightarrow> (case json_get d ''name'' of JStr s \<Rightarrow> s | _ \<Rightarrow> []) | _ \<Rightarrow> [])"

definition item_dialer :: "json \<Rightarrow> json" where
  "item_dialer item = (case item of JObj d \<Rightarrow> json_get d ''dialer-proxy'' | _ \<Rightarrow> JNull)"

definition provider_rows :: "json \<Rightarrow> json list" where
  "provider_rows row = (case row of JObj d \<Rightarrow> (case json_get d ''payload'' of JList xs \<Rightarrow> xs | _ \<Rightarrow> []) | _ \<Rightarrow> [])"

text \<open>Only a controlled exit dials, and only through a controlled entry.\<close>

definition dialer_confined :: "string \<Rightarrow> json \<Rightarrow> bool" where
  "dialer_confined provider dialer \<longleftrightarrow> dialer = JNull
     \<or> (starts_with ''cr_chain_exit_'' provider \<and> json_starts ''__CR_CHAIN_ENTRY_AUTO_'' dialer)"

definition inline_provider :: "string \<times> json \<Rightarrow> bool" where
  "inline_provider e \<longleftrightarrow> fst e \<noteq> [] \<and> provider_rows (snd e) \<noteq> []
     \<and> (\<exists>d h. snd e = JObj d \<and> json_get d ''type'' = JStr ''inline'' \<and> \<not> external_fields d
          \<and> json_get d ''health-check'' = JObj h \<and> json_get h ''enable'' = JBool True
          \<and> json_starts ''https://'' (json_get h ''url'') \<and> expected_status_ok (get_or h ''expected-status'' (JStr '''')))
     \<and> (\<forall>item \<in> set (provider_rows (snd e)). proxy_name item \<noteq> [] \<and> dialer_confined (fst e) (item_dialer item))"

definition runtime_names :: "json dict \<Rightarrow> string list" where
  "runtime_names config = concat (map (\<lambda>e. map proxy_name (provider_rows (snd e))) (providers_of config))"

definition rule_resolves :: "group_context \<Rightarrow> json dict \<Rightarrow> json \<Rightarrow> bool" where
  "rule_resolves c rule_providers raw = (\<exists>rule target. raw = JStr rule \<and> rule_target rule = Some target
     \<and> target \<in> group_names c \<union> set BUILTINS
     \<and> (hd (split_on CHR '','' rule) = ''RULE-SET'' \<longrightarrow> split_on CHR '','' rule ! 1 \<in> set (dict_keys rule_providers)))"

section \<open>Loops that collect errors\<close>

lemma report_if_empty [simp]: "report_if b e = [] \<longleftrightarrow> \<not> b"
  by (simp add: report_if_def)

text \<open>Errors are never taken back: when none is left, none was reported.\<close>

lemma foldE_no_errors:
  assumes "foldE f xs s = Inr []" and "\<And>x s. f x s = Inr [] \<Longrightarrow> s = []"
  shows "s = [] \<and> (\<forall>x \<in> set xs. f x [] = Inr [])"
  using assms by (induction xs arbitrary: s) (auto split: sum.splits)

lemma proxies_checked:
  assumes "foldl (check_proxy p) (owner, errors) items = (owner', [])"
  shows "errors = [] \<and> (\<forall>item \<in> set items. proxy_name item \<noteq> [] \<and> dialer_confined p (item_dialer item))
    \<and> distinct (map proxy_name items) \<and> set (map proxy_name items) \<inter> set (dict_keys owner) = {}
    \<and> set (dict_keys owner') = set (dict_keys owner) \<union> set (map proxy_name items)"
  using assms
proof (induction items arbitrary: owner errors)
  case (Cons item items)
  obtain owner1 errors1 where step: "check_proxy p (owner, errors) item = (owner1, errors1)" by fastforce
  with Cons have IH: "errors1 = []" "\<forall>item \<in> set items. proxy_name item \<noteq> [] \<and> dialer_confined p (item_dialer item)"
      "distinct (map proxy_name items)" "set (map proxy_name items) \<inter> set (dict_keys owner1) = {}"
      "set (dict_keys owner') = set (dict_keys owner1) \<union> set (map proxy_name items)" by auto
  from step IH(1) obtain d where item: "item = JObj d" by (cases item) (auto simp: check_proxy_def)
  from step IH(1) item obtain name where name: "json_get d ''name'' = JStr name" "name \<noteq> []"
    by (cases "json_get d ''name''") (auto simp: check_proxy_def split: if_splits)
  from step IH(1) item name have d: "owner1 = dict_set name p owner" "errors = []" "dialer_errors p (json_get d ''dialer-proxy'') = []"
      "(case map_of owner name of Some q \<Rightarrow> [SharedProxyName name q p] | None \<Rightarrow> []) = []"
    by (simp_all add: check_proxy_def)
  from d(4) have fresh: "name \<notin> set (dict_keys owner)" by (simp add: map_of_eq_None_iff split: option.splits)
  from d(3) have "dialer_confined p (json_get d ''dialer-proxy'')" by (auto simp: dialer_confined_def dialer_errors_def split: if_splits)
  then have "proxy_name item = name" "dialer_confined p (item_dialer item)"
    by (simp_all add: proxy_name_def item_dialer_def item name)
  with IH d(1,2) name(2) fresh show ?case by auto
qed simp

lemma providers_checked:
  assumes "foldl check_provider (owner, errors) es = (owner', [])"
  shows "errors = [] \<and> (\<forall>e \<in> set es. inline_provider e)
    \<and> distinct (concat (map (\<lambda>e. map proxy_name (provider_rows (snd e))) es))
    \<and> set (concat (map (\<lambda>e. map proxy_name (provider_rows (snd e))) es)) \<inter> set (dict_keys owner) = {}"
  using assms
proof (induction es arbitrary: owner errors)
  case (Cons e es)
  obtain name row where e: "e = (name, row)" by fastforce
  obtain owner1 errors1 where step: "check_provider (owner, errors) e = (owner1, errors1)" by fastforce
  with Cons have IH: "errors1 = []" "\<forall>e \<in> set es. inline_provider e"
      "distinct (concat (map (\<lambda>e. map proxy_name (provider_rows (snd e))) es))"
      "set (concat (map (\<lambda>e. map proxy_name (provider_rows (snd e))) es)) \<inter> set (dict_keys owner1) = {}" by auto
  from step IH(1) e have n: "name \<noteq> []" by (auto simp: check_provider_def)
  from step IH(1) e n obtain d where d: "row = JObj d" by (cases row) (auto simp: check_provider_def)
  from step IH(1) e n d obtain items where items: "json_get d ''payload'' = JList items" "items \<noteq> []"
    by (cases "json_get d ''payload''") (auto simp: check_provider_def Let_def split: if_splits)
  let ?errors = "(errors @ report_if (json_get d ''type'' \<noteq> JStr ''inline'') (ProviderNotInline name)
              @ report_if (external_fields d) (ProviderExternal name)) @ health_errors name (json_get d ''health-check'')"
  from step IH(1) e n d items have "foldl (check_proxy name) (owner, ?errors) items = (owner1, [])"
    by (simp add: check_provider_def Let_def)
  note items_checked = proxies_checked [OF this]
  then have none: "errors = []" "json_get d ''type'' = JStr ''inline''" "\<not> external_fields d"
      "health_errors name (json_get d ''health-check'') = []" by auto
  from none(4) obtain h where h: "json_get d ''health-check'' = JObj h" "json_get h ''enable'' = JBool True"
      "json_starts ''https://'' (json_get h ''url'')" "expected_status_ok (get_or h ''expected-status'' (JStr ''''))"
    by (cases "json_get d ''health-check''") (auto simp: health_errors_def split: if_splits)
  have rows: "provider_rows row = items" by (simp add: provider_rows_def d items)
  have "inline_provider e"
    unfolding inline_provider_def e fst_conv snd_conv rows using items_checked n none h items(2) d by auto
  moreover have "set (dict_keys owner1) = set (dict_keys owner) \<union> set (map proxy_name items)" "distinct (map proxy_name items)"
      "set (map proxy_name items) \<inter> set (dict_keys owner) = {}" using items_checked by blast+
  ultimately show ?case using IH(2-4) none(1) rows unfolding e
    by (simp only: list.map concat.simps snd_conv distinct_append set_append ball_simps list.set) blast
qed simp

lemma rules_checked:
  assumes "foldl (check_rule c rps) (targets, errors) rules = (targets', [])"
  shows "errors = [] \<and> (\<forall>raw \<in> set rules. rule_resolves c rps raw)"
  using assms
proof (induction rules arbitrary: targets errors)
  case (Cons raw rules)
  obtain targets1 errors1 where step: "check_rule c rps (targets, errors) raw = (targets1, errors1)" by fastforce
  with Cons have IH: "errors1 = []" "\<forall>raw \<in> set rules. rule_resolves c rps raw" by auto
  from step IH(1) obtain rule where raw: "raw = JStr rule" by (cases raw) (auto simp: check_rule_def)
  have hd: "hd (split_on CHR '','' rule) = split_on CHR '','' rule ! 0" by (rule hd_conv_nth) simp
  from step IH(1) raw show ?case using IH(2)
    by (auto simp: check_rule_def Let_def rule_resolves_def hd split: if_splits option.splits)
qed simp

section \<open>Groups and dialers\<close>

definition group_resolves :: "group_context \<Rightarrow> json dict \<Rightarrow> bool" where
  "group_resolves c row \<longleftrightarrow>
     (\<forall>r \<in> set (list_field row ''proxies''). names_json (group_names c \<union> set BUILTINS) r)
     \<and> (\<forall>u \<in> set (list_field row ''use''). names_json (set (dict_keys (gc_providers c))) u)"

text \<open>A group that clients offer is a choice, and it offers something.\<close>

definition offers_choice :: "json dict \<Rightarrow> bool" where
  "offers_choice row \<longleftrightarrow> row_hidden row
     \<or> (json_get row ''type'' = JStr ''select'' \<and> (list_field row ''proxies'' \<noteq> [] \<or> list_field row ''use'' \<noteq> []))"

lemma names_json_union: "names_json (a \<union> b) j \<longleftrightarrow> names_json a j \<or> names_json b j"
  by (cases j) (simp_all add: names_json_def)

lemma member_checked:
  "check_member c name r errors = Inr [] \<Longrightarrow> errors = [] \<and> names_json (group_names c \<union> set BUILTINS) r"
  by (auto simp: check_member_def bindE_Inr_iff names_json_union)

lemma use_checked:
  "check_use c name p errors = Inr [] \<Longrightarrow> errors = [] \<and> names_json (set (dict_keys (gc_providers c))) p"
  by (auto simp: check_use_def bindE_Inr_iff)

lemma public_checked: "public_errors c name row uses = Inr [] \<Longrightarrow> uses = list_field row ''use'' \<Longrightarrow> offers_choice row"
  by (auto simp: public_errors_def Let_def bindE_Inr_iff offers_choice_def split: if_splits)

lemma group_checked:
  assumes "check_group compile c (name, row) errors = Inr []"
  shows "errors = [] \<and> group_resolves c row \<and> offers_choice row"
proof -
  let ?refs = "list_field row ''proxies''" and ?uses = "list_field row ''use''"
  let ?e = "errors @ list_field_error row ''proxies'' (GroupProxiesNotList name)"
  from assms obtain e1 e2 shape where
      m: "foldE (check_member c name) ?refs ?e = Inr e1"
    and u: "foldE (check_use c name) ?uses (e1 @ list_field_error row ''use'' (GroupUseNotList name)) = Inr e2"
    and s: "(if \<not> row_hidden row then public_errors c name row ?uses
             else if \<not> starts_with ''__CR_'' name then presentation_errors c name row ?refs ?uses else Inr []) = Inr shape"
    and e: "e2 = []" "shape = []"
    by (auto simp: check_group_def Let_def bindE_Inr_iff)
  from foldE_no_errors [OF u [unfolded e]] use_checked
  have e1: "e1 = []" and uses: "\<forall>p \<in> set ?uses. names_json (set (dict_keys (gc_providers c))) p" by fastforce+
  from foldE_no_errors [OF m [unfolded e1]] member_checked
  have "errors = []" "\<forall>r \<in> set ?refs. names_json (group_names c \<union> set BUILTINS) r" by fastforce+
  moreover have "offers_choice row"
    using s e(2) public_checked by (auto simp: offers_choice_def split: if_splits)
  ultimately show ?thesis using uses by (simp add: group_resolves_def)
qed

lemma dialer_checked:
  "check_dialer c p item errors = Inr [] \<Longrightarrow> errors = []
     \<and> (item_dialer item \<noteq> JNull \<longrightarrow> names_json (group_names c) (item_dialer item))"
  by (cases item) (auto simp: check_dialer_def bindE_Inr_iff json_get_def item_dialer_def split: option.splits)

lemma dialers_checked:
  assumes "check_dialers c e errors = Inr []"
  shows "errors = [] \<and> (inline_provider e \<longrightarrow>
    (\<forall>item \<in> set (provider_rows (snd e)). item_dialer item \<noteq> JNull \<longrightarrow> names_json (group_names c) (item_dialer item)))"
proof (cases "snd e")
  case (JObj d)
  show ?thesis
  proof (cases "get_or d ''payload'' (JList [])")
    case (JList items)
    with assms JObj have "foldE (check_dialer c (fst e)) items errors = Inr []" by (simp add: check_dialers_def)
    note all = foldE_no_errors [OF this] dialer_checked
    then have "errors = []" by blast
    moreover have "names_json (group_names c) (item_dialer item)"
      if i: "item \<in> set (provider_rows (snd e))" "item_dialer item \<noteq> JNull" for item
    proof -
      from i(1) JObj JList have "item \<in> set items"
        by (auto simp: provider_rows_def get_or_def json_get_def split: option.splits)
      then have "check_dialer c (fst e) item [] = Inr []" using all by blast
      from dialer_checked [OF this] i(2) show ?thesis by blast
    qed
    ultimately show ?thesis by blast
  qed (use assms JObj in \<open>auto simp: check_dialers_def provider_rows_def get_or_def json_get_def split: option.splits\<close>)
qed (use assms in \<open>auto simp: check_dialers_def inline_provider_def\<close>)

section \<open>The whole document\<close>

lemma graph_context:
  "graph_failure config = [] \<Longrightarrow> \<exists>g. from_candidate (JObj config) = Inr g \<and> gc_graph (context_of config) = Some g"
  by (cases "from_candidate (JObj config)") (simp_all add: graph_failure_def context_of_def)

lemma cycles_checked: "cycle_errors c = [] \<Longrightarrow> gc_graph c = Some g \<Longrightarrow> \<nexists>x. (group_edge g)\<^sup>+\<^sup>+ x x"
  using group_cycles_verdict [of g] by (auto simp: cycle_errors_def split: sum.splits list.splits)

lemma rule_list_checked:
  assumes "rule_errors c config = Inr (targets, [])"
  shows "\<exists>rules. get_or config ''rules'' (JList []) = JList rules \<and> rules \<noteq> [] \<and> distinct (map set_key rules)
    \<and> json_starts ''MATCH,'' (last rules) \<and> (\<forall>raw \<in> set rules. rule_resolves c (rule_providers_of config) raw)"
proof (cases "get_or config ''rules'' (JList [])")
  case (JList rules)
  with assms show ?thesis
    by (auto simp: rule_errors_def bindE_Inr_iff split: if_splits dest!: rules_checked)
qed (use assms in \<open>simp_all add: rule_errors_def\<close>)

text \<open>
  C12.  A document that \<^verbatim>\<open>validate_generated_config\<close> accepts is safe to publish.  No group reaches itself;
  every member, provider and rule target a group or a rule names is in the document or built in; every
  group that clients see is a choice with something to choose; every provider is inline, probed
  over HTTPS, and gives its proxies names no other proxy of the document has; only a controlled exit
  dials, through a controlled entry that is a group; the rules are distinct and end with a catch-all;
  and no secret subscription address occurs in the text of the document.
\<close>

theorem validated_config_safe:
  assumes "validate_generated_config schema compile audits config secret_urls = Inr ()"
  defines "c \<equiv> context_of config"
  shows "(\<exists>g. from_candidate (JObj config) = Inr g \<and> (\<nexists>x. (group_edge g)\<^sup>+\<^sup>+ x x))
    \<and> (\<forall>(name, row) \<in> set (gc_rows c). group_resolves c row \<and> offers_choice row)
    \<and> (\<forall>e \<in> set (providers_of config). inline_provider e) \<and> distinct (runtime_names config)
    \<and> (\<forall>e \<in> set (providers_of config). \<forall>item \<in> set (provider_rows (snd e)).
         item_dialer item \<noteq> JNull \<longrightarrow> names_json (group_names c) (item_dialer item))
    \<and> (\<exists>rules. get_or config ''rules'' (JList []) = JList rules \<and> rules \<noteq> [] \<and> distinct (map set_key rules)
         \<and> json_starts ''MATCH,'' (last rules) \<and> (\<forall>raw \<in> set rules. rule_resolves c (rule_providers_of config) raw))
    \<and> (\<forall>s \<in> set secret_urls. s \<noteq> [] \<longrightarrow> \<not> has_part s (json_dumps_raw (JObj config)))"
proof -
  let ?start = "top_level_errors config @ section_errors config @ provider_errors config
          @ concat (map check_rule_provider (rule_providers_of config)) @ snd (group_rows config) @ graph_failure config"
  from assms(1) have "config_errors compile audits config secret_urls = Inr []"
    by (auto simp: validate_generated_config_def bindE_Inr_iff split: if_splits)
  then obtain e1 e2 targets where
      groups: "foldE (check_group compile c) (gc_rows c) ?start = Inr e1"
    and dialers: "foldE (check_dialers c) (providers_of config) e1 = Inr e2"
    and rules: "rule_errors c config = Inr (targets, [])"
    and none: "e2 = []" "cycle_errors c = []" "secret_errors secret_urls config = []"
    by (auto simp: config_errors_def Let_def bindE_Inr_iff c_def)
  have d: "e1 = []" "\<forall>e \<in> set (providers_of config). check_dialers c e [] = Inr []"
    using foldE_no_errors [OF dialers [unfolded none(1)]] dialers_checked by blast+
  have g: "?start = []" "\<forall>e \<in> set (gc_rows c). check_group compile c e [] = Inr []"
    using foldE_no_errors [OF groups [unfolded d(1)]] group_checked by (metis surj_pair)+
  have "foldl check_provider ([], []) (providers_of config) = (fst (foldl check_provider ([], []) (providers_of config)), [])"
    using g(1) by (simp add: provider_errors_def prod_eq_iff)
  note p = providers_checked [OF this, folded runtime_names_def]
  from g(1) graph_context [of config] obtain gr where gr: "from_candidate (JObj config) = Inr gr" "gc_graph c = Some gr"
    by (auto simp: c_def)
  have "\<forall>(name, row) \<in> set (gc_rows c). group_resolves c row \<and> offers_choice row"
    using g(2) group_checked by fast
  moreover have "\<forall>s \<in> set secret_urls. s \<noteq> [] \<longrightarrow> \<not> has_part s (json_dumps_raw (JObj config))"
    using none(3) by (auto simp: secret_errors_def list_ex_iff)
  ultimately show ?thesis
    using gr cycles_checked [OF none(2) gr(2)] p rule_list_checked [OF rules] d(2) dialers_checked by blast
qed

section \<open>A document that passes\<close>

definition valid_provider :: json where
  "valid_provider = JObj [(''type'', JStr ''inline''), (''payload'', JList [JObj [(''name'', JStr ''n'')]]),
     (''health-check'', JObj [(''enable'', JBool True), (''url'', JStr ''https://t''), (''expected-status'', JStr ''204'')])]"

definition valid_group :: "json dict" where
  "valid_group = [(''name'', JStr ''G''), (''type'', JStr ''select''), (''proxies'', JList [JStr ''DIRECT''])]"

definition valid_config :: "json dict" where
  "valid_config = [(''proxy-groups'', JList [JObj valid_group]), (''proxy-providers'', JObj [(''p'', valid_provider)]),
     (''rules'', JList [JStr ''MATCH,G''])]"

definition valid_graph :: runtime_graph where
  "valid_graph = \<lparr>rg_groups = [(''G'', valid_group)], rg_providers = [(''p'', [(''type'', JStr ''inline''),
     (''payload'', JList [JObj [(''name'', JStr ''n'')]]),
     (''health-check'', JObj [(''enable'', JBool True), (''url'', JStr ''https://t''), (''expected-status'', JStr ''204'')])])],
     rg_proxies = [(''n'', [(''name'', JStr ''n'')])], rg_provider_proxies = [(''p'', [''n''])], rg_provider_dialers = [(''p'', [])]\<rparr>"

lemma valid_from_candidate: "from_candidate (JObj valid_config) = Inr valid_graph"
  by code_simp

lemma valid_context: "context_of valid_config = \<lparr>gc_rows = [(''G'', valid_group)],
    gc_providers = [(''p'', valid_provider)], gc_graph = Some valid_graph\<rparr>" "snd (group_rows valid_config) = []"
proof -
  show "context_of valid_config = \<lparr>gc_rows = [(''G'', valid_group)],
    gc_providers = [(''p'', valid_provider)], gc_graph = Some valid_graph\<rparr>"
    unfolding context_of_def valid_from_candidate
    by (simp add: group_rows_def groups_of_def providers_of_def check_group_row_def valid_config_def valid_group_def get_or_def json_get_def)
  show "snd (group_rows valid_config) = []"
    by (simp add: group_rows_def groups_of_def check_group_row_def valid_config_def valid_group_def get_or_def json_get_def)
qed

lemma valid_parts:
  "section_errors valid_config = []" "rule_providers_of valid_config = []" "graph_failure valid_config = []"
  "group_cycles valid_graph = Inr []" "reachable_groups valid_graph [''G''] = Inr {''G''}"
  "list_field valid_group ''proxies'' = [JStr ''DIRECT'']" "list_field valid_group ''use'' = []" "\<not> row_hidden valid_group"
  by code_simp+

lemma valid_status: "expected_status_ok (JStr ''204'')"
  by (simp add: expected_status_ok_def parse_expected_status_def py_strip_eq strip_def is_space_def status_segments_def
      status_segment_def status_code_def is_digit_def)

lemma valid_providers: "provider_errors valid_config = []" "providers_of valid_config = [(''p'', valid_provider)]"
  by (simp_all add: provider_errors_def providers_of_def valid_config_def valid_provider_def get_or_def json_get_def
      check_provider_def external_fields_def health_errors_def valid_status check_proxy_def dialer_errors_def json_starts_def starts_with_def)

lemma valid_top: "top_level_errors valid_config = []"
  by (simp add: top_level_errors_def valid_config_def valid_provider_def valid_group_def portable_text_def points_of_ascii
      yaml_character_is_portable_def FORBIDDEN_TOP_LEVEL_def json_get_def)

lemma valid_group_check: "check_group compile (context_of valid_config) (''G'', valid_group) [] = Inr []"
proof -
  have "list_field_error valid_group k e = []" if "k \<in> {''proxies'', ''use''}" for k e
    using that by (auto simp: list_field_error_def valid_group_def get_or_def is_list_def Let_def)
  moreover have "json_get valid_group ''type'' = JStr ''select''" "get_or valid_group ''proxies'' (JList []) = JList [JStr ''DIRECT'']"
    by (simp_all add: valid_group_def json_get_def get_or_def)
  moreover have "hidden_names (context_of valid_config) = {}"
    by (auto simp: hidden_names_def valid_context valid_parts)
  ultimately show ?thesis
    by (simp add: check_group_def valid_parts Let_def check_member_def hashed_def names_json_def BUILTINS_def is_probe_type_def
        leaf_errors_def valid_context public_errors_def unsafe_hidden_refs_def is_list_def report_if_def)
qed

lemma valid_rules: "rule_errors (context_of valid_config) valid_config = Inr ([''G''], [])"
proof -
  have "split_on CHR '','' ''MATCH,G'' = [''MATCH'', ''G'']" by code_simp
  then show ?thesis
    by (simp add: rule_errors_def valid_config_def get_or_def hashed_def json_starts_def starts_with_def check_rule_def rule_target_def
        group_names_def valid_context [unfolded valid_config_def] add_name_def report_if_def)
qed

lemma valid_secret: "secret_errors [''https://s''] valid_config = []"
  by code_simp

lemma valid_accepted:
  "validate_generated_config (\<lambda>_. True) (\<lambda>_. None) (\<lambda>_. []) valid_config [''https://s''] = Inr ()"
proof -
  let ?c = "context_of valid_config"
  have graph: "gc_rows ?c = [(''G'', valid_group)]" "gc_graph ?c = Some valid_graph" by (simp_all add: valid_context)
  have hidden: "hidden_names ?c = {}" by (auto simp: hidden_names_def graph valid_parts)
  have "check_dialers ?c (''p'', valid_provider) [] = Inr []"
    by (simp add: check_dialers_def valid_provider_def get_or_def check_dialer_def)
  moreover have "cycle_errors ?c = []" by (simp add: cycle_errors_def graph valid_parts)
  moreover have "presentation_reachable ?c [''G''] = Inr []"
    by (simp add: presentation_reachable_def graph visible_names_def escaped_def valid_parts presentation_hidden_names_def hidden)
  ultimately show ?thesis
    by (simp add: validate_generated_config_def config_errors_def valid_top valid_parts valid_providers valid_context(2) graph
        valid_group_check valid_rules valid_secret)
qed

theorem validated_config_safe_witness:
  "distinct (runtime_names valid_config) \<and> \<not> has_part ''https://s'' (json_dumps_raw (JObj valid_config))"
  using validated_config_safe [OF valid_accepted] by simp

end
