(* ===== verification/QualificationCache.thy ===== *)
theory QualificationCache
  imports JsonValues PyUnicode
begin

text \<open>
  \<^verbatim>\<open>ai_qualification_cache.py\<close>: service decisions kept between runs under keyed fingerprints.  Stored
  documents are decoded JSON, the records of an update are typed.  The digests and Python's \<^verbatim>\<open>int\<close> of a
  text are parameters, the clock is an argument.
\<close>

definition CACHE_VERSION :: int where "CACHE_VERSION = 1"
definition CACHE_DOMAIN :: string where "CACHE_DOMAIN = ''clash-relay/ai-qualification-cache/v1''"
definition CACHE_RECORDS :: nat where "CACHE_RECORDS = 4096"
definition CACHE_AGE_SECONDS :: int where "CACHE_AGE_SECONDS = 7 * 24 * 60 * 60"
definition PASS_TTL_SECONDS :: int where "PASS_TTL_SECONDS = 6 * 60 * 60"
definition FAILURE_TTL_SECONDS :: int where "FAILURE_TTL_SECONDS = 60 * 60"
definition AI_PROVIDER_PREFIX :: string where "AI_PROVIDER_PREFIX = ''cr_ai_''"

text \<open>\<open>CacheValue\<close> stands for the exceptions of \<^verbatim>\<open>int(...)\<close>, \<open>UnknownName\<close> for a missing key.\<close>

datatype cache_error =
    NoKeySource
  | CacheIntegerTooLong
  | NoProviders
  | InvalidProvider
  | UnnamedAiProxy
  | DuplicateRuntimeName
  | CacheValue
  | UnknownName string

definition derive_ai_cache_key :: "(bytes \<Rightarrow> bytes \<Rightarrow> bytes) \<Rightarrow> string \<Rightarrow> cache_error + bytes" where
  "derive_ai_cache_key hmac token = (if token = [] then Inl NoKeySource else Inr (hmac token CACHE_DOMAIN))"

definition empty_ai_cache :: "json dict" where
  "empty_ai_cache = [(''version'', JInt CACHE_VERSION), (''nodes'', JObj [])]"

section \<open>Reading\<close>

text \<open>The entries of one record; \<open>None\<close> is the early return of an invalid document.\<close>

definition clean_result :: "json \<Rightarrow> json option" where
  "clean_result result = (case result of
     JObj r \<Rightarrow> (case json_get r ''passed'' of
        JBool p \<Rightarrow> (case as_int (json_get r ''checked_epoch'') of
            Some n \<Rightarrow> if n < 0 then None
              else Some (JObj [(''passed'', JBool p), (''checked_epoch'', json_get r ''checked_epoch'')])
          | None \<Rightarrow> None)
      | _ \<Rightarrow> None)
   | _ \<Rightarrow> None)"

fun clean_services :: "(string \<times> json) list \<Rightarrow> json dict \<Rightarrow> json dict option" where
  "clean_services [] clean = Some clean"
| "clean_services ((service, result) # rest) clean =
     (case clean_result result of None \<Rightarrow> None | Some r \<Rightarrow> clean_services rest (dict_set service r clean))"

definition clean_record :: "json \<Rightarrow> json option" where
  "clean_record record = (case record of
     JObj d \<Rightarrow> (case json_get d ''services'' of
        JObj services \<Rightarrow> map_option (\<lambda>clean. JObj [(''services'', JObj clean)]) (clean_services services [])
      | _ \<Rightarrow> None)
   | _ \<Rightarrow> None)"

fun clean_records :: "(string \<times> json) list \<Rightarrow> json dict \<Rightarrow> json dict option" where
  "clean_records [] clean = Some clean"
| "clean_records ((fingerprint, record) # rest) clean =
     (if length (points_of fingerprint) \<noteq> 64 then None
      else (case clean_record record of None \<Rightarrow> None
        | Some r \<Rightarrow> clean_records rest (dict_set fingerprint r clean)))"

definition parse_ai_cache_document :: "json \<Rightarrow> json dict \<times> string" where
  "parse_ai_cache_document document = (case document of
     JObj d \<Rightarrow>
       if \<not> eq_int (json_get d ''version'') CACHE_VERSION then (empty_ai_cache, ''invalid'')
       else (case json_get d ''nodes'' of
          JObj nodes \<Rightarrow> (case clean_records nodes [] of
              None \<Rightarrow> (empty_ai_cache, ''invalid'')
            | Some clean \<Rightarrow> ([(''version'', JInt CACHE_VERSION), (''nodes'', JObj clean)], ''loaded''))
        | _ \<Rightarrow> (empty_ai_cache, ''invalid''))
   | _ \<Rightarrow> (empty_ai_cache, ''invalid''))"

definition parse_ai_cache_bytes :: "bytes option \<Rightarrow> cache_error + json dict \<times> string" where
  "parse_ai_cache_bytes stored = (case stored of
     None \<Rightarrow> Inr (empty_ai_cache, ''missing'')
   | Some content \<Rightarrow>
       if content = [] then Inr (empty_ai_cache, ''missing'')
       else if \<not> valid_utf8 content then Inr (empty_ai_cache, ''invalid'')
       else (case json_loads content of
           Inl IntTooLong \<Rightarrow> Inl CacheIntegerTooLong
         | Inl _ \<Rightarrow> Inr (empty_ai_cache, ''invalid'')
         | Inr document \<Rightarrow> Inr (parse_ai_cache_document document)))"

section \<open>Fingerprints\<close>

definition proxy_fingerprint :: "(bytes \<Rightarrow> bytes \<Rightarrow> string) \<Rightarrow> string \<Rightarrow> json \<Rightarrow> bytes \<Rightarrow> string" where
  "proxy_fingerprint hmac provider_name proxy key =
     hmac key (json_dumps_raw (JObj [(''provider'', JStr provider_name), (''proxy'', proxy)]))"

definition add_fingerprint ::
  "(bytes \<Rightarrow> bytes \<Rightarrow> string) \<Rightarrow> bytes \<Rightarrow> string \<Rightarrow> json \<Rightarrow> string dict \<Rightarrow> cache_error + string dict" where
  "add_fingerprint hmac key provider_name proxy result = (case proxy of
     JObj d \<Rightarrow> (case json_get d ''name'' of
        JStr runtime_name \<Rightarrow>
          (let fingerprint = proxy_fingerprint hmac provider_name proxy key in
           (case map_of result runtime_name of
              Some previous \<Rightarrow> if previous \<noteq> fingerprint then Inl DuplicateRuntimeName
                else Inr (dict_set runtime_name fingerprint result)
            | None \<Rightarrow> Inr (dict_set runtime_name fingerprint result)))
      | _ \<Rightarrow> Inl UnnamedAiProxy)
   | _ \<Rightarrow> Inl UnnamedAiProxy)"

definition add_provider ::
  "(bytes \<Rightarrow> bytes \<Rightarrow> string) \<Rightarrow> bytes \<Rightarrow> json dict \<Rightarrow> string \<Rightarrow> string dict \<Rightarrow> cache_error + string dict" where
  "add_provider hmac key providers provider_name result =
     (if take (length AI_PROVIDER_PREFIX) provider_name \<noteq> AI_PROVIDER_PREFIX then Inr result
      else (case json_get providers provider_name of
         JObj provider \<Rightarrow> (case json_get provider ''payload'' of
             JList payload \<Rightarrow> foldE (add_fingerprint hmac key provider_name) payload result
           | _ \<Rightarrow> Inl InvalidProvider)
       | _ \<Rightarrow> Inl InvalidProvider))"

definition ai_runtime_fingerprints ::
  "(bytes \<Rightarrow> bytes \<Rightarrow> string) \<Rightarrow> json dict \<Rightarrow> bytes \<Rightarrow> cache_error + string dict" where
  "ai_runtime_fingerprints hmac candidate key = (case json_get candidate ''proxy-providers'' of
     JObj providers \<Rightarrow> foldE (add_provider hmac key providers) (sorted_set (dict_keys providers)) []
   | _ \<Rightarrow> Inl NoProviders)"

definition qualification_cache_key :: "(bytes \<Rightarrow> string) \<Rightarrow> string \<Rightarrow> json list \<Rightarrow> string" where
  "qualification_cache_key sha service_key probes = service_key @ '':'' @ sha (json_dumps_raw (JList probes))"

section \<open>Decisions\<close>

datatype decision = CachedPass | CachedFailure | ProbeLive

text \<open>\<^verbatim>\<open>cache.get("nodes", {})\<close> where anything but a mapping counts as empty.\<close>

definition cache_nodes :: "json dict \<Rightarrow> json dict" where
  "cache_nodes cache = (case json_get cache ''nodes'' of JObj d \<Rightarrow> d | _ \<Rightarrow> [])"

definition cached_result :: "json dict \<Rightarrow> string \<Rightarrow> string \<Rightarrow> json" where
  "cached_result cache fingerprint service = (case json_get (cache_nodes cache) fingerprint of
     JObj record \<Rightarrow> (case json_get record ''services'' of JObj services \<Rightarrow> json_get services service | _ \<Rightarrow> JNull)
   | _ \<Rightarrow> JNull)"

definition cached_decision :: "int \<Rightarrow> int \<Rightarrow> int \<Rightarrow> json \<Rightarrow> decision" where
  "cached_decision now pass_ttl failure_ttl result = (case result of
     JObj r \<Rightarrow> (case (as_int (json_get r ''checked_epoch''), json_get r ''passed'') of
        (Some checked, JBool p) \<Rightarrow>
          (let age = now - checked; ttl = (if p then pass_ttl else failure_ttl) in
           if age < 0 \<or> age > ttl then ProbeLive else if p then CachedPass else CachedFailure)
      | _ \<Rightarrow> ProbeLive)
   | _ \<Rightarrow> ProbeLive)"

definition cached_service_decisions ::
  "json dict \<Rightarrow> string dict \<Rightarrow> string \<Rightarrow> int \<Rightarrow> int \<Rightarrow> int \<Rightarrow> string list \<times> string list \<times> string list" where
  "cached_service_decisions cache fingerprints service now pass_ttl failure_ttl =
     (let names = (\<lambda>verdict. map fst (filter
            (\<lambda>(_, fp). cached_decision now pass_ttl failure_ttl (cached_result cache fp service) = verdict) fingerprints))
      in (names CachedPass, names CachedFailure, names ProbeLive))"

section \<open>Updating\<close>

record service_result =
  sr_passed :: bool
  sr_checked :: int

type_synonym cache_records = "service_result dict dict"

text \<open>\<^verbatim>\<open>int(item.get("checked_epoch", 0))\<close>\<close>

definition epoch_of :: "(string \<Rightarrow> int option) \<Rightarrow> json dict \<Rightarrow> cache_error + int" where
  "epoch_of text_int item = (case map_of item ''checked_epoch'' of
     None \<Rightarrow> Inr 0
   | Some (JInt n) \<Rightarrow> Inr n
   | Some (JBool b) \<Rightarrow> Inr (if b then 1 else 0)
   | Some (JFloat (Fin q)) \<Rightarrow> Inr (if 0 \<le> q then \<lfloor>q\<rfloor> else \<lceil>q\<rceil>)
   | Some (JStr s) \<Rightarrow> (case text_int s of Some n \<Rightarrow> Inr n | None \<Rightarrow> Inl CacheValue)
   | Some _ \<Rightarrow> Inl CacheValue)"

definition objects :: "json dict \<Rightarrow> json dict list" where
  "objects d = List.map_filter (\<lambda>(_, v). case v of JObj o' \<Rightarrow> Some o' | _ \<Rightarrow> None) d"

text \<open>\<^verbatim>\<open>max(..., default=0)\<close>\<close>

definition max_or_zero :: "int list \<Rightarrow> int" where
  "max_or_zero xs = (if xs = [] then 0 else Max (set xs))"

definition typed_results :: "json dict \<Rightarrow> service_result dict" where
  "typed_results services = List.map_filter (\<lambda>(name, item). case item of
     JObj r \<Rightarrow> (case (json_get r ''passed'', as_int (json_get r ''checked_epoch'')) of
         (JBool p, Some n) \<Rightarrow> Some (name, \<lparr>sr_passed = p, sr_checked = n\<rparr>) | _ \<Rightarrow> None)
   | _ \<Rightarrow> None) services"

definition retain_record ::
  "(string \<Rightarrow> int option) \<Rightarrow> int \<Rightarrow> string \<times> json \<Rightarrow> cache_records \<Rightarrow> cache_error + cache_records" where
  "retain_record text_int now entry nodes = (case entry of (fingerprint, record) \<Rightarrow> (case record of
     JObj d \<Rightarrow> (case json_get d ''services'' of
        JObj services \<Rightarrow> bindE (mapE (epoch_of text_int) (objects services)) (\<lambda>epochs.
          (let newest = max_or_zero epochs in
           Inr (if newest > 0 \<and> 0 \<le> now - newest \<and> now - newest \<le> CACHE_AGE_SECONDS
                then dict_set fingerprint (typed_results services) nodes else nodes)))
      | _ \<Rightarrow> Inr nodes)
   | _ \<Rightarrow> Inr nodes))"

definition record_check ::
  "string dict \<Rightarrow> string \<Rightarrow> string list \<Rightarrow> int \<Rightarrow> string \<Rightarrow> cache_records \<Rightarrow> cache_error + cache_records" where
  "record_check fingerprints service passed_names now runtime_name nodes = (case map_of fingerprints runtime_name of
     None \<Rightarrow> Inl (UnknownName runtime_name)
   | Some fp \<Rightarrow> (let services = (case map_of nodes fp of None \<Rightarrow> [] | Some s \<Rightarrow> s) in
       Inr (dict_set fp (dict_set service \<lparr>sr_passed = runtime_name \<in> set passed_names, sr_checked = now\<rparr> services) nodes)))"

definition newest_check :: "service_result dict \<Rightarrow> int" where
  "newest_check services = max_or_zero (map (\<lambda>(_, r). sr_checked r) services)"

definition bounded_records :: "cache_records \<Rightarrow> cache_records" where
  "bounded_records nodes =
     (if CACHE_RECORDS < length nodes then take CACHE_RECORDS (sort_key (\<lambda>(_, s). - newest_check s) nodes) else nodes)"

definition result_json :: "service_result \<Rightarrow> json" where
  "result_json r = JObj [(''passed'', JBool (sr_passed r)), (''checked_epoch'', JInt (sr_checked r))]"

definition record_json :: "service_result dict \<Rightarrow> json" where
  "record_json services = JObj [(''services'', JObj (map (\<lambda>(k, r). (k, result_json r)) services))]"

definition cache_json :: "cache_records \<Rightarrow> json dict" where
  "cache_json nodes = [(''version'', JInt CACHE_VERSION), (''nodes'', JObj (map (\<lambda>(k, s). (k, record_json s)) nodes))]"

definition update_ai_cache_service ::
  "(string \<Rightarrow> int option) \<Rightarrow> json dict \<Rightarrow> string dict \<Rightarrow> string \<Rightarrow> string list \<Rightarrow> string list \<Rightarrow> int
    \<Rightarrow> cache_error + json dict" where
  "update_ai_cache_service text_int cache fingerprints service checked_names passed_names now =
     bindE (foldE (retain_record text_int now) (cache_nodes cache) []) (\<lambda>kept.
     bindE (foldE (record_check fingerprints service passed_names now) (sorted_set checked_names) kept) (\<lambda>nodes.
       Inr (cache_json (sort_dict (bounded_records nodes)))))"

definition ai_cache_summary :: "json dict \<Rightarrow> nat \<times> nat" where
  "ai_cache_summary cache =
     (length (cache_nodes cache),
      sum_list (map (\<lambda>(_, record). case record of
          JObj d \<Rightarrow> (case json_get d ''services'' of JObj services \<Rightarrow> length services | _ \<Rightarrow> 0) | _ \<Rightarrow> 0)
        (cache_nodes cache)))"

end
