(* ===== verification/CacheFacts.thy ===== *)
theory CacheFacts
  imports QualificationCache
begin

text \<open>
  What the qualification cache guarantees: an update is read back by the next run, a verdict stays what a
  run recorded, and nothing is taken from the cache that was not recorded and is still fresh.
\<close>

section \<open>Stored caches\<close>

definition result_ok :: "json \<Rightarrow> bool" where
  "result_ok j \<longleftrightarrow> (\<exists>p c n. j = JObj [(''passed'', JBool p), (''checked_epoch'', c)] \<and> as_int c = Some n \<and> 0 \<le> n)"

definition services_ok :: "json dict \<Rightarrow> bool" where
  "services_ok s \<longleftrightarrow> dict_wf s \<and> (\<forall>(k, j) \<in> set s. result_ok j)"

definition stored_record_ok :: "string \<times> json \<Rightarrow> bool" where
  "stored_record_ok e \<longleftrightarrow> length (points_of (fst e)) = 64 \<and> (\<exists>s. snd e = JObj [(''services'', JObj s)] \<and> services_ok s)"

definition cache_ok :: "json dict \<Rightarrow> bool" where
  "cache_ok cache \<longleftrightarrow> (\<exists>nodes. cache = [(''version'', JInt CACHE_VERSION), (''nodes'', JObj nodes)]
     \<and> dict_wf nodes \<and> (\<forall>e \<in> set nodes. stored_record_ok e))"

lemma clean_result_ok: "clean_result j = Some r \<Longrightarrow> result_ok r"
  by (auto simp: clean_result_def result_ok_def split: json.splits option.splits if_splits)

lemma clean_services_ok: "clean_services ss clean = Some out \<Longrightarrow> services_ok clean \<Longrightarrow> services_ok out"
proof (induction ss clean rule: clean_services.induct)
  case (2 service result rest clean)
  then obtain r where r: "clean_result result = Some r" "clean_services rest (dict_set service r clean) = Some out"
    by (auto split: option.splits)
  have "services_ok (dict_set service r clean)"
    using "2.prems"(2) clean_result_ok [OF r(1)] by (auto simp: services_ok_def dest!: in_dict_set)
  then show ?case using "2.IH" r by simp
qed simp

lemma clean_records_ok:
  "clean_records es clean = Some out \<Longrightarrow> dict_wf clean \<and> (\<forall>e \<in> set clean. stored_record_ok e) \<Longrightarrow>
   dict_wf out \<and> (\<forall>e \<in> set out. stored_record_ok e)"
proof (induction es clean rule: clean_records.induct)
  case (2 fp row rest clean)
  then obtain r where r: "length (points_of fp) = 64" "clean_record row = Some r" "clean_records rest (dict_set fp r clean) = Some out"
    by (cases "clean_record row") (auto split: if_splits)
  have "stored_record_ok (fp, r)"
    using r(1,2) clean_services_ok [where clean = "[]"]
    by (auto simp: clean_record_def stored_record_ok_def services_ok_def split: json.splits)
  then have "dict_wf (dict_set fp r clean) \<and> (\<forall>e \<in> set (dict_set fp r clean). stored_record_ok e)"
    using "2.prems"(2) in_dict_set [of _ fp r clean] by blast
  then show ?case using "2.IH" r by simp
qed simp

lemma empty_cache_ok: "cache_ok empty_ai_cache"
  by (simp add: cache_ok_def empty_ai_cache_def)

lemma parsed_document_ok: "cache_ok (fst (parse_ai_cache_document document))"
  using clean_records_ok [where clean = "[]"] empty_cache_ok
  by (auto simp: parse_ai_cache_document_def cache_ok_def split: json.splits option.splits)

lemma parsed_cache_ok: "parse_ai_cache_bytes stored = Inr (cache, status) \<Longrightarrow> cache_ok cache"
  using parsed_document_ok empty_cache_ok
  by (auto simp: parse_ai_cache_bytes_def split: option.splits if_splits sum.splits json_error.splits)
     (metis fst_conv)

text \<open>Cleaning what is clean changes nothing.\<close>

lemma clean_services_id:
  "services_ok (clean @ ss) \<Longrightarrow> clean_services ss clean = Some (clean @ ss)"
proof (induction ss arbitrary: clean)
  case (Cons e ss)
  obtain k j where e: "e = (k, j)" by fastforce
  with Cons.prems have "clean_result j = Some j" "k \<notin> fst ` set clean"
    by (auto simp: services_ok_def clean_result_def result_ok_def json_get_def)
  then show ?case using Cons.IH [of "clean @ [e]"] Cons.prems by (simp add: e dict_set_fresh)
qed simp

lemma clean_records_id:
  "dict_wf (clean @ es) \<Longrightarrow> \<forall>e \<in> set es. stored_record_ok e \<Longrightarrow> clean_records es clean = Some (clean @ es)"
proof (induction es arbitrary: clean)
  case (Cons e es)
  obtain k j where e: "e = (k, j)" by fastforce
  with Cons.prems obtain s where s: "length (points_of k) = 64" "j = JObj [(''services'', JObj s)]" "services_ok s"
    by (auto simp: stored_record_ok_def)
  then have "clean_record j = Some j" using clean_services_id [of "[]" s] by (simp add: clean_record_def json_get_def)
  moreover have "k \<notin> fst ` set clean" using Cons.prems(1) by (auto simp: e)
  ultimately show ?case using Cons.IH [of "clean @ [e]"] Cons.prems s(1) by (simp add: e dict_set_fresh)
qed simp

lemma cache_ok_reads_back:
  assumes "cache_ok cache"
  shows "parse_ai_cache_document (JObj cache) = (cache, ''loaded'')"
proof -
  from assms obtain nodes where n: "cache = [(''version'', JInt CACHE_VERSION), (''nodes'', JObj nodes)]"
      "dict_wf nodes" "\<forall>e \<in> set nodes. stored_record_ok e"
    by (auto simp: cache_ok_def)
  then show ?thesis using clean_records_id [of "[]" nodes] by (simp add: parse_ai_cache_document_def json_get_def)
qed

section \<open>Retention\<close>

definition record_services :: "json \<Rightarrow> json dict" where
  "record_services record = (case record of JObj d \<Rightarrow> (case json_get d ''services'' of JObj s \<Rightarrow> s | _ \<Rightarrow> []) | _ \<Rightarrow> [])"

definition stored_results :: "json dict \<Rightarrow> string \<Rightarrow> service_result dict" where
  "stored_results cache fp = typed_results (record_services (json_get (cache_nodes cache) fp))"

definition current :: "int \<Rightarrow> service_result dict \<Rightarrow> bool" where
  "current now s \<longleftrightarrow> 0 < newest_check s \<and> newest_check s \<le> now \<and> now - newest_check s \<le> CACHE_AGE_SECONDS"

definition typed :: "json \<Rightarrow> service_result" where
  "typed j = (case j of JObj r \<Rightarrow> \<lparr>sr_passed = (json_get r ''passed'' = JBool True),
     sr_checked = the (as_int (json_get r ''checked_epoch''))\<rparr> | _ \<Rightarrow> \<lparr>sr_passed = False, sr_checked = 0\<rparr>)"

lemma typed_result:
  "result_ok j \<Longrightarrow> typed_results ((k, j) # s) = (k, typed j) # typed_results s"
  by (auto simp: result_ok_def typed_results_def typed_def json_get_def map_filter_simps)

lemma typed_results_map: "\<forall>(k, j) \<in> set s. result_ok j \<Longrightarrow> typed_results s = map (\<lambda>(k, j). (k, typed j)) s"
  by (induction s) (auto simp: typed_result, simp add: typed_results_def map_filter_simps)

lemma epochs_map: "\<forall>(k, j) \<in> set s. result_ok j \<Longrightarrow>
    mapE (epoch_of text_int) (objects s) = Inr (map (\<lambda>(k, j). sr_checked (typed j)) s)"
proof (induction s)
  case (Cons e s)
  obtain k j where e: "e = (k, j)" by fastforce
  with Cons.prems obtain p c n where j: "j = JObj [(''passed'', JBool p), (''checked_epoch'', c)]" "as_int c = Some n"
    by (auto simp: result_ok_def)
  then have "epoch_of text_int [(''passed'', JBool p), (''checked_epoch'', c)] = Inr n"
    by (cases c) (auto simp: epoch_of_def)
  moreover have "objects (e # s) = [(''passed'', JBool p), (''checked_epoch'', c)] # objects s"
    by (simp add: e j objects_def map_filter_simps)
  ultimately show ?case using Cons j by (simp add: e typed_def json_get_def)
qed (simp add: objects_def map_filter_simps)

lemma retain_one:
  assumes "stored_record_ok (fp, record)"
  shows "retain_record text_int now (fp, record) nodes =
    Inr (let s = typed_results (record_services record) in if current now s then dict_set fp s nodes else nodes)"
proof -
  from assms obtain s where s: "record = JObj [(''services'', JObj s)]" "services_ok s" by (auto simp: stored_record_ok_def)
  then have ok: "\<forall>(k, j) \<in> set s. result_ok j" by (simp add: services_ok_def)
  have "newest_check (typed_results s) = max_or_zero (map (\<lambda>(k, j). sr_checked (typed j)) s)"
    by (simp add: newest_check_def typed_results_map [OF ok] comp_def split_def)
  then show ?thesis
    by (simp add: retain_record_def s(1) json_get_def epochs_map [OF ok] record_services_def current_def Let_def)
qed

lemma retain_all:
  assumes "distinct (dict_keys es @ dict_keys nodes)" and "\<forall>e \<in> set es. stored_record_ok e"
  shows "foldE (retain_record text_int now) es nodes =
    Inr (nodes @ filter (\<lambda>(_, s). current now s) (map (\<lambda>(fp, r). (fp, typed_results (record_services r))) es))"
  using assms
proof (induction es arbitrary: nodes)
  case (Cons e es)
  obtain fp r where e: "e = (fp, r)" by fastforce
  let ?s = "typed_results (record_services r)"
  from Cons.prems have fresh: "fp \<notin> fst ` set nodes" and wf: "distinct (dict_keys es @ dict_keys nodes)" by (auto simp: e)
  have step: "retain_record text_int now (fp, r) nodes = Inr (if current now ?s then nodes @ [(fp, ?s)] else nodes)"
    using retain_one [of fp r] Cons.prems(2) fresh by (simp add: e Let_def dict_set_fresh)
  show ?case
  proof (cases "current now ?s")
    case True
    have "distinct (dict_keys es @ dict_keys (nodes @ [(fp, ?s)]))" using Cons.prems(1) by (auto simp: e)
    then show ?thesis using Cons.IH [of "nodes @ [(fp, ?s)]"] Cons.prems(2) step True by (simp add: e)
  qed (use Cons.IH [OF wf] Cons.prems(2) step in \<open>simp add: e\<close>)
qed simp

section \<open>An update\<close>

definition unshared :: "string dict \<Rightarrow> bool" where
  "unshared fingerprints \<longleftrightarrow> (\<forall>a b fp. map_of fingerprints a = Some fp \<longrightarrow> map_of fingerprints b = Some fp \<longrightarrow> a = b)"

lemma checks_effect:
  assumes "foldE (record_check fps service ok now) names nodes = Inr nodes'" and "distinct names" and "unshared fps" and "dict_wf nodes"
  shows "dict_wf nodes' \<and> set (dict_keys nodes') \<subseteq> set (dict_keys nodes) \<union> ran (map_of fps)
    \<and> (\<forall>name fp. map_of fps name = Some fp \<longrightarrow> map_of nodes' fp =
        (if name \<in> set names
         then Some (dict_set service \<lparr>sr_passed = name \<in> set ok, sr_checked = now\<rparr>
                (case map_of nodes fp of None \<Rightarrow> [] | Some s \<Rightarrow> s))
         else map_of nodes fp))"
  using assms
proof (induction names arbitrary: nodes)
  case (Cons n names)
  from Cons.prems(1) obtain f where f: "map_of fps n = Some f"
    by (cases "map_of fps n") (auto simp: record_check_def)
  let ?s = "dict_set service \<lparr>sr_passed = n \<in> set ok, sr_checked = now\<rparr> (case map_of nodes f of None \<Rightarrow> [] | Some s \<Rightarrow> s)"
  have "record_check fps service ok now n nodes = Inr (dict_set f ?s nodes)" by (simp add: record_check_def f Let_def)
  with Cons.prems(1) have run: "foldE (record_check fps service ok now) names (dict_set f ?s nodes) = Inr nodes'" by simp
  have IH: "dict_wf nodes'" "set (dict_keys nodes') \<subseteq> set (dict_keys (dict_set f ?s nodes)) \<union> ran (map_of fps)"
    "\<And>name fp. map_of fps name = Some fp \<Longrightarrow> map_of nodes' fp =
        (if name \<in> set names
         then Some (dict_set service \<lparr>sr_passed = name \<in> set ok, sr_checked = now\<rparr>
                (case map_of (dict_set f ?s nodes) fp of None \<Rightarrow> [] | Some s \<Rightarrow> s))
         else map_of (dict_set f ?s nodes) fp)"
    using Cons.IH [OF run] Cons.prems by auto
  have same: "name = n" if "map_of fps name = Some f" for name
    using Cons.prems(3) f that by (auto simp: unshared_def)
  have "f \<in> ran (map_of fps)" using f by (auto simp: ran_def)
  then have range: "set (dict_keys nodes') \<subseteq> set (dict_keys nodes) \<union> ran (map_of fps)"
    using IH(2) by auto
  have effect: "map_of nodes' fp =
        (if name \<in> set (n # names)
         then Some (dict_set service \<lparr>sr_passed = name \<in> set ok, sr_checked = now\<rparr>
                (case map_of nodes fp of None \<Rightarrow> [] | Some s \<Rightarrow> s))
         else map_of nodes fp)" if "map_of fps name = Some fp" for name fp
  proof (cases "name = n")
    case True
    with that f have "fp = f" by simp
    with IH(3) [OF that] True Cons.prems(2) show ?thesis by simp
  next
    case False
    with same that have "fp \<noteq> f" by blast
    with IH(3) [OF that] False show ?thesis by simp
  qed
  show ?case by (intro conjI allI impI) (fact IH(1), fact range, rule effect)
qed simp

lemma checks_succeed:
  "set names \<subseteq> dom (map_of fps) \<Longrightarrow> \<exists>nodes'. foldE (record_check fps service ok now) names nodes = Inr nodes'"
proof (induction names arbitrary: nodes)
  case (Cons n names)
  then obtain fp where "map_of fps n = Some fp" by auto
  then obtain u where "record_check fps service ok now n nodes = Inr u" by (simp add: record_check_def Let_def)
  then show ?case using Cons by simp
qed simp

lemma kept_map:
  assumes "dict_wf nodes"
  shows "map_of (filter (\<lambda>(_, s). P s) (map (\<lambda>(fp, r). (fp, g r)) nodes)) fp =
    (case map_of nodes fp of None \<Rightarrow> None | Some r \<Rightarrow> if P (g r) then Some (g r) else None)"
  using assms
proof (induction nodes)
  case (Cons e nodes)
  obtain k r where e: "e = (k, r)" by fastforce
  with Cons.prems have "map_of nodes k = None" by (simp add: map_of_eq_None_iff)
  with Cons.IH Cons.prems show ?case by (cases "fp = k") (simp_all add: e)
qed simp

lemma json_record: "json_get (cache_nodes (cache_json nodes)) fp = (case map_of nodes fp of None \<Rightarrow> JNull | Some s \<Rightarrow> record_json s)"
  by (simp add: cache_nodes_def cache_json_def json_get_def map_of_map split: option.split)

lemma json_result:
  "cached_result (cache_json nodes) fp service =
    (case map_of nodes fp of None \<Rightarrow> JNull | Some s \<Rightarrow> (case map_of s service of None \<Rightarrow> JNull | Some r \<Rightarrow> result_json r))"
  by (cases "map_of nodes fp") (simp_all add: cached_result_def json_record record_json_def json_get_def [of _ "''services''"],
      simp add: json_get_def map_of_map split: option.split)

lemma decision_result_json:
  "cached_decision now pt ft (result_json r) =
    (let age = now - sr_checked r in if age < 0 \<or> age > (if sr_passed r then pt else ft) then ProbeLive
      else if sr_passed r then CachedPass else CachedFailure)"
  by (simp add: cached_decision_def result_json_def json_get_def Let_def)

lemma decision_typed: "result_ok j \<Longrightarrow> cached_decision now pt ft (result_json (typed j)) = cached_decision now pt ft j"
  by (auto simp: result_ok_def cached_decision_def result_json_def typed_def json_get_def)

lemma decision_stored:
  assumes "cache_ok cache"
  shows "cached_decision now pt ft (case map_of (stored_results cache fp) service of None \<Rightarrow> JNull | Some r \<Rightarrow> result_json r) =
    cached_decision now pt ft (cached_result cache fp service)"
proof -
  from assms obtain nodes where n: "cache_nodes cache = nodes" "\<forall>e \<in> set nodes. stored_record_ok e"
    by (auto simp: cache_ok_def cache_nodes_def json_get_def)
  show ?thesis
  proof (cases "map_of nodes fp")
    case None
    then show ?thesis
      by (simp add: stored_results_def record_services_def cached_result_def n json_get_def typed_results_def map_filter_simps)
  next
    case (Some r)
    then have "stored_record_ok (fp, r)" using n(2) map_of_SomeD by fast
    then obtain s where s: "r = JObj [(''services'', JObj s)]" "\<forall>(k, j) \<in> set s. result_ok j"
      by (auto simp: stored_record_ok_def services_ok_def)
    have "result_ok j" if "map_of s service = Some j" for j using s(2) map_of_SomeD [OF that] by auto
    then show ?thesis using Some s(1) decision_typed
      by (auto simp: stored_results_def record_services_def cached_result_def n json_get_def typed_results_map [OF s(2)] map_of_map
          split: option.split)
  qed
qed

section \<open>What the next run sees\<close>

definition typed_ok :: "string \<times> service_result dict \<Rightarrow> bool" where
  "typed_ok e \<longleftrightarrow> length (points_of (fst e)) = 64 \<and> dict_wf (snd e) \<and> (\<forall>(k, r) \<in> set (snd e). 0 \<le> sr_checked r)"

lemma typed_ok_json: "typed_ok (fp, s) \<Longrightarrow> stored_record_ok (fp, record_json s)"
  by (fastforce simp: typed_ok_def stored_record_ok_def record_json_def services_ok_def result_json_def result_ok_def)

lemma stored_ok_typed: "stored_record_ok (fp, r) \<Longrightarrow> typed_ok (fp, typed_results (record_services r))"
proof -
  assume "stored_record_ok (fp, r)"
  then obtain s where s: "length (points_of fp) = 64" "r = JObj [(''services'', JObj s)]" "dict_wf s" "\<forall>(k, j) \<in> set s. result_ok j"
    by (auto simp: stored_record_ok_def services_ok_def)
  then show ?thesis
    by (auto simp: typed_ok_def record_services_def json_get_def typed_results_map [OF s(4)] result_ok_def typed_def)
qed

lemma checks_typed_ok:
  assumes "foldE (record_check fps service ok now) names nodes = Inr nodes'" and "0 \<le> now"
    and "\<forall>n \<in> set names. \<forall>fp. map_of fps n = Some fp \<longrightarrow> length (points_of fp) = 64"
    and "dict_wf nodes \<and> (\<forall>e \<in> set nodes. typed_ok e)"
  shows "dict_wf nodes' \<and> (\<forall>e \<in> set nodes'. typed_ok e)"
proof (rule foldE_invariant [where P = "\<lambda>d. dict_wf d \<and> (\<forall>e \<in> set d. typed_ok e)", OF assms(1,4)])
  fix n u u' assume n: "n \<in> set names" "dict_wf u \<and> (\<forall>e \<in> set u. typed_ok e)" "record_check fps service ok now n u = Inr u'"
  from n(3) obtain fp where fp: "map_of fps n = Some fp"
    "u' = dict_set fp (dict_set service \<lparr>sr_passed = n \<in> set ok, sr_checked = now\<rparr> (case map_of u fp of None \<Rightarrow> [] | Some s \<Rightarrow> s)) u"
    by (auto simp: record_check_def Let_def split: option.splits)
  have "dict_wf (case map_of u fp of None \<Rightarrow> [] | Some s \<Rightarrow> s)"
    "\<forall>(k, r) \<in> set (case map_of u fp of None \<Rightarrow> [] | Some s \<Rightarrow> s). 0 \<le> sr_checked r"
    using n(2) map_of_SomeD [of u fp] by (force simp: typed_ok_def split: option.split)+
  then have "typed_ok (fp, dict_set service \<lparr>sr_passed = n \<in> set ok, sr_checked = now\<rparr> (case map_of u fp of None \<Rightarrow> [] | Some s \<Rightarrow> s))"
    using assms(2,3) n(1) fp(1) by (auto simp: typed_ok_def dest!: in_dict_set)
  then show "dict_wf u' \<and> (\<forall>e \<in> set u'. typed_ok e)" using n(2) unfolding fp(2) by (auto dest!: in_dict_set)
qed

lemma bounded_typed_ok:
  assumes "dict_wf nodes \<and> (\<forall>e \<in> set nodes. typed_ok e)"
  shows "dict_wf (bounded_records nodes) \<and> (\<forall>e \<in> set (bounded_records nodes). typed_ok e) \<and> length (bounded_records nodes) \<le> 4096"
proof -
  let ?s = "sort_key (\<lambda>(_, s). - newest_check s) nodes"
  have "dict_wf (take CACHE_RECORDS ?s)"
    unfolding take_map [symmetric] by (rule distinct_take) (use assms in \<open>simp add: distinct_map\<close>)
  moreover have "set (take CACHE_RECORDS ?s) \<subseteq> set nodes" using set_take_subset by fastforce
  ultimately show ?thesis using assms by (auto simp: bounded_records_def CACHE_RECORDS_def)
qed

definition fresh_records :: "int \<Rightarrow> json dict \<Rightarrow> cache_records" where
  "fresh_records now cache =
     filter (\<lambda>(_, s). current now s) (map (\<lambda>(fp, r). (fp, typed_results (record_services r))) (cache_nodes cache))"

lemma kept_records:
  assumes "cache_ok cache"
  shows "foldE (retain_record text_int now) (cache_nodes cache) [] = Inr (fresh_records now cache)" and "dict_wf (fresh_records now cache)"
    and "\<forall>e \<in> set (fresh_records now cache). typed_ok e" and "set (dict_keys (fresh_records now cache)) \<subseteq> set (dict_keys (cache_nodes cache))"
    and "map_of (fresh_records now cache) fp = (if current now (stored_results cache fp) then Some (stored_results cache fp) else None)"
proof -
  from assms(1) have n: "dict_wf (cache_nodes cache)" "\<forall>e \<in> set (cache_nodes cache). stored_record_ok e"
    by (auto simp: cache_ok_def cache_nodes_def json_get_def)
  then show "foldE (retain_record text_int now) (cache_nodes cache) [] = Inr (fresh_records now cache)"
    using retain_all [of "cache_nodes cache" "[]"] by (simp add: fresh_records_def)
  have keys: "dict_keys (map (\<lambda>(fp, r). (fp, typed_results (record_services r))) xs) = dict_keys xs" for xs
    by (simp add: comp_def split_def)
  then show "dict_wf (fresh_records now cache)" unfolding fresh_records_def using n(1) by (metis distinct_map_filter)
  show "\<forall>e \<in> set (fresh_records now cache). typed_ok e" using n(2) stored_ok_typed by (force simp: fresh_records_def)
  show "set (dict_keys (fresh_records now cache)) \<subseteq> set (dict_keys (cache_nodes cache))" by (force simp: fresh_records_def)
  have "\<not> current now []" by (simp add: current_def newest_check_def max_or_zero_def)
  then show "map_of (fresh_records now cache) fp = (if current now (stored_results cache fp) then Some (stored_results cache fp) else None)"
    unfolding fresh_records_def kept_map [OF n(1), of "current now"]
    by (auto simp: stored_results_def json_get_def record_services_def typed_results_def map_filter_simps split: option.split)
qed

text \<open>
  C38.  A cache that was read and updated is one the next run accepts: its document reads back as itself,
  with at most 4096 records under distinct sorted fingerprints.  The update fails on no stored content,
  only on a checked name that has no fingerprint.
\<close>

theorem updated_cache_reads_back:
  assumes "parse_ai_cache_bytes stored = Inr (cache, status)" and "0 \<le> now" and "set checked \<subseteq> dom (map_of fps)"
    and "\<forall>fp \<in> ran (map_of fps). length (points_of fp) = 64"
  shows "\<exists>cache'. update_ai_cache_service text_int cache fps service checked ok now = Inr cache'
    \<and> parse_ai_cache_document (JObj cache') = (cache', ''loaded'') \<and> length (cache_nodes cache') \<le> 4096
    \<and> sorted (dict_keys (cache_nodes cache')) \<and> distinct (dict_keys (cache_nodes cache'))"
proof -
  note ok = parsed_cache_ok [OF assms(1)]
  obtain nodes where n: "foldE (record_check fps service ok now) (sorted_set checked) (fresh_records now cache) = Inr nodes"
    using checks_succeed [of "sorted_set checked" fps service ok now "fresh_records now cache"] assms(3) by auto
  have "\<forall>n \<in> set (sorted_set checked). \<forall>fp. map_of fps n = Some fp \<longrightarrow> length (points_of fp) = 64"
    using assms(4) by (auto simp: ran_def)
  from checks_typed_ok [OF n assms(2) this] kept_records(2,3) [OF ok]
  have "dict_wf nodes \<and> (\<forall>e \<in> set nodes. typed_ok e)" by blast
  note b = bounded_typed_ok [OF this]
  let ?out = "sort_dict (bounded_records nodes)"
  have wf: "dict_wf ?out" "\<forall>e \<in> set ?out. typed_ok e" using b by simp_all
  have keys: "dict_keys (cache_nodes (cache_json ?out)) = dict_keys ?out"
    by (simp add: cache_nodes_def cache_json_def json_get_def comp_def split_def)
  have "\<forall>e \<in> set (map (\<lambda>(k, s). (k, record_json s)) ?out). stored_record_ok e" using wf(2) typed_ok_json by auto
  moreover have "dict_wf (map (\<lambda>(k, s). (k, record_json s)) ?out)" using wf(1) by (simp add: comp_def split_def)
  ultimately have "cache_ok (cache_json ?out)" by (simp add: cache_ok_def cache_json_def)
  moreover have "update_ai_cache_service text_int cache fps service checked ok now = Inr (cache_json ?out)"
    by (simp add: update_ai_cache_service_def kept_records(1) [OF ok] n)
  moreover have "length (cache_nodes (cache_json ?out)) \<le> 4096" using b keys by (metis length_map sort_dict_simps(2))
  moreover have "sorted (dict_keys ?out)" by (simp add: sort_dict_def)
  ultimately show ?thesis using cache_ok_reads_back wf(1) by (auto simp: keys)
qed


section \<open>Two nodes\<close>

definition old_print :: string where "old_print = replicate 64 CHR ''a''"
definition new_print :: string where "new_print = replicate 64 CHR ''b''"

definition demo_stored :: json where
  "demo_stored = JObj [(''nodes'', JObj [(old_print, JObj [(''services'', JObj [(''s'', JObj [(''checked_epoch'', JInt 100),
     (''passed'', JBool True)])])])]), (''version'', JInt 1)]"

definition demo_cache :: "json dict" where
  "demo_cache = [(''version'', JInt 1), (''nodes'', JObj [(old_print, record_json [(''s'', \<lparr>sr_passed = True, sr_checked = 100\<rparr>)])])]"

definition demo_prints :: "string dict" where
  "demo_prints = [(''old'', old_print), (''new'', new_print)]"

lemma demo_print_facts:
  "old_print \<noteq> new_print" "length (points_of old_print) = 64" "length (points_of new_print) = 64" "ascii_text old_print"
proof -
  have a: "ascii_text (replicate n CHR ''a'')" "ascii_text (replicate n CHR ''b'')" for n by (induction n) simp_all
  then show "length (points_of old_print) = 64" "length (points_of new_print) = 64" "ascii_text old_print"
    unfolding old_print_def new_print_def by (simp_all only: points_of_ascii length_map length_replicate)
  have "hd old_print \<noteq> hd new_print" by (simp add: old_print_def new_print_def hd_replicate)
  then show "old_print \<noteq> new_print" by auto
qed

lemma demo_parse: "parse_ai_cache_bytes (Some (json_dumps demo_stored)) = Inr (demo_cache, ''loaded'')"
proof -
  have "plain demo_stored" using demo_print_facts(4) by (simp add: demo_stored_def is_ascii_def nat_digits.simps)
  then have "json_loads (json_dumps demo_stored) = Inr demo_stored" "valid_utf8 (json_dumps demo_stored)"
    using json_loads_dumps [of demo_stored] ascii_json_dumps valid_utf8_ascii
    by (simp_all add: demo_stored_def)
  moreover have "json_dumps demo_stored \<noteq> []" by (simp add: json_dumps_def demo_stored_def)
  ultimately show ?thesis using demo_print_facts(2)
    by (simp add: parse_ai_cache_bytes_def parse_ai_cache_document_def demo_stored_def json_get_def CACHE_VERSION_def
        clean_record_def clean_result_def demo_cache_def record_json_def result_json_def)
qed

lemma demo_unshared: "unshared demo_prints" "ran (map_of demo_prints) = {old_print, new_print}"
proof -
  show "unshared demo_prints" unfolding unshared_def
  proof (intro allI impI)
    fix a b fp assume m: "map_of demo_prints a = Some fp" "map_of demo_prints b = Some fp"
    then have "a \<in> {''old'', ''new''}" "b \<in> {''old'', ''new''}" by (simp_all add: demo_prints_def split: if_splits)
    with m demo_print_facts(1) show "a = b" by (cases "a = ''old''"; cases "b = ''old''") (simp_all add: demo_prints_def)
  qed
  show "ran (map_of demo_prints) = {old_print, new_print}" by (simp add: demo_prints_def insert_commute)
qed

theorem updated_cache_reads_back_witness:
  "\<exists>cache'. update_ai_cache_service (\<lambda>_. None) demo_cache demo_prints ''s'' [''new''] [''new''] 200 = Inr cache'
     \<and> parse_ai_cache_document (JObj cache') = (cache', ''loaded'')"
  using updated_cache_reads_back [OF demo_parse, of 200 "[''new'']" demo_prints "\<lambda>_. None" "''s''" "[''new'']"]
    demo_unshared(2) demo_print_facts by (auto simp: demo_prints_def)


end
