(* ===== verification/Spec2Isabelle.thy ===== *)
theory Spec2Isabelle
  imports BundleLiveness CalmKv BundleTrace ReleaseSafety GraphLeaves SchedulerPolicy DnsFacts NodeSelection PromotionFacts SubscriptionFacts ValidatorFacts CacheFacts
begin

text \<open>
  A verification development for clash-relay, a Python program that assembles a proxy
  configuration, qualifies it, and publishes it as a versioned release in a key-value store.  The
  sources are under \<^verbatim>\<open>src/src/clash_relay/\<close>; file names below are relative to it.

  \<^bold>\<open>How the program is put together.\<close>  Subscriptions are fetched and composed with policies into one
  generated document.  The document is audited as a graph (\<^verbatim>\<open>runtime_graph.py\<close>), its nodes are
  qualified by live probes whose outcomes feed an anonymous history (\<^verbatim>\<open>scheduler_history.py\<close>), and
  gates decide whether the run may publish (\<^verbatim>\<open>publication_decision.py\<close>, \<^verbatim>\<open>publication.py\<close>).  The
  publication itself (\<^verbatim>\<open>release_bundle.py\<close>) is a small transaction protocol over an eventually
  readable store with ambiguous writes (\<^verbatim>\<open>publishers/cloudflare_kv.py\<close>); around it are the journal
  of releases and its retention (\<^verbatim>\<open>release_journal.py\<close>, \<^verbatim>\<open>release_inventory.py\<close>), the read-only
  verdict on an ambiguous commit (\<^verbatim>\<open>release_reconciliation.py\<close>) and the operations of
  \<^verbatim>\<open>production_application.py\<close> that compose them.

  \<^bold>\<open>Theories and what they model.\<close>
  \<^item> \<open>Prelude\<close>, \<open>Effects\<close>: strings as UTF-8 bytes, ordered dictionaries, hexadecimal texts, the error
    sum, and actions that raise (an action keeps the world it has changed when it fails), with a
    weakest-precondition calculus.
  \<^item> \<open>Json\<close>, \<open>PyFloat\<close>, \<open>JsonFacts\<close>, \<open>JsonValues\<close>, \<open>FloatFacts\<close>: the standard library's JSON reader and
    writer, UTF-8, and binary64 arithmetic as the program uses them.
  \<^item> \<open>KvKeys\<close>: \<^verbatim>\<open>kv_keys.py\<close>, the names derived from a production key.
  \<^item> \<open>KvPublisher\<close>: the publisher interface of \<^verbatim>\<open>release_bundle.py\<close> as a record over any world, and
    the locales that state its contract.
  \<^item> \<open>ReleaseIdentity\<close>, \<open>ReleaseTransaction\<close>, \<open>ReleaseBundle\<close>: \<^verbatim>\<open>release_bundle.py\<close> and
    \<^verbatim>\<open>release_transaction.py\<close>, one definition for each function or branch, calls in the same order.
  \<^item> \<open>CloudflareKv\<close>, \<open>SimulatedKv\<close>, \<open>CloudflareFacts\<close>, \<open>CalmKv\<close>: the Workers KV publisher over a remote
    that is a parameter, a simulated remote with scripted faults, and the interpretations of the
    contracts on them.
  \<^item> \<open>BundleState\<close>, \<open>BundleCommit\<close>, \<open>BundleProperties\<close>, \<open>BundleTrace\<close>, \<open>BundleLiveness\<close>,
    \<open>ReleaseWitnesses\<close>: the proofs about publication.
  \<^item> \<open>ReleaseJournal\<close>, \<open>Reconciliation\<close>, \<open>ReleaseOperations\<close>, \<open>ReleaseSafety\<close>: journal, inventory,
    reconciliation and the release entry points, with what they guarantee.
  \<^item> \<open>RuntimeGraph\<close>, \<open>GraphFacts\<close>, \<open>GraphProperties\<close>, \<open>GroupTraversals\<close>, \<open>GroupCycles\<close>, \<open>GraphLeaves\<close>:
    every traversal of \<^verbatim>\<open>runtime_graph.py\<close> and what it computes.
  \<^item> \<open>ReleaseGates\<close>: \<^verbatim>\<open>publication_decision.py\<close>, \<^verbatim>\<open>publication.py\<close>, \<^verbatim>\<open>release_reliability.py\<close> and
    \<^verbatim>\<open>release_readiness.py\<close>.
  \<^item> \<open>SchedulerHistory\<close>, \<open>SchedulerFacts\<close>, \<open>SchedulerPolicy\<close>: \<^verbatim>\<open>scheduler_history.py\<close> and
    \<^verbatim>\<open>scheduler_policy.py\<close>.
  \<^item> \<open>PyText\<close>, \<open>NetworkAddress\<close>, \<open>AddressFacts\<close>: \<^verbatim>\<open>network_address_policy.py\<close> over the parsing and the tables
    of \<^verbatim>\<open>ipaddress\<close>, addresses as words of 32 and 128 bits.
  \<^item> \<open>DnsWire\<close>, \<open>DnsFacts\<close>: \<^verbatim>\<open>dns_wire.py\<close>, queries, the bounded parser of responses and the probe.

  \<^item> \<open>SourceIdentity\<close>, \<open>Models\<close>: \<^verbatim>\<open>runtime_names.py\<close>, \<^verbatim>\<open>runtime_identity.py\<close> and the records of
    \<^verbatim>\<open>models.py\<close>, with the round trip of runtime names.
  \<^item> \<open>NodeSelection\<close>: \<^verbatim>\<open>selector.py\<close>, the nodes of a pool.
  \<^item> \<open>ReachabilityAudit\<close>, \<open>AuditFacts\<close>: the use boundary of \<^verbatim>\<open>production_audit.py\<close>.
  \<^item> \<open>Availability\<close>, \<open>PromotionGuard\<close>, \<open>PromotionFacts\<close>: \<^verbatim>\<open>availability.py\<close> and
    \<^verbatim>\<open>promotion_guard.py\<close>, the guard as a refinement of its policy.
  \<^item> \<open>PyUnicode\<close>, \<open>YamlValue\<close>: strings as code points, YAML values and the guards of \<^verbatim>\<open>util.py\<close>.
  \<^item> \<open>SubscriptionParser\<close>, \<open>SubscriptionFacts\<close>: \<^verbatim>\<open>subscription_parser.py\<close>, from untrusted text to
    sanitised proxies, and what an accepted proxy is.
  \<^item> \<open>ConfigValidator\<close>, \<open>ValidatorFacts\<close>: \<^verbatim>\<open>validator.py\<close> and \<^verbatim>\<open>status.py\<close>, every static check of the
    generated document in its order, and what a document that passes is.
  \<^item> \<open>QualificationCache\<close>, \<open>CacheFacts\<close>: \<^verbatim>\<open>ai_qualification_cache.py\<close>, verdicts kept between runs.

  \<^bold>\<open>What the lemmas show.\<close>  Publication: a write follows only writes that were rejected or read back;
  production always holds the former bytes or the candidate; a result means a complete release, and
  the annotations of errors are true; no run passes through an inconsistent state, so an interrupted
  one can be continued; over a publisher that serves its calls publication succeeds.  Retention
  deletes only unreferenced releases.  Graph: traversals return exactly the reachable nodes and the
  only unbounded recursion is a cycle of dialers.  Gates: publication is opt-in, modes exclude each
  other, phases follow the documented order, readiness accepts exactly complete evidence.  History:
  every update is accepted by the next run, and preferences only narrow the live set.
  Addresses: the global ones are characterised as ranges, in all of their forms.  DNS: the parser stays
  within the message and gives a well-formed response the verdict of its answer section.
  Generation: a runtime name is read back as its source, a pool takes exactly its eligible nodes.  Audit
  and admission: a passed audit confines every surface to sources of its use, and the guard admits a
  candidate exactly when the inventories meet the declared minima.

  Subscriptions: every entry is accepted or counted under one reason, and an accepted proxy is well
  formed and stable under validation.  Validation: an accepted document is acyclic, closed under
  reference, confined in its dialers and free of secrets.  Cache: an update is read back, and a later
  run gets exactly the verdicts that were recorded and are still current.

  \<^bold>\<open>Bounds and fuel.\<close>  The JSON reader carries fuel \<open>2 * length s + 2\<close>; \<open>json_loads_fuel\<close> proves that it
  never runs out.  The recursive visits of the graph carry fuel, and running out of it models
  Python's \<^verbatim>\<open>RecursionError\<close>; the bounds \<open>walk_bound\<close> and the number of groups are proved sufficient
  wherever the recursion ends.  The name reader of
  DNS responses ends by its jump limit and the message length.  All other loops are structural.

  \<^bold>\<open>Parameters.\<close>  SHA-256 and HMAC, the HTTP exchange, the IDNA codec, the regular-expression engine of group filters,
  the JSON schema, the YAML library, base64 decoding, the Unicode operations of strings and the clock are
  arguments; so are, of the program's own code, the parser of single share links, where a subscription
  is read, and the two DNS audits, where a document is validated.  What is asked of the first three
  is stated as locale assumptions (\<open>digest\<close>, \<open>kv_remote\<close>, \<open>calm_remote\<close>), each interpreted on a concrete instance.

  \<^bold>\<open>Abstractions.\<close>  A Python string is its UTF-8 encoding; the recursion limit of the interpreter is
  modelled only where a visit may recurse without bound; a set that the code iterates is a list in
  insertion order; the sign of a floating zero is not represented; documents read from YAML are
  decoded JSON values.

  \<^bold>\<open>Not modelled.\<close>  Subprocesses, sockets and files (probing, the external core, fetching), the
  generation of documents from policy files, reporting, and the command-line scripts: they are
  input and output around the decisions above, or compositions of YAML files.
\<close>

end
